(* ===== verification/Go_Base.thy ===== *)
theory Go_Base
  imports Main "HOL-Library.Word"
begin

text \<open>
  The shared prelude: how the development represents what a Go function does.

  \<^item> A Go function that can crash returns a value of type \<open>'a go\<close>: it returns a value,
    panics (a run-time error such as an index out of range), or ends the process
    (\<open>log.Fatal\<close>, \<open>logger.Fatal\<close>), with the message of the call.
  \<^item> A Go result \<open>(T, error)\<close> is \<open>'a result\<close>: \<open>Inl\<close> of the message of the error or
    \<open>Inr\<close> of the value. A result that is an \<open>error\<close> alone is \<open>string option\<close>.
  \<^item> A Go slice of bytes keeps its capacity: a slice expression may read past the length,
    up to the capacity, without a panic.

  The locale \<open>bounded_retry\<close> is the interface of the loops
  \<open>for i := 0; i < N; i++ { try; if it worked, return; sleep }\<close>, which the aggregator, the
  operator's RPC client and the receipt poller all have.
\<close>

subsection \<open>Types\<close>

type_synonym byte = "8 word"
type_synonym bytes = "byte list"
type_synonym u8 = "8 word"
type_synonym u16 = "16 word"
type_synonym u32 = "32 word"
type_synonym u64 = "64 word"

text \<open>A Go array \<open>[32]byte\<close>: a list whose length the operations that build one fix to 32.\<close>

type_synonym bytes32 = "byte list"

type_synonym 'a result = "string + 'a"

datatype 'a go = Ret 'a | Panic | Fatal string

named_theorems go_simps \<open>equations of the sequencing operations\<close>
named_theorems slice_simps \<open>reading Go slices\<close>

text \<open>\<open>time.Second\<close>, in the nanoseconds a \<open>time.Duration\<close> counts.\<close>

definition second :: nat where "second = 10 ^ 9"

subsection \<open>Sequencing\<close>

fun gbind :: "'a go \<Rightarrow> ('a \<Rightarrow> 'b go) \<Rightarrow> 'b go" where
  "gbind (Ret x) f = f x"
| "gbind Panic f = Panic"
| "gbind (Fatal m) f = Fatal m"

declare gbind.simps [go_simps]

fun rbind :: "'a result \<Rightarrow> ('a \<Rightarrow> 'b result) \<Rightarrow> 'b result" where
  "rbind (Inl e) f = Inl e"
| "rbind (Inr x) f = f x"

declare rbind.simps [go_simps]

text \<open>\<open>x, err := f(); if err != nil { log.Fatal(m) }\<close>\<close>

fun or_fatal :: "string \<Rightarrow> 'a result \<Rightarrow> 'a go" where
  "or_fatal m (Inl e) = Fatal (m @ e)"
| "or_fatal m (Inr x) = Ret x"

text \<open>\<open>if c { log.Fatal(m) }\<close>\<close>

definition fatal_if :: "bool \<Rightarrow> string \<Rightarrow> unit go" where
  "fatal_if c m = (if c then Fatal m else Ret ())"

fun is_ret :: "'a go \<Rightarrow> bool" where
  "is_ret (Ret _) = True"
| "is_ret _ = False"

lemma gbind_Ret_iff [go_simps]:
  "gbind x f = Ret y \<longleftrightarrow> (\<exists>a. x = Ret a \<and> f a = Ret y)"
  by (cases x) auto

lemma gbind_Panic_iff: "gbind x f = Panic \<longleftrightarrow> x = Panic \<or> (\<exists>a. x = Ret a \<and> f a = Panic)"
  by (cases x) auto

lemma gbind_assoc: "gbind (gbind x f) g = gbind x (\<lambda>a. gbind (f a) g)"
  by (cases x) auto

lemma gbind_cong_Ret [fundef_cong]:
  "x = x' \<Longrightarrow> (\<And>a. x' = Ret a \<Longrightarrow> f a = f' a) \<Longrightarrow> gbind x f = gbind x' f'"
  by (cases x') auto

lemma rbind_Inr_iff [go_simps]:
  "rbind x f = Inr y \<longleftrightarrow> (\<exists>a. x = Inr a \<and> f a = Inr y)"
  by (cases x) auto

lemma rbind_Inl_iff [go_simps]:
  "rbind x f = Inl e \<longleftrightarrow> x = Inl e \<or> (\<exists>a. x = Inr a \<and> f a = Inl e)"
  by (cases x) auto

lemma or_fatal_Ret_iff [go_simps]: "or_fatal m r = Ret x \<longleftrightarrow> r = Inr x"
  by (cases r) auto

lemma or_fatal_no_panic [simp]: "or_fatal m r \<noteq> Panic"
  by (cases r) auto

lemma fatal_if_Ret_iff [go_simps]: "fatal_if c m = Ret u \<longleftrightarrow> \<not> c"
  by (simp add: fatal_if_def)

lemma fatal_if_no_panic [simp]: "fatal_if c m \<noteq> Panic"
  by (simp add: fatal_if_def)

lemma is_ret_iff: "is_ret x \<longleftrightarrow> (\<exists>a. x = Ret a)"
  by (cases x) auto

subsection \<open>Byte slices\<close>

text \<open>
  A slice is the part of its backing array it can reach (from its first element to its
  capacity) and its length.
\<close>

record gslice =
  backing :: bytes
  slen :: nat

definition slice_ok :: "gslice \<Rightarrow> bool" where
  "slice_ok s \<longleftrightarrow> slen s \<le> length (backing s)"

definition contents :: "gslice \<Rightarrow> bytes" where
  "contents s = take (slen s) (backing s)"

text \<open>A slice with no spare capacity.\<close>

definition gs_of :: "bytes \<Rightarrow> gslice" where
  "gs_of bs = \<lparr>backing = bs, slen = length bs\<rparr>"

text \<open>\<open>s[lo:hi]\<close>: the upper bound is checked against the capacity.\<close>

definition slice_range :: "gslice \<Rightarrow> nat \<Rightarrow> nat \<Rightarrow> bytes go" where
  "slice_range s lo hi =
     (if lo \<le> hi \<and> hi \<le> length (backing s) then Ret (take (hi - lo) (drop lo (backing s)))
      else Panic)"

text \<open>\<open>s[lo:]\<close>: the upper bound is the length.\<close>

definition slice_from :: "gslice \<Rightarrow> nat \<Rightarrow> bytes go" where
  "slice_from s lo = (if lo \<le> slen s then Ret (drop lo (contents s)) else Panic)"

text \<open>\<open>copy(dst, src)\<close> writes as many bytes as both have room for.\<close>

definition go_copy :: "bytes \<Rightarrow> bytes \<Rightarrow> bytes" where
  "go_copy dst src = (let n = min (length dst) (length src) in take n src @ drop n dst)"

text \<open>\<open>make([]byte, n)\<close>\<close>

definition make_bytes :: "nat \<Rightarrow> bytes" where
  "make_bytes n = replicate n 0"

lemma contents_gs_of [simp, slice_simps]: "contents (gs_of bs) = bs"
  by (simp add: contents_def gs_of_def)

lemma slice_ok_gs_of [simp]: "slice_ok (gs_of bs)"
  by (simp add: slice_ok_def gs_of_def)

lemma length_contents [simp]: "slice_ok s \<Longrightarrow> length (contents s) = slen s"
  by (simp add: slice_ok_def contents_def)

lemma slice_range_Ret_iff [slice_simps]:
  "slice_range s lo hi = Ret bs \<longleftrightarrow>
     lo \<le> hi \<and> hi \<le> length (backing s) \<and> bs = take (hi - lo) (drop lo (backing s))"
  by (auto simp: slice_range_def)

lemma slice_range_Panic_iff [slice_simps]:
  "slice_range s lo hi = Panic \<longleftrightarrow> hi < lo \<or> length (backing s) < hi"
  by (auto simp: slice_range_def)

lemma slice_range_not_Fatal [simp]: "slice_range s lo hi \<noteq> Fatal m"
  by (simp add: slice_range_def)

lemma slice_from_Ret_iff [slice_simps]:
  "slice_from s lo = Ret bs \<longleftrightarrow> lo \<le> slen s \<and> bs = drop lo (contents s)"
  by (auto simp: slice_from_def)

lemma slice_from_not_Fatal [simp]: "slice_from s lo \<noteq> Fatal m"
  by (simp add: slice_from_def)

lemma length_go_copy [simp]: "length (go_copy dst src) = length dst"
  by (simp add: go_copy_def Let_def)

lemma length_make_bytes [simp]: "length (make_bytes n) = n"
  by (simp add: make_bytes_def)

lemma go_copy_prefix:
  "n \<le> length dst \<Longrightarrow> n \<le> length src \<Longrightarrow> take n (go_copy dst src) = take n src"
  by (simp add: go_copy_def min_def)

lemma go_copy_whole: "length src \<le> length dst \<Longrightarrow> take (length src) (go_copy dst src) = src"
  using go_copy_prefix [of "length src" dst src] by simp

lemma go_copy_make:
  "length src \<le> n \<Longrightarrow> go_copy (make_bytes n) src = src @ make_bytes (n - length src)"
  by (simp add: go_copy_def make_bytes_def)

lemma go_copy_exact: "length src = length dst \<Longrightarrow> go_copy dst src = src"
  by (simp add: go_copy_def)

subsection \<open>Counting in lists\<close>

lemma length_filter_update:
  "i < length xs \<Longrightarrow> length (filter P (xs[i := x])) + (if P (xs ! i) then 1 else 0)
     = length (filter P xs) + (if P x then 1 else 0)"
proof (induction xs arbitrary: i)
  case (Cons y ys)
  then show ?case using Cons.IH [of "i - 1"] by (cases i) (auto split: if_splits)
qed simp

lemma sum_list_update_nat:
  "i < length xs \<Longrightarrow> sum_list (map (f :: _ \<Rightarrow> nat) (xs[i := x])) + f (xs ! i) = sum_list (map f xs) + f x"
proof (induction xs arbitrary: i)
  case (Cons y ys)
  then show ?case using Cons.IH [of "i - 1"] by (cases i) auto
qed simp

subsection \<open>Text\<close>

text \<open>\<open>strconv.Itoa\<close> and the verb \<open>%d\<close> on a number that is not negative.\<close>

fun show_nat :: "nat \<Rightarrow> string" where
  "show_nat n = (if n < 10 then [char_of (48 + n)] else show_nat (n div 10) @ [char_of (48 + n mod 10)])"

declare show_nat.simps [simp del]

definition show_int :: "int \<Rightarrow> string" where
  "show_int i = (if i < 0 then ''-'' @ show_nat (nat (- i)) else show_nat (nat i))"

text \<open>\<open>hex.EncodeToString\<close>\<close>

definition hex_digit :: "nat \<Rightarrow> char" where
  "hex_digit n = (if n < 10 then char_of (48 + n) else char_of (87 + n))"

definition hex_byte :: "byte \<Rightarrow> string" where
  "hex_byte b = [hex_digit (unat b div 16), hex_digit (unat b mod 16)]"

definition hex_encode :: "bytes \<Rightarrow> string" where
  "hex_encode bs = concat (map hex_byte bs)"

subsection \<open>Bounded retry loops\<close>

text \<open>The state a loop reaches when its first \<open>k\<close> rounds fail.\<close>

definition rounds :: "('s \<Rightarrow> 's \<times> 'r option) \<Rightarrow> ('s \<Rightarrow> 's) \<Rightarrow> nat \<Rightarrow> 's \<Rightarrow> 's" where
  "rounds attempt pause k = (\<lambda>s. pause (fst (attempt s))) ^^ k"

lemma rounds_0 [simp]: "rounds attempt pause 0 s = s"
  by (simp add: rounds_def)

lemma rounds_Suc: "rounds attempt pause (Suc k) s = rounds attempt pause k (pause (fst (attempt s)))"
  by (simp add: rounds_def funpow_Suc_right del: funpow.simps)

locale bounded_retry =
  fixes loop :: "nat \<Rightarrow> 's \<Rightarrow> 's \<times> 'r option"
    and attempt :: "'s \<Rightarrow> 's \<times> 'r option"
    and pause :: "'s \<Rightarrow> 's"
  assumes loop_0: "loop 0 s = (s, None)"
    and loop_Suc: "loop (Suc n) s =
      (case attempt s of (s', Some r) \<Rightarrow> (s', Some r) | (s', None) \<Rightarrow> loop n (pause s'))"
begin

lemma loop_first:
  assumes "attempt s = (s', Some r)" "0 < n"
  shows "loop n s = (s', Some r)"
  using assms by (cases n) (simp_all add: loop_Suc)

lemma loop_at:
  assumes "k < n" "attempt (rounds attempt pause k s) = (s', Some r)"
    and "\<And>j. j < k \<Longrightarrow> snd (attempt (rounds attempt pause j s)) = None"
  shows "loop n s = (s', Some r)"
  using assms
proof (induction k arbitrary: n s)
  case 0
  then show ?case by (simp add: loop_first)
next
  case (Suc k)
  obtain m where m: "n = Suc m" using Suc.prems(1) by (cases n) auto
  obtain t where t: "attempt s = (t, None)"
    using Suc.prems(3) [of 0] by (cases "attempt s") auto
  have "loop m (pause t) = (s', Some r)"
    using Suc.prems m t Suc.prems(3) [of "Suc j" for j]
    by (intro Suc.IH) (auto simp: rounds_Suc)
  then show ?case by (simp add: m loop_Suc t)
qed

lemma loop_exhausted:
  assumes "\<And>k. k < n \<Longrightarrow> snd (attempt (rounds attempt pause k s)) = None"
  shows "loop n s = (rounds attempt pause n s, None)"
  using assms
proof (induction n arbitrary: s)
  case 0
  then show ?case by (simp add: loop_0)
next
  case (Suc n)
  obtain t where t: "attempt s = (t, None)"
    using Suc.prems [of 0] by (cases "attempt s") auto
  have "loop n (pause t) = (rounds attempt pause n (pause t), None)"
    using Suc.prems [of "Suc j" for j] t by (intro Suc.IH) (auto simp: rounds_Suc)
  then show ?case by (simp add: loop_Suc t rounds_Suc)
qed

lemma loop_cases:
  obtains (found) k s' r where "k < n" "attempt (rounds attempt pause k s) = (s', Some r)"
      "\<And>j. j < k \<Longrightarrow> snd (attempt (rounds attempt pause j s)) = None"
      "loop n s = (s', Some r)"
  | (exhausted) "\<And>k. k < n \<Longrightarrow> snd (attempt (rounds attempt pause k s)) = None"
      "loop n s = (rounds attempt pause n s, None)"
proof (cases "\<exists>k<n. snd (attempt (rounds attempt pause k s)) \<noteq> None")
  case True
  let ?P = "\<lambda>k. k < n \<and> snd (attempt (rounds attempt pause k s)) \<noteq> None"
  define k where "k = (LEAST k. ?P k)"
  have k: "?P k" using True LeastI_ex [of ?P] by (auto simp: k_def)
  have least: "\<And>j. j < k \<Longrightarrow> snd (attempt (rounds attempt pause j s)) = None"
    using k not_less_Least [of _ ?P] unfolding k_def [symmetric] by force
  obtain s' r where "attempt (rounds attempt pause k s) = (s', Some r)"
    using k by (cases "attempt (rounds attempt pause k s)") auto
  with k least show ?thesis using found loop_at [of k n s s' r] by blast
next
  case False
  then show ?thesis using exhausted loop_exhausted [of n s] by auto
qed

text \<open>A loop that succeeded did so in a round that began in a state with the invariant.\<close>

lemma loop_found_inv:
  assumes "loop n s = (s', Some r)" "I s" "\<And>s t. I s \<Longrightarrow> attempt s = (t, None) \<Longrightarrow> I (pause t)"
  shows "\<exists>s0. I s0 \<and> attempt s0 = (s', Some r)"
  using assms(1,2)
proof (induction n arbitrary: s)
  case (Suc n)
  show ?case
  proof (cases "snd (attempt s)")
    case None
    then obtain t where t: "attempt s = (t, None)" by (cases "attempt s") auto
    with Suc.prems Suc.IH [of "pause t"] assms(3) [OF _ t] show ?thesis by (simp add: loop_Suc)
  next
    case (Some q)
    with Suc.prems show ?thesis by (cases "attempt s") (auto simp: loop_Suc)
  qed
qed (simp add: loop_0)

text \<open>The loop fails exactly when every one of its rounds fails.\<close>

lemma loop_None_iff:
  "snd (loop n s) = None \<longleftrightarrow> (\<forall>k<n. snd (attempt (rounds attempt pause k s)) = None)"
  by (rule loop_cases [of n s]) auto

text \<open>The loop succeeds with the result of its first round that succeeds.\<close>

lemma loop_Some_iff:
  "loop n s = (s', Some r) \<longleftrightarrow>
     (\<exists>k<n. attempt (rounds attempt pause k s) = (s', Some r) \<and>
        (\<forall>j<k. snd (attempt (rounds attempt pause j s)) = None))"
proof
  assume "loop n s = (s', Some r)"
  then show "\<exists>k<n. attempt (rounds attempt pause k s) = (s', Some r) \<and>
      (\<forall>j<k. snd (attempt (rounds attempt pause j s)) = None)"
    by (cases rule: loop_cases [of n s]) auto
qed (auto intro: loop_at)

lemma loop_invariant:
  assumes "P s" and "\<And>s. P s \<Longrightarrow> P (fst (attempt s))" and "\<And>s. P s \<Longrightarrow> P (pause s)"
  shows "P (fst (loop n s))"
  using assms(1)
proof (induction n arbitrary: s)
  case 0
  then show ?case by (simp add: loop_0)
next
  case (Suc n)
  show ?case
    using assms(2) [OF Suc.prems] Suc.IH [OF assms(3), of "fst (attempt s)"]
    by (cases "attempt s") (auto simp: loop_Suc split: option.splits)
qed

text \<open>A quantity that one round raises by at most \<open>c\<close> is raised by at most \<open>n * c\<close>.\<close>

lemma loop_cost:
  assumes "\<And>s. m (fst (attempt s)) \<le> m s + (a::nat)" and "\<And>s. m (pause s) \<le> m s + b"
  shows "m (fst (loop n s)) \<le> m s + n * (a + b)"
proof (induction n arbitrary: s)
  case 0
  then show ?case by (simp add: loop_0)
next
  case (Suc n)
  obtain t r where t: "attempt s = (t, r)" by fastforce
  have 1: "m t \<le> m s + a" using assms(1) [of s] t by simp
  have 2: "m (pause t) \<le> m t + b" by (rule assms(2))
  show ?case
    using 1 2 Suc.IH [of "pause t"] by (cases r) (auto simp: loop_Suc t)
qed

end

subsection \<open>Encoders and decoders\<close>

text \<open>A Go pair \<open>(T, error)\<close> whose value is defined even when the error is set.\<close>

fun result_of :: "'a \<times> string option \<Rightarrow> 'a result" where
  "result_of (x, None) = Inr x"
| "result_of (x, Some e) = Inl e"

lemma result_of_Inr_iff: "result_of p = Inr x \<longleftrightarrow> p = (x, None)"
  by (cases p; cases "snd p") auto

text \<open>Applying a fallible function to each element, up to the first error.\<close>

fun mapR :: "('a \<Rightarrow> 'b result) \<Rightarrow> 'a list \<Rightarrow> 'b list result" where
  "mapR f [] = Inr []"
| "mapR f (x # xs) = rbind (f x) (\<lambda>y. rbind (mapR f xs) (\<lambda>ys. Inr (y # ys)))"

lemma mapR_length: "mapR f xs = Inr ys \<Longrightarrow> length ys = length xs"
  by (induction xs arbitrary: ys) (auto simp: go_simps)

lemma mapR_Inr: "(\<And>x. x \<in> set xs \<Longrightarrow> f x = Inr (g x)) \<Longrightarrow> mapR f xs = Inr (map g xs)"
  by (induction xs) auto

text \<open>
  The contract of a pair of functions that write a value and read it back: what was written
  is read as the value it was written from. An exact codec also writes whatever it can read.
\<close>

locale codec =
  fixes enc :: "'a \<Rightarrow> 'b result"
    and dec :: "'b \<Rightarrow> 'a result"
  assumes dec_enc: "enc x = Inr y \<Longrightarrow> dec y = Inr x"
begin

lemma enc_inj: "enc x = Inr y \<Longrightarrow> enc x' = Inr y \<Longrightarrow> x = x'"
  using dec_enc [of x y] dec_enc [of x' y] by simp

lemma dec_enc_list: "mapR enc xs = Inr ys \<Longrightarrow> mapR dec ys = Inr xs"
  by (induction xs arbitrary: ys) (auto simp: go_simps dec_enc)

end

locale exact_codec = codec +
  assumes enc_dec: "dec y = Inr x \<Longrightarrow> enc x = Inr y"
begin

lemma dec_iff_enc: "dec y = Inr x \<longleftrightarrow> enc x = Inr y"
  using dec_enc enc_dec by blast

lemma dec_inj: "dec y = Inr x \<Longrightarrow> dec y' = Inr x \<Longrightarrow> y = y'"
  using enc_dec [of y x] enc_dec [of y' x] by simp

end

end
