(* ===== verification/Chain_IO.thy ===== *)
theory Chain_IO
  imports Go_Base
begin

text \<open>
  Talking to the chain (\<open>core/chainio/avs_writer.go\<close>, \<open>core/utils\<close>): sending a task,
  sending the aggregated response (a dry run that estimates the gas, then the transaction),
  waiting for a receipt with a bounded number of polls, and the conversions of curve points
  and quorum numbers to the types of the contract bindings.

  The Ethereum client and the generated bindings' transport are an argument, a record of
  functions over an arbitrary state \<open>'w\<close> of the world. \<open>Sleep\<close> is \<open>time.Sleep\<close>:
  whatever happens to the world meanwhile.
\<close>

subsection \<open>Transactions\<close>

text \<open>The fields of \<open>bind.TransactOpts\<close> that the code writes.\<close>

record tx_opts =
  NoSend :: bool
  GasLimit :: u64

record eth_tx =
  Gas :: u64
  Hash :: bytes32

record ('w, 'n, 'r) eth_backend =
  RespondToTask :: "tx_opts \<Rightarrow> bytes32 \<Rightarrow> 'n \<Rightarrow> 'w \<Rightarrow> 'w \<times> eth_tx result"
  CreateNewTask :: "tx_opts \<Rightarrow> bytes32 \<Rightarrow> string \<Rightarrow> 'w \<Rightarrow> 'w \<times> eth_tx result"
  TransactionReceipt :: "bytes32 \<Rightarrow> 'w \<Rightarrow> 'w \<times> 'r result"
  Sleep :: "nat \<Rightarrow> 'w \<Rightarrow> 'w"
  HashString :: "bytes32 \<Rightarrow> string"

subsection \<open>Waiting for a receipt\<close>

definition maxRetries :: nat where "maxRetries = 25"
definition sleepTime :: nat where "sleepTime = 5 * second"

fun receipt_loop :: "('w, 'n, 'r) eth_backend \<Rightarrow> bytes32 \<Rightarrow> nat \<Rightarrow> 'w \<Rightarrow> 'w \<times> 'r option" where
  "receipt_loop client txHash 0 w = (w, None)"
| "receipt_loop client txHash (Suc n) w =
     (case TransactionReceipt client txHash w of
        (w', Inl err) \<Rightarrow> receipt_loop client txHash n (Sleep client sleepTime w')
      | (w', Inr receipt) \<Rightarrow> (w', Some receipt))"

definition WaitForTransactionReceipt ::
  "('w, 'n, 'r) eth_backend \<Rightarrow> bytes32 \<Rightarrow> 'w \<Rightarrow> 'w \<times> 'r result" where
  "WaitForTransactionReceipt client txHash w =
     (case receipt_loop client txHash maxRetries w of
        (w', Some receipt) \<Rightarrow> (w', Inr receipt)
      | (w', None) \<Rightarrow>
          (w', Inl (''transaction receipt not found for txHash: '' @ HashString client txHash)))"

text \<open>One poll, as the retry interface sees it.\<close>

definition receipt_attempt :: "('w, 'n, 'r) eth_backend \<Rightarrow> bytes32 \<Rightarrow> 'w \<Rightarrow> 'w \<times> 'r option" where
  "receipt_attempt client txHash w =
     (case TransactionReceipt client txHash w of
        (w', Inl err) \<Rightarrow> (w', None) | (w', Inr receipt) \<Rightarrow> (w', Some receipt))"

interpretation receipt: bounded_retry
  "receipt_loop client txHash" "receipt_attempt client txHash" "Sleep client sleepTime"
  for client txHash
  by unfold_locales (auto simp: receipt_attempt_def split: prod.splits sum.splits)

lemma WaitForTransactionReceipt_Inr_iff:
  "WaitForTransactionReceipt client h w = (w', Inr rc) \<longleftrightarrow> receipt_loop client h maxRetries w = (w', Some rc)"
  by (auto simp: WaitForTransactionReceipt_def split: prod.splits option.splits)

subsection \<open>Sending\<close>

definition SendTask ::
  "('w, 'n, 'r) eth_backend \<Rightarrow> tx_opts \<Rightarrow> bytes32 \<Rightarrow> string \<Rightarrow> 'w \<Rightarrow> 'w \<times> string option" where
  "SendTask client txOpts batchMerkleRoot batchDataPointer w =
     (case CreateNewTask client txOpts batchMerkleRoot batchDataPointer w of
        (w, Inl err) \<Rightarrow> (w, Some err)
      | (w, Inr tx) \<Rightarrow>
          (case WaitForTransactionReceipt client (Hash tx) w of
             (w, Inl err) \<Rightarrow> (w, Some err)
           | (w, Inr _) \<Rightarrow> (w, None)))"

text \<open>\<open>tx.Gas() * 110 / 100\<close>, in \<open>uint64\<close>.\<close>

definition raised_gas :: "u64 \<Rightarrow> u64" where
  "raised_gas g = g * 110 div 100"

definition SendAggregatedResponse ::
  "('w, 'n, 'r) eth_backend \<Rightarrow> tx_opts \<Rightarrow> bytes32 \<Rightarrow> 'n \<Rightarrow> 'w \<Rightarrow> 'w \<times> bytes32 result" where
  "SendAggregatedResponse client signerOpts batchMerkleRoot sig w =
     (let txOpts = signerOpts\<lparr>NoSend := True\<rparr> in
      case RespondToTask client txOpts batchMerkleRoot sig w of
        (w, Inl err) \<Rightarrow> (w, Inl err)
      | (w, Inr tx) \<Rightarrow>
          (let txOpts = txOpts\<lparr>NoSend := False, GasLimit := raised_gas (Gas tx)\<rparr> in
           case RespondToTask client txOpts batchMerkleRoot sig w of
             (w, Inl err) \<Rightarrow> (w, Inl err)
           | (w, Inr tx) \<Rightarrow> (w, Inr (Hash tx))))"

lemma unat_raised_gas:
  assumes "unat g * 110 < 2 ^ 64"
  shows "unat (raised_gas g) = unat g + unat g div 10"
proof -
  have "unat (g * 110) = unat g * 110"
    using assms by (simp add: unat_word_ariths)
  then have "unat (raised_gas g) = unat g * 110 div 100"
    by (simp add: raised_gas_def unat_div_distrib)
  then show ?thesis by simp
qed

text \<open>The outcomes of \<open>SendAggregatedResponse\<close>, by the calls it makes.\<close>

lemma SendAggregatedResponse_Inr_iff:
  "SendAggregatedResponse client opts r sig w = (w', Inr h) \<longleftrightarrow>
     (\<exists>w1 tx1 tx2.
        RespondToTask client (opts\<lparr>NoSend := True\<rparr>) r sig w = (w1, Inr tx1) \<and>
        RespondToTask client (opts\<lparr>NoSend := False, GasLimit := raised_gas (Gas tx1)\<rparr>) r sig w1
          = (w', Inr tx2) \<and> h = Hash tx2)"
  by (auto simp: SendAggregatedResponse_def Let_def split: prod.splits sum.splits)

subsection \<open>Conversions\<close>

text \<open>Points of the library's types: coordinates in the base field, or in its quadratic extension.\<close>

record 'f G1Point =
  g1_X :: 'f
  g1_Y :: 'f

record 'f E2 =
  A0 :: 'f
  A1 :: 'f

record 'f G2Point =
  g2_X :: "'f E2"
  g2_Y :: "'f E2"

text \<open>The bindings' types (\<open>contracts/bindings\<close>): a \<open>[2]*big.Int\<close> is a pair.\<close>

record BN254G1Point =
  bn1_X :: int
  bn1_Y :: int

record BN254G2Point =
  bn2_X :: "int \<times> int"
  bn2_Y :: "int \<times> int"

definition ConvertToBN254G1Point :: "('f \<Rightarrow> int) \<Rightarrow> 'f G1Point \<Rightarrow> BN254G1Point" where
  "ConvertToBN254G1Point BigInt input = \<lparr>bn1_X = BigInt (g1_X input), bn1_Y = BigInt (g1_Y input)\<rparr>"

definition ConvertToBN254G2Point :: "('f \<Rightarrow> int) \<Rightarrow> 'f G2Point \<Rightarrow> BN254G2Point" where
  "ConvertToBN254G2Point BigInt input =
     \<lparr>bn2_X = (BigInt (A1 (g2_X input)), BigInt (A0 (g2_X input))),
      bn2_Y = (BigInt (A1 (g2_Y input)), BigInt (A0 (g2_Y input)))\<rparr>"

text \<open>\<open>eigentypes.QuorumNum\<close> and \<open>QuorumThresholdPercentage\<close> are \<open>uint8\<close>.\<close>

fun fill :: "(byte \<Rightarrow> u8) \<Rightarrow> nat \<Rightarrow> bytes \<Rightarrow> u8 list \<Rightarrow> u8 list" where
  "fill f i [] out = out"
| "fill f i (b # bs) out = fill f (Suc i) bs (out[i := f b])"

definition BytesToQuorumNumbers :: "bytes \<Rightarrow> u8 list" where
  "BytesToQuorumNumbers bs = fill ucast 0 bs (replicate (length bs) 0)"

definition BytesToQuorumThresholdPercentages :: "bytes \<Rightarrow> u8 list" where
  "BytesToQuorumThresholdPercentages bs = fill ucast 0 bs (replicate (length bs) 0)"

lemma fill_eq: "length out = i + length bs \<Longrightarrow> fill f i bs out = take i out @ map f bs"
proof (induction bs arbitrary: i out)
  case (Cons b bs)
  then have "fill f (Suc i) bs (out[i := f b]) = take (Suc i) (out[i := f b]) @ map f bs" by simp
  then show ?case using Cons.prems by (simp add: take_Suc_conv_app_nth)
qed simp

lemma BytesToQuorum_eq:
  "BytesToQuorumNumbers bs = bs" "BytesToQuorumThresholdPercentages bs = bs"
  by (simp_all add: BytesToQuorumNumbers_def BytesToQuorumThresholdPercentages_def fill_eq map_idI)

lemma ConvertG1_inj:
  "inj BigInt \<Longrightarrow> ConvertToBN254G1Point BigInt p = ConvertToBN254G1Point BigInt q \<Longrightarrow> p = q"
  by (cases p; cases q) (auto simp: ConvertToBN254G1Point_def dest: injD)

lemma ConvertG2_inj:
  "inj BigInt \<Longrightarrow> ConvertToBN254G2Point BigInt p = ConvertToBN254G2Point BigInt q \<Longrightarrow> p = q"
  by (cases p; cases q) (auto simp: ConvertToBN254G2Point_def dest: injD intro!: E2.equality)

subsection \<open>Properties\<close>

text \<open>A client for the witnesses. Its world counts the transactions that were sent; the receipt
  is there once \<open>delay\<close> polls have failed.\<close>

definition counting_client :: "nat \<Rightarrow> (nat \<times> nat, 'n, nat) eth_backend" where
  "counting_client delay = \<lparr>
     RespondToTask = (\<lambda>opts r sig (sent, polls).
       ((if NoSend opts then sent else Suc sent, polls), Inr \<lparr>Gas = 200, Hash = [1]\<rparr>)),
     CreateNewTask = (\<lambda>opts r p (sent, polls). ((Suc sent, polls), Inr \<lparr>Gas = 200, Hash = [1]\<rparr>)),
     TransactionReceipt = (\<lambda>h (sent, polls).
       ((sent, Suc polls), if polls < delay then Inl ''not found'' else Inr polls)),
     Sleep = (\<lambda>t w. w), HashString = hex_encode\<rparr>"

text \<open>Waiting for a receipt ends: it polls at most 25 times and answers with the first
  receipt it gets, or with the error when every one of the 25 polls failed.\<close>

theorem receipt_wait_result:
  "(WaitForTransactionReceipt client h w = (w', Inr rc) \<longleftrightarrow>
     (\<exists>k<25. TransactionReceipt client h
          (rounds (receipt_attempt client h) (Sleep client (5 * second)) k w) = (w', Inr rc) \<and>
        (\<forall>j<k. \<exists>e. snd (TransactionReceipt client h
          (rounds (receipt_attempt client h) (Sleep client (5 * second)) j w)) = Inl e))) \<and>
   ((\<exists>e. snd (WaitForTransactionReceipt client h w) = Inl e) \<longleftrightarrow>
     (\<forall>k<25. \<exists>e. snd (TransactionReceipt client h
          (rounds (receipt_attempt client h) (Sleep client (5 * second)) k w)) = Inl e))"
proof -
  have none: "snd (receipt_attempt client h v) = None \<longleftrightarrow>
      (\<exists>e. snd (TransactionReceipt client h v) = Inl e)" for v
    by (auto simp: receipt_attempt_def split: prod.splits sum.splits)
  have some: "receipt_attempt client h v = (w', Some rc) \<longleftrightarrow>
      TransactionReceipt client h v = (w', Inr rc)" for v
    by (auto simp: receipt_attempt_def split: prod.splits sum.splits)
  have "(\<exists>e. snd (WaitForTransactionReceipt client h w) = Inl e) \<longleftrightarrow>
      snd (receipt_loop client h maxRetries w) = None"
    by (auto simp: WaitForTransactionReceipt_def split: prod.splits option.splits)
  then show ?thesis
    unfolding WaitForTransactionReceipt_Inr_iff receipt.loop_Some_iff receipt.loop_None_iff
      none some maxRetries_def sleepTime_def
    by simp
qed

theorem receipt_wait_result_witness:
  "WaitForTransactionReceipt (counting_client 2 :: (nat \<times> nat, unit, nat) eth_backend) [1] (0, 0)
     = ((0, 3), Inr 2)"
proof -
  let ?c = "counting_client 2 :: (nat \<times> nat, unit, nat) eth_backend"
  have r: "rounds (receipt_attempt ?c [1]) (Sleep ?c (5 * second)) k (0, n) = (0, n + k)"
    if "n + k \<le> 2" for n k
    using that by (induction k arbitrary: n) (simp_all add: rounds_Suc receipt_attempt_def counting_client_def)
  have "\<exists>k<25. TransactionReceipt ?c [1] (rounds (receipt_attempt ?c [1]) (Sleep ?c (5 * second)) k (0, 0))
        = ((0, 3), Inr 2) \<and>
      (\<forall>j<k. \<exists>e. snd (TransactionReceipt ?c [1]
        (rounds (receipt_attempt ?c [1]) (Sleep ?c (5 * second)) j (0, 0))) = Inl e)"
    by (rule exI [of _ 2]) (simp add: r, simp add: counting_client_def)
  then show ?thesis
    using receipt_wait_result [of ?c "[1]" "(0, 0)" "(0, 3)" 2] by blast
qed

end
