(* ===== verification/Agg_Tasks.thy ===== *)
theory Agg_Tasks
  imports Chain_IO
begin

text \<open>
  The aggregator's task caches (\<open>aggregator/internal/pkg/aggregator.go\<close>): the state of
  \<open>Aggregator\<close> that its handlers change, \<open>AddNewTask\<close>, and the specification it
  refines, a list of distinct roots in which a task's index is its position.
  The locale \<open>task_index\<close> is the interface the RPC server and the response handler rely on.

  The state of the BLS aggregation service (a library) is a type parameter \<open>'b\<close>, and its
  operation \<open>InitializeNewTask\<close> an argument. The record's extension stands for the rest of
  the world that other goroutines change while a handler sleeps.
\<close>

subsection \<open>State\<close>

definition QUORUM_NUMBER :: u8 where "QUORUM_NUMBER = 0"
definition QUORUM_THRESHOLD :: u8 where "QUORUM_THRESHOLD = 67"


record 'b aggregator =
  batchesRootByIdx :: "u32 \<rightharpoonup> bytes32"
  batchesIdxByRoot :: "bytes32 \<rightharpoonup> u32"
  nextBatchIndex :: u32
  taskMutex :: bool
  walletMutex :: bool
  blsAggregationService :: 'b
  numAggregatedResponses :: nat

type_synonym 'b init_task = "'b \<Rightarrow> u32 \<Rightarrow> u32 \<Rightarrow> u8 list \<Rightarrow> u8 list \<Rightarrow> nat \<Rightarrow> 'b \<times> string option"

text \<open>The maps, the index and the mutexes of a new \<open>Aggregator\<close>.\<close>

definition new_aggregator :: "'b \<Rightarrow> 'b aggregator" where
  "new_aggregator b = \<lparr>batchesRootByIdx = Map.empty, batchesIdxByRoot = Map.empty,
     nextBatchIndex = 0, taskMutex = False, walletMutex = False,
     blsAggregationService = b, numAggregatedResponses = 0\<rparr>"

text \<open>
  A handler that calls \<open>Lock\<close> runs on when the mutex is free. Unlocking a mutex that is
  not locked ends a Go program.
\<close>

definition lock_tasks :: "('b, 'm) aggregator_scheme \<Rightarrow> ('b, 'm) aggregator_scheme" where
  "lock_tasks a = a\<lparr>taskMutex := True\<rparr>"

definition unlock_tasks :: "('b, 'm) aggregator_scheme \<Rightarrow> ('b, 'm) aggregator_scheme go" where
  "unlock_tasks a =
     (if taskMutex a then Ret (a\<lparr>taskMutex := False\<rparr>) else Fatal ''sync: unlock of unlocked mutex'')"

definition lock_wallet :: "('b, 'm) aggregator_scheme \<Rightarrow> ('b, 'm) aggregator_scheme" where
  "lock_wallet a = a\<lparr>walletMutex := True\<rparr>"

definition unlock_wallet :: "('b, 'm) aggregator_scheme \<Rightarrow> ('b, 'm) aggregator_scheme go" where
  "unlock_wallet a =
     (if walletMutex a then Ret (a\<lparr>walletMutex := False\<rparr>) else Fatal ''sync: unlock of unlocked mutex'')"

subsection \<open>Adding a task\<close>

definition AddNewTask ::
  "'b init_task \<Rightarrow> bytes32 \<Rightarrow> u32 \<Rightarrow> ('b, 'm) aggregator_scheme \<Rightarrow> ('b, 'm) aggregator_scheme go" where
  "AddNewTask initTask batchMerkleRoot taskCreatedBlock agg =
     (let agg = lock_tasks agg; batchIndex = nextBatchIndex agg in
      if batchesIdxByRoot agg batchMerkleRoot \<noteq> None then unlock_tasks agg
      else if batchesRootByIdx agg batchIndex \<noteq> None then unlock_tasks agg
      else
        let agg = agg\<lparr>batchesIdxByRoot := (batchesIdxByRoot agg)(batchMerkleRoot \<mapsto> batchIndex),
                      batchesRootByIdx := (batchesRootByIdx agg)(batchIndex \<mapsto> batchMerkleRoot),
                      nextBatchIndex := nextBatchIndex agg + 1\<rparr>
        in case initTask (blsAggregationService agg) batchIndex taskCreatedBlock
                  [QUORUM_NUMBER] [QUORUM_THRESHOLD] (100 * second) of
             (b, Some e) \<Rightarrow>
               Fatal (''BLS aggregation service error when initializing new task: '' @ e)
           | (b, None) \<Rightarrow> unlock_tasks (agg\<lparr>blsAggregationService := b\<rparr>))"

text \<open>The state after the call, for a process that is still running.\<close>

definition task_added ::
  "'b init_task \<Rightarrow> bytes32 \<Rightarrow> u32 \<Rightarrow> ('b, 'm) aggregator_scheme \<Rightarrow> ('b, 'm) aggregator_scheme" where
  "task_added initTask root blk a = (case AddNewTask initTask root blk a of Ret a' \<Rightarrow> a' | _ \<Rightarrow> a)"

subsection \<open>What the caches mean\<close>

text \<open>
  The specification of the caches: the roots in the order they arrived, without repetition,
  at most one for each index a 32-bit counter can hold.
\<close>

definition spec_add :: "bytes32 \<Rightarrow> bytes32 list \<Rightarrow> bytes32 list" where
  "spec_add r rs = (if r \<in> set rs \<or> 2 ^ 32 \<le> length rs then rs else rs @ [r])"

definition cache_abs :: "bytes32 list \<Rightarrow> ('b, 'm) aggregator_scheme \<Rightarrow> bool" where
  "cache_abs rs a \<longleftrightarrow>
     distinct rs \<and> length rs \<le> 2 ^ 32 \<and> nextBatchIndex a = of_nat (length rs) \<and>
     (\<forall>i. batchesRootByIdx a i = (if unat i < length rs then Some (rs ! unat i) else None)) \<and>
     (\<forall>r i. batchesIdxByRoot a r = Some i \<longleftrightarrow> batchesRootByIdx a i = Some r)"

definition cache_inv :: "('b, 'm) aggregator_scheme \<Rightarrow> bool" where
  "cache_inv a \<longleftrightarrow> (\<exists>rs. cache_abs rs a)"

lemma cache_abs_new: "cache_abs [] (new_aggregator b)"
  by (simp add: cache_abs_def new_aggregator_def)

lemma cache_inv_new [simp]: "cache_inv (new_aggregator b)"
  unfolding cache_inv_def by (rule exI [of _ "[]"]) (rule cache_abs_new)

lemma cache_abs_member:
  assumes "cache_abs rs a"
  shows "r \<in> set rs \<longleftrightarrow> batchesIdxByRoot a r \<noteq> None"
proof -
  have len: "length rs \<le> 2 ^ 32" using assms by (simp add: cache_abs_def)
  have byIdx: "\<And>i. batchesRootByIdx a i = (if unat i < length rs then Some (rs ! unat i) else None)"
    using assms by (simp add: cache_abs_def)
  have inv: "\<And>r i. batchesIdxByRoot a r = Some i \<longleftrightarrow> batchesRootByIdx a i = Some r"
    using assms by (simp add: cache_abs_def)
  have "batchesIdxByRoot a r \<noteq> None \<longleftrightarrow> (\<exists>i :: u32. unat i < length rs \<and> rs ! unat i = r)"
    by (auto simp: inv byIdx split: if_splits)
  also have "\<dots> \<longleftrightarrow> (\<exists>k < length rs. rs ! k = r)"
  proof
    assume "\<exists>k < length rs. rs ! k = r"
    then obtain k where k: "k < length rs" "rs ! k = r" by blast
    then have "unat (of_nat k :: u32) = k"
      using len by (simp add: unat_of_nat)
    with k show "\<exists>i. unat (i :: u32) < length rs \<and> rs ! unat i = r" by metis
  qed auto
  finally show ?thesis
    by (auto simp: in_set_conv_nth)
qed

lemma cache_abs_full:
  assumes "cache_abs rs a"
  shows "batchesRootByIdx a (nextBatchIndex a) \<noteq> None \<longleftrightarrow> length rs = 2 ^ 32"
proof -
  have le: "length rs \<le> 2 ^ 32" using assms by (simp add: cache_abs_def)
  have "batchesRootByIdx a (nextBatchIndex a) \<noteq> None \<longleftrightarrow> length rs mod 2 ^ 32 < length rs"
    using assms by (auto simp: cache_abs_def unat_of_nat)
  also have "\<dots> \<longleftrightarrow> length rs = 2 ^ 32"
  proof (cases "length rs < 2 ^ 32")
    case False
    then show ?thesis using le by simp
  qed simp
  finally show ?thesis .
qed

lemma cache_abs_frame [simp]:
  "cache_abs rs (a\<lparr>taskMutex := m\<rparr>) = cache_abs rs a"
  "cache_abs rs (a\<lparr>walletMutex := m\<rparr>) = cache_abs rs a"
  "cache_abs rs (a\<lparr>blsAggregationService := b\<rparr>) = cache_abs rs a"
  "cache_abs rs (a\<lparr>numAggregatedResponses := n\<rparr>) = cache_abs rs a"
  by (simp_all add: cache_abs_def)

lemma cache_inv_frame [simp]:
  "cache_inv (a\<lparr>taskMutex := m\<rparr>) = cache_inv a"
  "cache_inv (a\<lparr>walletMutex := m\<rparr>) = cache_inv a"
  "cache_inv (a\<lparr>blsAggregationService := b\<rparr>) = cache_inv a"
  "cache_inv (a\<lparr>numAggregatedResponses := n\<rparr>) = cache_inv a"
  by (simp_all add: cache_inv_def)

text \<open>Entering a fresh root at the next index.\<close>

lemma cache_abs_insert:
  assumes abs: "cache_abs rs a" and new: "batchesIdxByRoot a r = None"
    and free: "batchesRootByIdx a (nextBatchIndex a) = None"
  shows "cache_abs (rs @ [r])
    (a\<lparr>batchesIdxByRoot := (batchesIdxByRoot a)(r \<mapsto> nextBatchIndex a),
       batchesRootByIdx := (batchesRootByIdx a)(nextBatchIndex a \<mapsto> r),
       nextBatchIndex := nextBatchIndex a + 1\<rparr>)"
proof -
  have rs: "distinct rs" "length rs \<le> 2 ^ 32" and nx: "nextBatchIndex a = of_nat (length rs)"
    and byIdx: "\<And>i. batchesRootByIdx a i = (if unat i < length rs then Some (rs ! unat i) else None)"
    and inv: "\<And>r i. batchesIdxByRoot a r = Some i \<longleftrightarrow> batchesRootByIdx a i = Some r"
    using abs by (auto simp: cache_abs_def)
  have "length rs \<noteq> 2 ^ 32" using cache_abs_full [OF abs] free by simp
  then have less: "length rs < 2 ^ 32" using rs by simp
  have un: "unat (nextBatchIndex a) = length rs" using less by (simp add: nx unat_of_nat)
  have eq: "i = nextBatchIndex a \<longleftrightarrow> unat i = length rs" for i
    using un by (metis word_unat_eq_iff)
  have notin: "r \<notin> set rs" using cache_abs_member [OF abs, of r] new by simp
  have noroot: "batchesRootByIdx a i \<noteq> Some r" for i using inv [of r i] new by simp
  show ?thesis
    unfolding cache_abs_def
    using rs less notin
  proof (intro conjI allI, goal_cases)
    case 4
    show ?case
      by (auto simp: byIdx eq nth_append less_Suc_eq)
  next
    case (5 r' i)
    show ?case
      using inv [of r' i] noroot [of i] inv [of r' "nextBatchIndex a"] free by auto
  qed (simp_all add: nx)
qed

subsection \<open>What one call does\<close>

text \<open>The four ways through \<open>AddNewTask\<close>.\<close>

lemma AddNewTask_known:
  "batchesIdxByRoot a r \<noteq> None \<Longrightarrow> AddNewTask init r blk a = Ret (a\<lparr>taskMutex := False\<rparr>)"
  by (auto simp: AddNewTask_def Let_def lock_tasks_def unlock_tasks_def)

lemma AddNewTask_full:
  "batchesIdxByRoot a r = None \<Longrightarrow> batchesRootByIdx a (nextBatchIndex a) \<noteq> None \<Longrightarrow>
     AddNewTask init r blk a = Ret (a\<lparr>taskMutex := False\<rparr>)"
  by (auto simp: AddNewTask_def Let_def lock_tasks_def unlock_tasks_def)

lemma AddNewTask_service_error:
  "batchesIdxByRoot a r = None \<Longrightarrow> batchesRootByIdx a (nextBatchIndex a) = None \<Longrightarrow>
     init (blsAggregationService a) (nextBatchIndex a) blk [QUORUM_NUMBER] [QUORUM_THRESHOLD]
       (100 * second) = (b, Some e) \<Longrightarrow>
     AddNewTask init r blk a =
       Fatal (''BLS aggregation service error when initializing new task: '' @ e)"
  by (simp add: AddNewTask_def Let_def lock_tasks_def)

lemma AddNewTask_fresh:
  "batchesIdxByRoot a r = None \<Longrightarrow> batchesRootByIdx a (nextBatchIndex a) = None \<Longrightarrow>
     init (blsAggregationService a) (nextBatchIndex a) blk [QUORUM_NUMBER] [QUORUM_THRESHOLD]
       (100 * second) = (b, None) \<Longrightarrow>
     AddNewTask init r blk a = Ret (a\<lparr>batchesIdxByRoot := (batchesIdxByRoot a)(r \<mapsto> nextBatchIndex a),
       batchesRootByIdx := (batchesRootByIdx a)(nextBatchIndex a \<mapsto> r),
       nextBatchIndex := nextBatchIndex a + 1, taskMutex := False, blsAggregationService := b\<rparr>)"
  by (simp add: AddNewTask_def Let_def lock_tasks_def unlock_tasks_def)

lemmas AddNewTask_branches =
  AddNewTask_known AddNewTask_full AddNewTask_service_error AddNewTask_fresh

text \<open>Every call that returns either leaves the caches alone or enters a fresh root.\<close>

lemma AddNewTask_cases [consumes 1, case_names unchanged entered]:
  assumes "AddNewTask init r blk a = Ret a'"
  obtains (unchanged) "batchesIdxByRoot a r \<noteq> None \<or> batchesRootByIdx a (nextBatchIndex a) \<noteq> None"
      "a' = a\<lparr>taskMutex := False\<rparr>"
  | (entered) b where "batchesIdxByRoot a r = None" "batchesRootByIdx a (nextBatchIndex a) = None"
      "a' = a\<lparr>batchesIdxByRoot := (batchesIdxByRoot a)(r \<mapsto> nextBatchIndex a),
         batchesRootByIdx := (batchesRootByIdx a)(nextBatchIndex a \<mapsto> r),
         nextBatchIndex := nextBatchIndex a + 1, taskMutex := False, blsAggregationService := b\<rparr>"
proof (cases "batchesIdxByRoot a r = None \<and> batchesRootByIdx a (nextBatchIndex a) = None")
  case False
  then show ?thesis
    using assms unchanged AddNewTask_known [of a r init blk] AddNewTask_full [of a r init blk] by auto
next
  case True
  obtain b e where "init (blsAggregationService a) (nextBatchIndex a) blk [QUORUM_NUMBER]
      [QUORUM_THRESHOLD] (100 * second) = (b, e)" by fastforce
  then show ?thesis
    using assms True entered [of b] AddNewTask_fresh [of a r init blk b]
      AddNewTask_service_error [of a r init blk b]
    by (cases e) auto
qed

lemma AddNewTask_not_panic: "AddNewTask init r blk a \<noteq> Panic"
  by (auto simp: AddNewTask_def Let_def lock_tasks_def unlock_tasks_def split: prod.splits option.splits)

lemma AddNewTask_unlocks: "AddNewTask init r blk a = Ret a' \<Longrightarrow> \<not> taskMutex a'"
  by (cases rule: AddNewTask_cases) auto

lemma AddNewTask_refines:
  assumes "cache_abs rs a" and "AddNewTask init r blk a = Ret a'"
  shows "cache_abs (spec_add r rs) a'"
  using assms(2)
proof (cases rule: AddNewTask_cases)
  case unchanged
  then have "spec_add r rs = rs"
    using cache_abs_member [OF assms(1), of r] cache_abs_full [OF assms(1)] by (auto simp: spec_add_def)
  then show ?thesis using unchanged assms(1) by simp
next
  case (entered b)
  then have "spec_add r rs = rs @ [r]"
    using cache_abs_member [OF assms(1), of r] cache_abs_full [OF assms(1)] assms(1)
    by (auto simp: spec_add_def cache_abs_def)
  moreover have "cache_abs (rs @ [r]) a'"
    unfolding entered(3) cache_abs_frame by (rule cache_abs_insert [OF assms(1) entered(1,2)])
  ultimately show ?thesis by simp
qed

lemma AddNewTask_inv: "cache_inv a \<Longrightarrow> AddNewTask init r blk a = Ret a' \<Longrightarrow> cache_inv a'"
  using AddNewTask_refines unfolding cache_inv_def by blast

lemma AddNewTask_keeps:
  "AddNewTask init r blk a = Ret a' \<Longrightarrow> batchesIdxByRoot a r' = Some i \<Longrightarrow> batchesIdxByRoot a' r' = Some i"
  by (cases rule: AddNewTask_cases) auto

lemma AddNewTask_only:
  "AddNewTask init r blk a = Ret a' \<Longrightarrow> r' \<noteq> r \<Longrightarrow> batchesIdxByRoot a' r' = batchesIdxByRoot a r'"
  by (cases rule: AddNewTask_cases) auto

subsection \<open>The interface of the caches\<close>

text \<open>
  What the RPC server and the response handler rely on: the two directions agree, and adding
  tasks never changes an index that was handed out.
\<close>

locale task_index =
  fixes idx_of :: "'c \<Rightarrow> 'r \<Rightarrow> 'i option"
    and root_of :: "'c \<Rightarrow> 'i \<Rightarrow> 'r option"
    and add :: "'x \<Rightarrow> 'r \<Rightarrow> 'c \<Rightarrow> 'c"
    and invar :: "'c \<Rightarrow> bool"
  assumes agree: "invar c \<Longrightarrow> idx_of c r = Some i \<longleftrightarrow> root_of c i = Some r"
    and add_invar: "invar c \<Longrightarrow> invar (add x r c)"
    and add_keeps: "invar c \<Longrightarrow> idx_of c r' = Some i \<Longrightarrow> idx_of (add x r c) r' = Some i"
    and add_only: "invar c \<Longrightarrow> r' \<noteq> r \<Longrightarrow> idx_of (add x r c) r' = idx_of c r'"
begin

lemma idx_inj: "invar c \<Longrightarrow> idx_of c r = Some i \<Longrightarrow> idx_of c r' = Some i \<Longrightarrow> r = r'"
  using agree [of c r i] agree [of c r' i] by simp

lemma adds_invar: "invar c \<Longrightarrow> invar (fold (\<lambda>(x, r). add x r) xs c)"
  by (induction xs arbitrary: c) (auto simp: add_invar)

lemma adds_keep:
  "invar c \<Longrightarrow> idx_of c r = Some i \<Longrightarrow> idx_of (fold (\<lambda>(x, r). add x r) xs c) r = Some i"
  by (induction xs arbitrary: c) (auto simp: add_invar add_keeps)

lemma adds_only:
  "invar c \<Longrightarrow> r \<notin> snd ` set xs \<Longrightarrow> idx_of (fold (\<lambda>(x, r). add x r) xs c) r = idx_of c r"
  by (induction xs arbitrary: c) (auto simp: add_invar add_only)

text \<open>An index resolved for a root resolves back to it, whatever was added in between.\<close>

lemma resolved_root:
  "invar c \<Longrightarrow> idx_of c r = Some i \<Longrightarrow> root_of (fold (\<lambda>(x, r). add x r) xs c) i = Some r"
  using adds_keep adds_invar agree by blast

end

lemma task_added_cases:
  "AddNewTask init r blk a = Ret (task_added init r blk a) \<or> task_added init r blk a = a"
  by (cases "AddNewTask init r blk a") (auto simp: task_added_def)

interpretation agg_index: task_index
  batchesIdxByRoot batchesRootByIdx "\<lambda>blk r. task_added init r blk" cache_inv
  for init :: "'b init_task"
proof unfold_locales
  fix c :: "('b, 'm) aggregator_scheme" and r r' i blk
  assume inv: "cache_inv c"
  show "batchesIdxByRoot c r = Some i \<longleftrightarrow> batchesRootByIdx c i = Some r"
    using inv by (auto simp: cache_inv_def cache_abs_def)
  show "cache_inv (task_added init r blk c)"
    using inv task_added_cases [of init r blk c] AddNewTask_inv by metis
  show "batchesIdxByRoot (task_added init r blk c) r' = Some i" if "batchesIdxByRoot c r' = Some i"
    using that task_added_cases [of init r blk c] AddNewTask_keeps by metis
  show "batchesIdxByRoot (task_added init r blk c) r' = batchesIdxByRoot c r'" if "r' \<noteq> r"
    using that task_added_cases [of init r blk c] AddNewTask_only by metis
qed

subsection \<open>Properties\<close>

text \<open>A service that accepts every task and remembers the calls, for the witnesses.\<close>

definition logging_init :: "(u32 \<times> u32) list init_task" where
  "logging_init b i blk q t d = (b @ [(i, blk)], None)"

text \<open>A call of \<open>AddNewTask\<close> that returns keeps the two caches in agreement, keeps every
  index that was handed out, changes no other root's entry, and leaves the tasks' mutex free.\<close>

theorem add_task_keeps_caches:
  assumes "cache_inv a" and "AddNewTask init r blk a = Ret a'"
  shows "cache_inv a' \<and> \<not> taskMutex a' \<and>
    (\<forall>r' i. batchesIdxByRoot a r' = Some i \<longrightarrow> batchesIdxByRoot a' r' = Some i) \<and>
    (\<forall>r'. r' \<noteq> r \<longrightarrow> batchesIdxByRoot a' r' = batchesIdxByRoot a r')"
  using AddNewTask_inv [OF assms] AddNewTask_unlocks [OF assms(2)] AddNewTask_keeps [OF assms(2)]
    AddNewTask_only [OF assms(2)] by blast

theorem add_task_keeps_caches_witness:
  "cache_inv (task_added logging_init [7] 3 (new_aggregator []))"
proof -
  have "AddNewTask logging_init [7] 3 (new_aggregator []) =
      Ret (task_added logging_init [7] 3 (new_aggregator []))"
    by (simp add: task_added_def AddNewTask_fresh [of _ _ _ _ "[(0, 3)]"] new_aggregator_def
        logging_init_def)
  from add_task_keeps_caches [OF cache_inv_new this] show ?thesis by simp
qed

text \<open>C23: \<open>AddNewTask\<close> refines the specification: if the caches stand for the list \<open>rs\<close> of
  roots, they stand for \<open>rs\<close> with the new root at its end afterwards, or for \<open>rs\<close> when the
  root was there already or all indices are used up.\<close>

theorem add_task_refines_spec:
  assumes "cache_abs rs a" and "AddNewTask init r blk a = Ret a'"
  shows "cache_abs (spec_add r rs) a'"
  using assms by (rule AddNewTask_refines)

theorem add_task_refines_spec_witness:
  "cache_abs [[7]] (task_added logging_init [7] 3 (new_aggregator []))"
proof -
  have "AddNewTask logging_init [7] 3 (new_aggregator []) =
      Ret (task_added logging_init [7] 3 (new_aggregator []))"
    by (simp add: task_added_def AddNewTask_fresh [of _ _ _ _ "[(0, 3)]"] new_aggregator_def
        logging_init_def)
  from add_task_refines_spec [OF cache_abs_new this] show ?thesis by (simp add: spec_add_def)
qed

text \<open>The index the RPC server resolves for a root is resolved back to the same root by
  the response handler, however many tasks were added in between.\<close>

theorem resolved_index_stays:
  assumes "cache_inv a" and "batchesIdxByRoot a r = Some i"
  shows "batchesRootByIdx (fold (\<lambda>(blk, r). task_added init r blk) tasks a) i = Some r"
  using assms by (rule agg_index.resolved_root)

theorem resolved_index_stays_witness:
  "batchesRootByIdx (fold (\<lambda>(blk, r). task_added logging_init r blk) [(4, [8]), (5, [9])]
     (task_added logging_init [7] 3 (new_aggregator []))) 0 = Some [7]"
proof (rule resolved_index_stays)
  show "cache_inv (task_added logging_init [7] 3 (new_aggregator []))"
    by (rule agg_index.add_invar) simp
  show "batchesIdxByRoot (task_added logging_init [7] 3 (new_aggregator [])) [7] = Some 0"
    by (simp add: task_added_def AddNewTask_fresh [of _ _ _ _ "[(0, 3)]"] new_aggregator_def
        logging_init_def)
qed

end
