(* ===== verification/Core_Types.thy ===== *)
theory Core_Types
  imports Go_Base
begin

text \<open>
  The message from an operator to the aggregator (\<open>core/types/signed_task_response.go\<close>). The
  signature is a type of the BLS library, and a parameter.
\<close>

record 's SignedTaskResponse =
  BatchMerkleRoot :: bytes32
  BlsSignature :: 's
  OperatorId :: bytes32

end
