(* ===== verification/Agg_Server.thy ===== *)
theory Agg_Server
  imports Agg_Tasks Core_Types
begin

text \<open>
  The RPC method the operators call (\<open>aggregator/internal/pkg/server.go\<close>):
  \<open>ProcessOperatorSignedTaskResponse\<close> waits until the batch is in the caches, for at
  most \<open>waitForEventRetries\<close> lookups with a pause between them, and hands the signature to
  the BLS aggregation service while it holds the tasks' mutex.

  The argument \<open>sleep\<close> is what the other goroutines do to the aggregator's state while
  this one sleeps and then waits for the mutex; \<open>in_time\<close> says whether the service
  answered before the context's deadline of five seconds. When it did not, the method returns
  without the service's new state: the goroutine it leaves behind is then one of the other
  goroutines, and the signature may still be counted after the operator was told 1.
\<close>

subsection \<open>The method\<close>

type_synonym ('b, 's) process_signature =
  "'b \<Rightarrow> u32 \<Rightarrow> bytes32 \<Rightarrow> 's \<Rightarrow> bytes32 \<Rightarrow> 'b \<times> string option"

definition waitForEventRetries :: nat where "waitForEventRetries = 50"
definition waitForEventSleepSeconds :: nat where "waitForEventSleepSeconds = 4 * second"

text \<open>The loop: it ends with the mutex held when it finds the batch, and free when it does not.\<close>

fun wait_for_task ::
  "(nat \<Rightarrow> ('b, 'm) aggregator_scheme \<Rightarrow> ('b, 'm) aggregator_scheme) \<Rightarrow> bytes32 \<Rightarrow> nat \<Rightarrow>
     ('b, 'm) aggregator_scheme \<Rightarrow> (('b, 'm) aggregator_scheme \<times> u32 option) go" where
  "wait_for_task sleep root 0 agg = Ret (agg, None)"
| "wait_for_task sleep root (Suc n) agg =
     (let agg = lock_tasks agg in
      case batchesIdxByRoot agg root of
        None \<Rightarrow> gbind (unlock_tasks agg)
                  (\<lambda>agg. wait_for_task sleep root n (sleep waitForEventSleepSeconds agg))
      | Some taskIndex \<Rightarrow> Ret (agg, Some taskIndex))"

definition ProcessOperatorSignedTaskResponse ::
  "(nat \<Rightarrow> ('b, 'm) aggregator_scheme \<Rightarrow> ('b, 'm) aggregator_scheme) \<Rightarrow>
     ('b, 's) process_signature \<Rightarrow> bool \<Rightarrow> 's SignedTaskResponse \<Rightarrow>
     ('b, 'm) aggregator_scheme \<Rightarrow> (('b, 'm) aggregator_scheme \<times> u8) go" where
  "ProcessOperatorSignedTaskResponse sleep processNewSignature in_time resp agg =
     gbind (wait_for_task sleep (BatchMerkleRoot resp) waitForEventRetries agg) (\<lambda>(agg, found).
       case found of
         None \<Rightarrow> Ret (agg, 1)
       | Some taskIndex \<Rightarrow>
           (case processNewSignature (blsAggregationService agg) taskIndex (BatchMerkleRoot resp)
                   (BlsSignature resp) (OperatorId resp) of
              (b, err) \<Rightarrow>
                let agg = (if in_time then agg\<lparr>blsAggregationService := b\<rparr> else agg);
                    reply = (if in_time then 0 else 1)
                in gbind (unlock_tasks agg) (\<lambda>agg. Ret (agg, reply))))"

definition ServerRunning :: "int" where "ServerRunning = 1"

subsection \<open>The waiting loop as a bounded retry\<close>

definition lookup_attempt ::
  "bytes32 \<Rightarrow> ('b, 'm) aggregator_scheme \<Rightarrow> ('b, 'm) aggregator_scheme \<times> u32 option" where
  "lookup_attempt root agg =
     (case batchesIdxByRoot agg root of
        None \<Rightarrow> (agg\<lparr>taskMutex := False\<rparr>, None) | Some i \<Rightarrow> (agg\<lparr>taskMutex := True\<rparr>, Some i))"

lemma wait_for_task_Suc:
  "wait_for_task sleep root (Suc n) a =
     (case lookup_attempt root a of
        (a', Some i) \<Rightarrow> Ret (a', Some i)
      | (a', None) \<Rightarrow> wait_for_task sleep root n (sleep waitForEventSleepSeconds a'))"
  by (auto simp: lookup_attempt_def lock_tasks_def unlock_tasks_def split: option.splits)

declare wait_for_task.simps(2) [simp del]

lemma wait_for_task_Ret: "\<exists>x. wait_for_task sleep root n a = Ret x"
  by (induction n arbitrary: a) (auto simp: wait_for_task_Suc split: prod.splits option.splits)

fun ret_pair :: "'a \<Rightarrow> ('a \<times> 'b option) go \<Rightarrow> 'a \<times> 'b option" where
  "ret_pair d (Ret x) = x"
| "ret_pair d _ = (d, None)"

lemma ret_pair_wait:
  "ret_pair d (wait_for_task sleep root n a) = ret_pair d' (wait_for_task sleep root n a)"
  using wait_for_task_Ret [of sleep root n a] by auto

interpretation wait: bounded_retry
  "\<lambda>n a. ret_pair a (wait_for_task sleep root n a)" "lookup_attempt root"
  "sleep waitForEventSleepSeconds" for sleep root
  by unfold_locales
    (auto simp: wait_for_task_Suc intro: ret_pair_wait split: prod.splits option.splits)

text \<open>The state this goroutine sees at its \<open>k\<close>-th lookup, when the earlier ones failed.\<close>

definition seen ::
  "(nat \<Rightarrow> ('b, 'm) aggregator_scheme \<Rightarrow> ('b, 'm) aggregator_scheme) \<Rightarrow> nat \<Rightarrow>
     ('b, 'm) aggregator_scheme \<Rightarrow> ('b, 'm) aggregator_scheme" where
  "seen sleep k agg = ((\<lambda>a. sleep waitForEventSleepSeconds (a\<lparr>taskMutex := False\<rparr>)) ^^ k) agg"

lemma lookup_attempt_None: "snd (lookup_attempt root a) = None \<longleftrightarrow> batchesIdxByRoot a root = None"
  by (simp add: lookup_attempt_def split: option.splits)

lemma rounds_seen:
  "(\<And>j. j < k \<Longrightarrow> batchesIdxByRoot (seen sleep j a) root = None) \<Longrightarrow>
     rounds (lookup_attempt root) (sleep waitForEventSleepSeconds) k a = seen sleep k a"
proof (induction k arbitrary: a)
  case (Suc k)
  have 0: "batchesIdxByRoot a root = None" using Suc.prems [of 0] by (simp add: seen_def)
  let ?a = "sleep waitForEventSleepSeconds (a\<lparr>taskMutex := False\<rparr>)"
  have shift: "seen sleep (Suc j) a = seen sleep j ?a" for j
    by (simp add: seen_def funpow_Suc_right del: funpow.simps)
  have "rounds (lookup_attempt root) (sleep waitForEventSleepSeconds) k ?a = seen sleep k ?a"
    using Suc.prems [of "Suc j" for j] by (intro Suc.IH) (simp add: shift)
  moreover have "lookup_attempt root a = (a\<lparr>taskMutex := False\<rparr>, None)"
    by (simp add: lookup_attempt_def 0)
  ultimately show ?case by (simp add: rounds_Suc shift)
qed (simp add: seen_def)

text \<open>The batch is found at lookup \<open>k\<close>: unknown at every earlier one, known at this one.\<close>

definition found_at ::
  "(nat \<Rightarrow> ('b, 'm) aggregator_scheme \<Rightarrow> ('b, 'm) aggregator_scheme) \<Rightarrow> bytes32 \<Rightarrow>
     ('b, 'm) aggregator_scheme \<Rightarrow> nat \<Rightarrow> u32 \<Rightarrow> bool" where
  "found_at sleep root agg k i \<longleftrightarrow> batchesIdxByRoot (seen sleep k agg) root = Some i \<and>
     (\<forall>j<k. batchesIdxByRoot (seen sleep j agg) root = None)"

lemma wait_for_task_found:
  assumes "k < n" "found_at sleep root agg k i"
  shows "wait_for_task sleep root n agg = Ret ((seen sleep k agg)\<lparr>taskMutex := True\<rparr>, Some i)"
proof -
  have none: "batchesIdxByRoot (seen sleep j agg) root = None" if "j < k" for j
    using assms(2) that by (simp add: found_at_def)
  have at: "rounds (lookup_attempt root) (sleep waitForEventSleepSeconds) j agg = seen sleep j agg"
    if "j \<le> k" for j
    using none that by (intro rounds_seen) auto
  have "ret_pair agg (wait_for_task sleep root n agg) = ((seen sleep k agg)\<lparr>taskMutex := True\<rparr>, Some i)"
  proof (rule wait.loop_at [OF assms(1)])
    show "lookup_attempt root (rounds (lookup_attempt root) (sleep waitForEventSleepSeconds) k agg) =
        ((seen sleep k agg)\<lparr>taskMutex := True\<rparr>, Some i)"
      using assms(2) at [of k] by (simp add: lookup_attempt_def found_at_def)
  next
    fix j assume "j < k"
    then show "snd (lookup_attempt root
        (rounds (lookup_attempt root) (sleep waitForEventSleepSeconds) j agg)) = None"
      using none at by (simp add: lookup_attempt_None)
  qed
  then show ?thesis using wait_for_task_Ret [of sleep root n agg] by auto
qed

lemma wait_for_task_lost:
  assumes "\<And>k. k < n \<Longrightarrow> batchesIdxByRoot (seen sleep k agg) root = None"
  shows "wait_for_task sleep root n agg = Ret (seen sleep n agg, None)"
proof -
  have at: "rounds (lookup_attempt root) (sleep waitForEventSleepSeconds) j agg = seen sleep j agg"
    if "j \<le> n" for j
    using assms that by (intro rounds_seen) auto
  have "ret_pair agg (wait_for_task sleep root n agg) = (seen sleep n agg, None)"
    using wait.loop_exhausted [of n root sleep agg] assms at by (simp add: lookup_attempt_None)
  then show ?thesis using wait_for_task_Ret [of sleep root n agg] by auto
qed

lemma found_or_lost:
  obtains (found) k i where "k < n" "found_at sleep root agg k i"
  | (lost) "\<And>k. k < n \<Longrightarrow> batchesIdxByRoot (seen sleep k agg) root = None"
proof (cases "\<exists>k<n. batchesIdxByRoot (seen sleep k agg) root \<noteq> None")
  case True
  let ?P = "\<lambda>k. k < n \<and> batchesIdxByRoot (seen sleep k agg) root \<noteq> None"
  define k where "k = (LEAST k. ?P k)"
  have k: "?P k" using True LeastI_ex [of ?P] by (auto simp: k_def)
  moreover have "batchesIdxByRoot (seen sleep j agg) root = None" if "j < k" for j
    using not_less_Least [of j ?P] that k unfolding k_def [symmetric] by auto
  ultimately show ?thesis using found [of k] by (auto simp: found_at_def)
qed (use lost in blast)

subsection \<open>What the method does\<close>

lemma Process_found:
  assumes "k < waitForEventRetries" "found_at sleep (BatchMerkleRoot resp) agg k i"
    and "pns (blsAggregationService (seen sleep k agg)) i (BatchMerkleRoot resp)
           (BlsSignature resp) (OperatorId resp) = (b, err)"
  shows "ProcessOperatorSignedTaskResponse sleep pns in_time resp agg =
     Ret (if in_time then (seen sleep k agg)\<lparr>taskMutex := False, blsAggregationService := b\<rparr>
          else (seen sleep k agg)\<lparr>taskMutex := False\<rparr>, if in_time then 0 else 1)"
  using assms
  by (simp add: ProcessOperatorSignedTaskResponse_def wait_for_task_found [OF assms(1,2)]
      unlock_tasks_def Let_def)

lemma Process_lost:
  assumes "\<And>k. k < waitForEventRetries \<Longrightarrow> batchesIdxByRoot (seen sleep k agg) (BatchMerkleRoot resp) = None"
  shows "ProcessOperatorSignedTaskResponse sleep pns in_time resp agg =
     Ret (seen sleep waitForEventRetries agg, 1)"
  using wait_for_task_lost [OF assms]
  by (simp add: ProcessOperatorSignedTaskResponse_def)

subsection \<open>Properties\<close>

text \<open>A service for the witnesses: it accepts the signatures of the operators it lists.\<close>

definition member_service :: "(bytes32 list, nat) process_signature" where
  "member_service b i root sig op =
     (b, if op \<in> set b then None else Some ''operator not registered'')"

definition example_caches :: "bytes32 list aggregator" where
  "example_caches = (new_aggregator [[1]])\<lparr>batchesRootByIdx := [0 \<mapsto> [7]],
     batchesIdxByRoot := [[7] \<mapsto> 0], nextBatchIndex := 1\<rparr>"

lemma seen_free:
  "(\<And>t a. \<not> taskMutex (sleep t a)) \<Longrightarrow> \<not> taskMutex agg \<Longrightarrow> \<not> taskMutex (seen sleep k agg)"
  by (cases k) (simp_all add: seen_def)

text \<open>The method always returns; it replies 0 exactly when one of its fifty lookups finds
  the batch and the service answers within the deadline, and 1 otherwise.\<close>

theorem process_response_reply:
  "\<exists>agg'. ProcessOperatorSignedTaskResponse sleep pns in_time resp agg =
     Ret (agg', if in_time \<and> (\<exists>k<waitForEventRetries.
       batchesIdxByRoot (seen sleep k agg) (BatchMerkleRoot resp) \<noteq> None) then 0 else 1)"
proof (cases rule: found_or_lost [of waitForEventRetries sleep "BatchMerkleRoot resp" agg])
  case (found k i)
  obtain b err where "pns (blsAggregationService (seen sleep k agg)) i (BatchMerkleRoot resp)
      (BlsSignature resp) (OperatorId resp) = (b, err)" by fastforce
  from Process_found [where pns = pns and in_time = in_time, OF found this] show ?thesis
    using found by (auto simp: found_at_def)
next
  case lost
  from Process_lost [OF lost] lost show ?thesis by auto
qed

text \<open>The tasks' mutex is free when the method returns, on every path, provided the other
  goroutines leave it free when this one resumes.\<close>

lemma process_response_unlocks:
  assumes "\<And>t a. \<not> taskMutex (sleep t a)" and "\<not> taskMutex agg"
    and "ProcessOperatorSignedTaskResponse sleep pns in_time resp agg = Ret (agg', reply)"
  shows "\<not> taskMutex agg'"
proof (cases rule: found_or_lost [of waitForEventRetries sleep "BatchMerkleRoot resp" agg])
  case (found k i)
  obtain b err where "pns (blsAggregationService (seen sleep k agg)) i (BatchMerkleRoot resp)
      (BlsSignature resp) (OperatorId resp) = (b, err)" by fastforce
  from Process_found [where pns = pns and in_time = in_time, OF found this] assms(3) show ?thesis
    by (auto split: if_splits)
next
  case lost
  from Process_lost [OF lost, of pns in_time] assms show ?thesis
    by (auto simp: seen_free)
qed

text \<open>C21: the signature is processed under the index of its own batch: with the caches in
  agreement whenever the goroutine looks, the index handed to the service is registered for the
  root of the response, and it is the state the service returns that is kept.\<close>

theorem process_response_right_task:
  assumes "cache_inv agg" and "\<And>t a. cache_inv a \<Longrightarrow> cache_inv (sleep t a)"
    and "k < waitForEventRetries" and "found_at sleep (BatchMerkleRoot resp) agg k i"
  shows "\<exists>agg'. ProcessOperatorSignedTaskResponse sleep pns True resp agg = Ret (agg', 0) \<and>
    batchesRootByIdx agg' i = Some (BatchMerkleRoot resp) \<and>
    blsAggregationService agg' = fst (pns (blsAggregationService (seen sleep k agg)) i
      (BatchMerkleRoot resp) (BlsSignature resp) (OperatorId resp))"
proof -
  have inv: "cache_inv (seen sleep k agg)"
    using assms(1,2) by (induction k) (simp_all add: seen_def)
  then have root: "batchesRootByIdx (seen sleep k agg) i = Some (BatchMerkleRoot resp)"
    using assms(4) agg_index.agree [OF inv] by (simp add: found_at_def)
  obtain b err where b: "pns (blsAggregationService (seen sleep k agg)) i (BatchMerkleRoot resp)
      (BlsSignature resp) (OperatorId resp) = (b, err)" by fastforce
  from Process_found [where pns = pns and in_time = True, OF assms(3,4) b] root b show ?thesis by simp
qed

theorem process_response_right_task_witness:
  "\<exists>agg'. ProcessOperatorSignedTaskResponse (\<lambda>_ a. a) member_service True
      \<lparr>BatchMerkleRoot = [7], BlsSignature = 5, OperatorId = [1]\<rparr> example_caches = Ret (agg', 0) \<and>
    batchesRootByIdx agg' 0 = Some [7]"
proof -
  let ?resp = "\<lparr>BatchMerkleRoot = [7], BlsSignature = 5 :: nat, OperatorId = [1]\<rparr>"
  have "cache_abs [[7]] example_caches"
    by (auto simp: cache_abs_def example_caches_def new_aggregator_def unat_eq_zero)
  then have "cache_inv example_caches" by (auto simp: cache_inv_def)
  moreover have "found_at (\<lambda>_ a. a) (BatchMerkleRoot ?resp) example_caches 0 0"
    by (simp add: found_at_def seen_def example_caches_def)
  ultimately show ?thesis
    using process_response_right_task [of example_caches "\<lambda>_ a. a" 0 ?resp 0 member_service]
    by (auto simp: waitForEventRetries_def)
qed

text \<open>An error of the aggregation service is only logged: the operator is told 0, which the
  method's comment calls success, although the service rejected its signature.\<close>

theorem rejected_signature_replied_success:
  assumes "batchesIdxByRoot agg (BatchMerkleRoot resp) = Some i"
    and "pns (blsAggregationService agg) i (BatchMerkleRoot resp) (BlsSignature resp)
           (OperatorId resp) = (b, Some e)"
  shows "\<exists>agg'. ProcessOperatorSignedTaskResponse sleep pns True resp agg = Ret (agg', 0)"
proof -
  have "found_at sleep (BatchMerkleRoot resp) agg 0 i"
    using assms(1) by (simp add: found_at_def seen_def)
  from Process_found [OF _ this, of pns b "Some e" True] assms(2) show ?thesis
    by (simp add: seen_def waitForEventRetries_def)
qed

theorem rejected_signature_replied_success_witness:
  "\<exists>agg'. ProcessOperatorSignedTaskResponse (\<lambda>_ a. a) member_service True
      \<lparr>BatchMerkleRoot = [7], BlsSignature = 5, OperatorId = [2]\<rparr> example_caches = Ret (agg', 0)"
  using rejected_signature_replied_success [of example_caches
      "\<lparr>BatchMerkleRoot = [7], BlsSignature = 5 :: nat, OperatorId = [2]\<rparr>" 0 member_service
      "[[1]]" "''operator not registered''" "\<lambda>_ a. a"]
  by (simp add: example_caches_def new_aggregator_def member_service_def)

end
