(* ===== verification/Agg_Response.thy ===== *)
theory Agg_Response
  imports Agg_Tasks
begin

text \<open>
  The aggregator's answer to the BLS aggregation service
  (\<open>aggregator/internal/pkg/aggregator.go\<close>): \<open>handleBlsAggServiceResponse\<close> converts
  the signature, looks the batch's root up by its index, and sends the response on chain, at
  most \<open>MaxSentTxRetries\<close> times; \<open>sendAggregatedResponse\<close> is one such try, under the
  wallet's mutex. The state is the aggregator's and the world's.
\<close>

subsection \<open>The service's response and the contract's argument\<close>

record 'f bls_response =
  resp_Err :: "string option"
  TaskIndex :: u32
  NonSignersPubkeysG1 :: "'f G1Point list"
  QuorumApksG1 :: "'f G1Point list"
  SignersApkG2 :: "'f G2Point"
  SignersAggSigG1 :: "'f G1Point"
  resp_NonSignerQuorumBitmapIndices :: "u32 list"
  resp_QuorumApkIndices :: "u32 list"
  resp_TotalStakeIndices :: "u32 list"
  resp_NonSignerStakeIndices :: "u32 list list"

record NonSignerStakesAndSignature =
  NonSignerQuorumBitmapIndices :: "u32 list"
  NonSignerPubkeys :: "BN254G1Point list"
  QuorumApks :: "BN254G1Point list"
  ApkG2 :: BN254G2Point
  Sigma :: BN254G1Point
  QuorumApkIndices :: "u32 list"
  TotalStakeIndices :: "u32 list"
  NonSignerStakeIndices :: "u32 list list"

text \<open>The conversion of the response, the first part of the handler.\<close>

definition to_signature :: "('f \<Rightarrow> int) \<Rightarrow> 'f bls_response \<Rightarrow> NonSignerStakesAndSignature" where
  "to_signature BigInt resp =
     \<lparr>NonSignerQuorumBitmapIndices = resp_NonSignerQuorumBitmapIndices resp,
      NonSignerPubkeys = map (ConvertToBN254G1Point BigInt) (NonSignersPubkeysG1 resp),
      QuorumApks = map (ConvertToBN254G1Point BigInt) (QuorumApksG1 resp),
      ApkG2 = ConvertToBN254G2Point BigInt (SignersApkG2 resp),
      Sigma = ConvertToBN254G1Point BigInt (SignersAggSigG1 resp),
      QuorumApkIndices = resp_QuorumApkIndices resp,
      TotalStakeIndices = resp_TotalStakeIndices resp,
      NonSignerStakeIndices = resp_NonSignerStakeIndices resp\<rparr>"

subsection \<open>Sending the response\<close>

definition MaxSentTxRetries :: nat where "MaxSentTxRetries = 5"

definition IncAggregatedResponses :: "('b, 'm) aggregator_scheme \<Rightarrow> ('b, 'm) aggregator_scheme" where
  "IncAggregatedResponses a = a\<lparr>numAggregatedResponses := Suc (numAggregatedResponses a)\<rparr>"

type_synonym ('b, 'm, 'w) agg_world = "('b, 'm) aggregator_scheme \<times> 'w"

definition sendAggregatedResponse ::
  "('w, 'n, 'r) eth_backend \<Rightarrow> tx_opts \<Rightarrow> bytes32 \<Rightarrow> 'n \<Rightarrow> ('b, 'm, 'w) agg_world \<Rightarrow>
     (('b, 'm, 'w) agg_world \<times> 'r result) go" where
  "sendAggregatedResponse client opts batchMerkleRoot sig s =
     (let agg = lock_wallet (fst s) in
      case SendAggregatedResponse client opts batchMerkleRoot sig (snd s) of
        (w, Inl err) \<Rightarrow> gbind (unlock_wallet agg) (\<lambda>agg. Ret ((agg, w), Inl err))
      | (w, Inr txHash) \<Rightarrow> gbind (unlock_wallet agg) (\<lambda>agg.
          case WaitForTransactionReceipt client txHash w of
            (w, Inl err) \<Rightarrow> Ret ((agg, w), Inl err)
          | (w, Inr receipt) \<Rightarrow> Ret ((IncAggregatedResponses agg, w), Inr receipt)))"

definition response_sleep :: nat where "response_sleep = 2 * second"

fun respond_loop ::
  "('w, 'n, 'r) eth_backend \<Rightarrow> tx_opts \<Rightarrow> bytes32 \<Rightarrow> 'n \<Rightarrow> nat \<Rightarrow> ('b, 'm, 'w) agg_world \<Rightarrow>
     (('b, 'm, 'w) agg_world \<times> 'r option) go" where
  "respond_loop client opts root sig 0 s = Ret (s, None)"
| "respond_loop client opts root sig (Suc n) s =
     gbind (sendAggregatedResponse client opts root sig s) (\<lambda>(s', res).
       case res of
         Inr receipt \<Rightarrow> Ret (s', Some receipt)
       | Inl err \<Rightarrow> respond_loop client opts root sig n (fst s', Sleep client response_sleep (snd s')))"

text \<open>How the handler ends: which of its log lines it reaches.\<close>

datatype response_outcome = ServiceError | Responded | BatchLost

definition zero_root :: bytes32 where "zero_root = replicate 32 0"

definition handleBlsAggServiceResponse ::
  "('f \<Rightarrow> int) \<Rightarrow> ('w, NonSignerStakesAndSignature, 'r) eth_backend \<Rightarrow> tx_opts \<Rightarrow>
     'f bls_response \<Rightarrow> ('b, 'm, 'w) agg_world \<Rightarrow> (('b, 'm, 'w) agg_world \<times> response_outcome) go" where
  "handleBlsAggServiceResponse BigInt client opts resp s =
     (case resp_Err resp of
        Some e \<Rightarrow> Ret (s, ServiceError)
      | None \<Rightarrow>
          let sig = to_signature BigInt resp;
              agg = lock_tasks (fst s);
              batchMerkleRoot = (case batchesRootByIdx agg (TaskIndex resp) of
                                   Some r \<Rightarrow> r | None \<Rightarrow> zero_root)
          in gbind (unlock_tasks agg) (\<lambda>agg.
             gbind (respond_loop client opts batchMerkleRoot sig MaxSentTxRetries (agg, snd s))
               (\<lambda>(s, res). Ret (s, case res of Some _ \<Rightarrow> Responded | None \<Rightarrow> BatchLost))))"

subsection \<open>One try\<close>

lemma unlock_lock [simp]:
  "unlock_wallet (lock_wallet a) = Ret (a\<lparr>walletMutex := False\<rparr>)"
  "unlock_tasks (lock_tasks a) = Ret (a\<lparr>taskMutex := False\<rparr>)"
  by (simp_all add: unlock_wallet_def lock_wallet_def unlock_tasks_def lock_tasks_def)

text \<open>A try never panics and always gives the wallet back.\<close>

definition try_send ::
  "('w, 'n, 'r) eth_backend \<Rightarrow> tx_opts \<Rightarrow> bytes32 \<Rightarrow> 'n \<Rightarrow> ('b, 'm, 'w) agg_world \<Rightarrow>
     ('b, 'm, 'w) agg_world \<times> 'r option" where
  "try_send client opts root sig s =
     (case SendAggregatedResponse client opts root sig (snd s) of
        (w, Inl err) \<Rightarrow> (((fst s)\<lparr>walletMutex := False\<rparr>, w), None)
      | (w, Inr h) \<Rightarrow>
          (case WaitForTransactionReceipt client h w of
             (w, Inl err) \<Rightarrow> (((fst s)\<lparr>walletMutex := False\<rparr>, w), None)
           | (w, Inr rc) \<Rightarrow>
               ((IncAggregatedResponses ((fst s)\<lparr>walletMutex := False\<rparr>), w), Some rc)))"

lemma sendAggregatedResponse_eq:
  "\<exists>e. sendAggregatedResponse client opts root sig s =
     Ret (fst (try_send client opts root sig s),
          case snd (try_send client opts root sig s) of Some rc \<Rightarrow> Inr rc | None \<Rightarrow> Inl e)"
  by (auto simp: sendAggregatedResponse_def try_send_def Let_def split: prod.splits sum.splits)

lemma respond_loop_Suc:
  "respond_loop client opts root sig (Suc n) s =
     (case try_send client opts root sig s of
        (s', Some rc) \<Rightarrow> Ret (s', Some rc)
      | (s', None) \<Rightarrow> respond_loop client opts root sig n (fst s', Sleep client response_sleep (snd s')))"
proof -
  obtain e where "sendAggregatedResponse client opts root sig s =
     Ret (fst (try_send client opts root sig s),
          case snd (try_send client opts root sig s) of Some rc \<Rightarrow> Inr rc | None \<Rightarrow> Inl e)"
    using sendAggregatedResponse_eq [of client opts root sig s] by blast
  then show ?thesis by (cases "try_send client opts root sig s") (auto split: option.splits)
qed

declare respond_loop.simps(2) [simp del]

fun ret_val :: "'a \<Rightarrow> 'a go \<Rightarrow> 'a" where
  "ret_val d (Ret x) = x"
| "ret_val d _ = d"

lemma respond_loop_Ret: "\<exists>x. respond_loop client opts root sig n s = Ret x"
  by (induction n arbitrary: s) (auto simp: respond_loop_Suc split: prod.splits option.splits)

lemma respond_loop_val:
  "respond_loop client opts root sig n s = Ret (ret_val d (respond_loop client opts root sig n s))"
  using respond_loop_Ret [of client opts root sig n s] by auto

lemma ret_val_respond:
  "ret_val d (respond_loop client opts root sig n s) = ret_val d' (respond_loop client opts root sig n s)"
  using respond_loop_Ret [of client opts root sig n s] by auto

interpretation respond: bounded_retry
  "\<lambda>n s. ret_val (s, None) (respond_loop client opts root sig n s)"
  "try_send client opts root sig"
  "\<lambda>s. (fst s, Sleep client response_sleep (snd s))"
  for client opts root sig
proof unfold_locales
  fix n s
  show "ret_val (s, None) (respond_loop client opts root sig (Suc n) s) =
    (case try_send client opts root sig s of (s', Some r) \<Rightarrow> (s', Some r)
     | (s', None) \<Rightarrow> ret_val ((fst s', Sleep client response_sleep (snd s')), None)
         (respond_loop client opts root sig n (fst s', Sleep client response_sleep (snd s'))))"
    by (auto simp: respond_loop_Suc intro: ret_val_respond split: prod.splits option.splits)
qed simp

subsection \<open>What a try keeps\<close>

text \<open>The parts of the aggregator's state that sending a response leaves alone.\<close>

definition same_caches :: "('b, 'm) aggregator_scheme \<Rightarrow> ('b, 'm) aggregator_scheme \<Rightarrow> bool" where
  "same_caches a a' \<longleftrightarrow> batchesRootByIdx a' = batchesRootByIdx a \<and>
     batchesIdxByRoot a' = batchesIdxByRoot a \<and> nextBatchIndex a' = nextBatchIndex a \<and>
     taskMutex a' = taskMutex a \<and> blsAggregationService a' = blsAggregationService a"

lemma try_send_frame:
  "try_send client opts root sig s = (s', res) \<Longrightarrow>
     same_caches (fst s) (fst s') \<and> \<not> walletMutex (fst s') \<and>
     numAggregatedResponses (fst s') =
       numAggregatedResponses (fst s) + (case res of Some _ \<Rightarrow> 1 | None \<Rightarrow> 0)"
  by (auto simp: try_send_def same_caches_def IncAggregatedResponses_def
      split: prod.splits sum.splits)

lemma same_caches_refl [simp]: "same_caches a a"
  by (simp add: same_caches_def)

lemma same_caches_trans: "same_caches a b \<Longrightarrow> same_caches b c \<Longrightarrow> same_caches a c"
  by (simp add: same_caches_def)

lemma respond_loop_frame:
  "respond_loop client opts root sig n s = Ret (s', res) \<Longrightarrow>
     same_caches (fst s) (fst s') \<and> (0 < n \<longrightarrow> \<not> walletMutex (fst s')) \<and>
     numAggregatedResponses (fst s') =
       numAggregatedResponses (fst s) + (case res of Some _ \<Rightarrow> 1 | None \<Rightarrow> 0)"
proof (induction n arbitrary: s)
  case (Suc n)
  obtain t r where t: "try_send client opts root sig s = (t, r)" by fastforce
  note frame = try_send_frame [OF t]
  show ?case
  proof (cases r)
    case (Some rc)
    with Suc.prems t frame show ?thesis by (simp add: respond_loop_Suc)
  next
    case None
    then have "respond_loop client opts root sig n (fst t, Sleep client response_sleep (snd t)) = Ret (s', res)"
      using Suc.prems t by (simp add: respond_loop_Suc)
    from Suc.IH [OF this] frame None show ?thesis
      using Suc.prems by (cases n) (auto intro: same_caches_trans simp: t respond_loop_Suc)
  qed
qed auto

text \<open>
  An invariant of the world that the client's calls for this root keep, whatever else they do,
  holds after the loop.
\<close>

lemma receipt_loop_world:
  assumes "P w" and "\<And>h w. P w \<Longrightarrow> P (fst (TransactionReceipt client h w))"
    and "\<And>t w. P w \<Longrightarrow> P (Sleep client t w)"
  shows "P (fst (WaitForTransactionReceipt client h w))"
proof -
  have "P (fst (receipt_loop client h maxRetries w))"
  proof (rule receipt.loop_invariant)
    show "P (fst (receipt_attempt client h w))" if "P w" for w
      using assms(2) [OF that, of h] by (auto simp: receipt_attempt_def split: prod.splits sum.splits)
  qed (use assms in auto)
  then show ?thesis
    by (auto simp: WaitForTransactionReceipt_def split: prod.splits option.splits)
qed

lemma SendAggregatedResponse_world:
  assumes "P w" and "\<And>opts w. P w \<Longrightarrow> P (fst (RespondToTask client opts root sig w))"
  shows "P (fst (SendAggregatedResponse client opts root sig w))"
proof -
  obtain w1 r1 where 1: "RespondToTask client (opts\<lparr>NoSend := True\<rparr>) root sig w = (w1, r1)"
    by fastforce
  then have P1: "P w1" using assms(2) [OF assms(1), of "opts\<lparr>NoSend := True\<rparr>"] by simp
  then have "\<And>o2. P (fst (RespondToTask client o2 root sig w1))" by (rule assms(2))
  with P1 show ?thesis
    by (cases r1) (auto simp: SendAggregatedResponse_def Let_def 1 split: prod.splits sum.splits,
        metis fst_conv, metis fst_conv)
qed

lemma try_send_world:
  assumes "P (snd s)" and "\<And>opts w. P w \<Longrightarrow> P (fst (RespondToTask client opts root sig w))"
    and "\<And>h w. P w \<Longrightarrow> P (fst (TransactionReceipt client h w))"
    and "\<And>t w. P w \<Longrightarrow> P (Sleep client t w)"
  shows "P (snd (fst (try_send client opts root sig s)))"
proof -
  obtain w r where 1: "SendAggregatedResponse client opts root sig (snd s) = (w, r)" by fastforce
  then have "P w"
    using SendAggregatedResponse_world [of P "snd s" client root sig opts] assms(1,2) by simp
  then have "P (fst (WaitForTransactionReceipt client h w))" for h
    using assms(3,4) by (rule receipt_loop_world)
  with \<open>P w\<close> show ?thesis
    by (cases r) (auto simp: try_send_def 1 split: prod.splits sum.splits, (metis fst_conv)+)
qed

lemma respond_loop_world:
  assumes "P (snd s)" and "\<And>opts w. P w \<Longrightarrow> P (fst (RespondToTask client opts root sig w))"
    and "\<And>h w. P w \<Longrightarrow> P (fst (TransactionReceipt client h w))"
    and "\<And>t w. P w \<Longrightarrow> P (Sleep client t w)"
    and "respond_loop client opts root sig n s = Ret (s', res)"
  shows "P (snd s')"
proof -
  have "P (snd (fst (ret_val (s, None) (respond_loop client opts root sig n s))))"
  proof (rule respond.loop_invariant [where P = "\<lambda>s. P (snd s)"])
    show "P (snd (fst (try_send client opts root sig s)))" if "P (snd s)" for s
      using that assms(2-4) by (rule try_send_world)
  qed (use assms in auto)
  then show ?thesis by (simp add: assms(5))
qed

subsection \<open>Properties\<close>

definition example_response :: "u32 \<Rightarrow> int bls_response" where
  "example_response i = \<lparr>resp_Err = None, TaskIndex = i,
     NonSignersPubkeysG1 = [\<lparr>g1_X = 1, g1_Y = 2\<rparr>], QuorumApksG1 = [],
     SignersApkG2 = \<lparr>g2_X = \<lparr>A0 = 3, A1 = 4\<rparr>, g2_Y = \<lparr>A0 = 5, A1 = 6\<rparr>\<rparr>,
     SignersAggSigG1 = \<lparr>g1_X = 7, g1_Y = 8\<rparr>, resp_NonSignerQuorumBitmapIndices = [0],
     resp_QuorumApkIndices = [1], resp_TotalStakeIndices = [2], resp_NonSignerStakeIndices = [[3]]\<rparr>"

text \<open>The root a response is sent for.\<close>

definition response_root :: "('b, 'm) aggregator_scheme \<Rightarrow> 'f bls_response \<Rightarrow> bytes32" where
  "response_root a resp =
     (case batchesRootByIdx a (TaskIndex resp) of Some r \<Rightarrow> r | None \<Rightarrow> zero_root)"

lemma handle_eq:
  "resp_Err resp = None \<Longrightarrow>
     handleBlsAggServiceResponse BigInt client opts resp s =
       gbind (respond_loop client opts (response_root (fst s) resp) (to_signature BigInt resp)
                MaxSentTxRetries ((fst s)\<lparr>taskMutex := False\<rparr>, snd s))
         (\<lambda>(s, res). Ret (s, case res of Some _ \<Rightarrow> Responded | None \<Rightarrow> BatchLost))"
  by (simp add: handleBlsAggServiceResponse_def Let_def response_root_def)
    (simp add: lock_tasks_def)

lemma handle_Ret: "\<exists>x. handleBlsAggServiceResponse BigInt client opts resp s = Ret x"
proof (cases "resp_Err resp")
  case None
  then show ?thesis
    using respond_loop_Ret [of client opts "response_root (fst s) resp" "to_signature BigInt resp"
        MaxSentTxRetries "((fst s)\<lparr>taskMutex := False\<rparr>, snd s)"]
    by (auto simp: handle_eq)
qed (simp add: handleBlsAggServiceResponse_def)

text \<open>C26: the handler always returns, with both mutexes free and the caches as they were; the
  metric of answered batches grows by one exactly when it ends with a receipt, and a response
  that carries an error changes nothing.\<close>

theorem handle_response_frame:
  assumes "\<not> taskMutex a" and "\<not> walletMutex a"
  shows "\<exists>a' w' out. handleBlsAggServiceResponse BigInt client opts resp (a, w) = Ret ((a', w'), out) \<and>
    same_caches a a' \<and> \<not> walletMutex a' \<and>
    numAggregatedResponses a' = numAggregatedResponses a + (if out = Responded then 1 else 0) \<and>
    (out = ServiceError \<longleftrightarrow> resp_Err resp \<noteq> None) \<and> (out = ServiceError \<longrightarrow> (a', w') = (a, w))"
proof (cases "resp_Err resp")
  case None
  let ?a = "a\<lparr>taskMutex := False\<rparr>"
  have eq: "?a = a" using assms(1) by simp
  obtain s' res where loop: "respond_loop client opts (response_root a resp) (to_signature BigInt resp)
      MaxSentTxRetries (?a, w) = Ret (s', res)"
    using respond_loop_Ret by fastforce
  show ?thesis
    using respond_loop_frame [OF loop] loop None eq
    by (cases s'; cases res) (auto simp: handle_eq MaxSentTxRetries_def)
qed (use assms in \<open>simp add: handleBlsAggServiceResponse_def\<close>)

theorem handle_response_frame_witness:
  "\<exists>a' w' out. handleBlsAggServiceResponse id (counting_client 3) \<lparr>NoSend = False, GasLimit = 0\<rparr>
      (example_response 0) (new_aggregator (), (0, 0)) = Ret ((a', w'), out) \<and> \<not> walletMutex a'"
  using handle_response_frame [of "new_aggregator ()" id "counting_client 3"
      "\<lparr>NoSend = False, GasLimit = 0\<rparr>" "example_response 0" "(0, 0)"]
  by (auto simp: new_aggregator_def)

lemma send_cost:
  assumes "\<And>opts w. m (fst (RespondToTask client opts root sig w)) \<le> m w + (if NoSend opts then 0 else 1)"
  shows "m (fst (SendAggregatedResponse client opts root sig w)) \<le> m w + (1::nat)"
proof -
  obtain w1 r1 where 1: "RespondToTask client (opts\<lparr>NoSend := True\<rparr>) root sig w = (w1, r1)" by fastforce
  then have w1: "m w1 \<le> m w" using assms [of "opts\<lparr>NoSend := True\<rparr>" w] by simp
  show ?thesis
  proof (cases r1)
    case (Inr tx)
    obtain w2 r2 where 2: "RespondToTask client
        (opts\<lparr>NoSend := False, GasLimit := raised_gas (Gas tx)\<rparr>) root sig w1 = (w2, r2)" by fastforce
    then have "m w2 \<le> m w1 + 1"
      using assms [of "opts\<lparr>NoSend := False, GasLimit := raised_gas (Gas tx)\<rparr>" w1] by simp
    with w1 show ?thesis
      by (cases r2) (simp_all add: SendAggregatedResponse_def 1 2 Inr)
  qed (use w1 in \<open>simp add: SendAggregatedResponse_def 1\<close>)
qed

lemma try_cost:
  assumes "\<And>opts w. m (fst (RespondToTask client opts root sig w)) \<le> m w + (if NoSend opts then 0 else 1)"
    and "\<And>h w. m (fst (TransactionReceipt client h w)) \<le> m w" and "\<And>t w. m (Sleep client t w) \<le> m w"
  shows "m (snd (fst (try_send client opts root sig s))) \<le> m (snd s) + (1::nat)"
proof -
  obtain w r where 1: "SendAggregatedResponse client opts root sig (snd s) = (w, r)" by fastforce
  then have w: "m w \<le> m (snd s) + 1"
    using send_cost [of m client root sig opts "snd s", OF assms(1)] by simp
  have "m (fst (WaitForTransactionReceipt client h w)) \<le> m w" for h
  proof (rule receipt_loop_world [where P = "\<lambda>v. m v \<le> m w"])
    show "m (fst (TransactionReceipt client h v)) \<le> m w" if "m v \<le> m w" for h v
      using assms(2) [of h v] that by simp
    show "m (Sleep client t v) \<le> m w" if "m v \<le> m w" for t v
      using assms(3) [of t v] that by simp
  qed simp
  then have wait: "WaitForTransactionReceipt client h w = (v, r') \<Longrightarrow> m v \<le> m (snd s) + 1" for h v r'
    using w by (metis fst_conv le_trans)
  show ?thesis
    using w wait by (cases r) (auto simp: try_send_def 1 split: prod.splits sum.splits)
qed

text \<open>At most five transactions are sent for a response: any count that a real (not
  simulated) \<open>respondToTask\<close> call raises by at most one, and nothing else raises, grows by at
  most five.\<close>

theorem at_most_five_transactions:
  fixes m :: "'w \<Rightarrow> nat"
  assumes "\<And>opts root sig w. m (fst (RespondToTask client opts root sig w)) \<le> m w + (if NoSend opts then 0 else 1)"
    and "\<And>h w. m (fst (TransactionReceipt client h w)) \<le> m w" and "\<And>t w. m (Sleep client t w) \<le> m w"
    and "handleBlsAggServiceResponse BigInt client opts resp (a, w) = Ret ((a', w'), out)"
  shows "m w' \<le> m w + 5"
proof (cases "resp_Err resp")
  case None
  let ?root = "response_root a resp" and ?sig = "to_signature BigInt resp"
  let ?s = "(a\<lparr>taskMutex := False\<rparr>, w)"
  have "m (snd (fst (ret_val (?s, None) (respond_loop client opts ?root ?sig MaxSentTxRetries ?s))))
      \<le> m (snd ?s) + MaxSentTxRetries * (1 + 0)"
  proof (rule respond.loop_cost [where m = "\<lambda>s. m (snd s)"])
    show "m (snd (fst (try_send client opts ?root ?sig s))) \<le> m (snd s) + 1" for s
      by (rule try_cost) (rule assms(1-3))+
  qed (use assms(3) in simp)
  then show ?thesis
    using None assms(4)
    by (auto simp: handle_eq MaxSentTxRetries_def go_simps split: prod.splits)
qed (use assms(4) in \<open>simp add: handleBlsAggServiceResponse_def\<close>)

theorem at_most_five_transactions_witness:
  "\<exists>a' sent polls out. handleBlsAggServiceResponse id (counting_client 1000)
      \<lparr>NoSend = False, GasLimit = 0\<rparr> (example_response 0) (new_aggregator (), (0, 0))
        = Ret ((a', (sent, polls)), out) \<and> sent \<le> 5"
proof -
  obtain a' sent polls out where h: "handleBlsAggServiceResponse id (counting_client 1000)
      \<lparr>NoSend = False, GasLimit = 0\<rparr> (example_response 0) (new_aggregator (), (0, 0))
        = Ret ((a', (sent, polls)), out)"
    using handle_Ret [of id "counting_client 1000" "\<lparr>NoSend = False, GasLimit = 0\<rparr>"
        "example_response 0" "(new_aggregator (), (0, 0))"] by auto
  have "fst (sent, polls) \<le> fst (0 :: nat, 0 :: nat) + 5"
    by (rule at_most_five_transactions [where m = fst, OF _ _ _ h])
      (auto simp: counting_client_def split: prod.splits)
  with h show ?thesis by auto
qed

text \<open>The handler answers for its own batch only: whatever fact about the world the calls for
  the root registered under the response's index keep, together with polling and time, still
  holds when the handler returns.\<close>

theorem response_touches_own_root:
  assumes "batchesRootByIdx a (TaskIndex resp) = Some root" and "P w"
    and "\<And>opts sig w. P w \<Longrightarrow> P (fst (RespondToTask client opts root sig w))"
    and "\<And>h w. P w \<Longrightarrow> P (fst (TransactionReceipt client h w))"
    and "\<And>t w. P w \<Longrightarrow> P (Sleep client t w)"
    and "handleBlsAggServiceResponse BigInt client opts resp (a, w) = Ret ((a', w'), out)"
  shows "P w'"
proof (cases "resp_Err resp")
  case None
  then obtain s' res where loop: "respond_loop client opts root (to_signature BigInt resp)
      MaxSentTxRetries (a\<lparr>taskMutex := False\<rparr>, w) = Ret (s', res)" and "snd s' = w'"
    using assms(1,6) by (auto simp: handle_eq response_root_def go_simps split: prod.splits)
  have "P (snd s')"
    using respond_loop_world [of P, OF _ assms(3-5) loop] assms(2) by simp
  with \<open>snd s' = w'\<close> show ?thesis by simp
qed (use assms(2,6) in \<open>simp add: handleBlsAggServiceResponse_def\<close>)

text \<open>A client whose world is the list of the roots that responses were sent for.\<close>

definition root_log_client :: "(bytes32 list, 'n, unit) eth_backend" where
  "root_log_client = \<lparr>
     RespondToTask = (\<lambda>opts r sig w. (if NoSend opts then w else w @ [r], Inr \<lparr>Gas = 200, Hash = [1]\<rparr>)),
     CreateNewTask = (\<lambda>opts r p w. (w, Inr \<lparr>Gas = 200, Hash = [1]\<rparr>)),
     TransactionReceipt = (\<lambda>h w. (w, Inr ())), Sleep = (\<lambda>t w. w), HashString = hex_encode\<rparr>"

theorem response_touches_own_root_witness:
  "\<exists>a' w' out. handleBlsAggServiceResponse id root_log_client \<lparr>NoSend = False, GasLimit = 0\<rparr>
      (example_response 0) ((new_aggregator ())\<lparr>batchesRootByIdx := [0 \<mapsto> [7]]\<rparr>, [])
        = Ret ((a', w'), out) \<and> set w' \<subseteq> {[7]}"
proof -
  let ?a = "(new_aggregator ())\<lparr>batchesRootByIdx := [0 \<mapsto> [7]]\<rparr>"
  obtain a' w' out where h: "handleBlsAggServiceResponse id root_log_client
      \<lparr>NoSend = False, GasLimit = 0\<rparr> (example_response 0) (?a, []) = Ret ((a', w'), out)"
    using handle_Ret [of id root_log_client "\<lparr>NoSend = False, GasLimit = 0\<rparr>"
        "example_response 0" "(?a, [])"] by auto
  have "set w' \<subseteq> {[7]}"
    by (rule response_touches_own_root [where P = "\<lambda>w. set w \<subseteq> {[7]}" and root = "[7]", OF _ _ _ _ _ h])
      (auto simp: example_response_def root_log_client_def)
  with h show ?thesis by auto
qed

end
