(* ===== verification/Agg_Subscriber.thy ===== *)
theory Agg_Subscriber
  imports Agg_Tasks
begin

text \<open>
  The aggregator's subscription to the contract's events
  (\<open>aggregator/internal/pkg/subscriber.go\<close>): the outer loop that subscribes again when the
  subscription fails, for at most \<open>MaxRetries\<close> rounds in the life of the process, and the
  inner loop that adds a task for every \<open>NewBatch\<close> event.

  What the channels deliver is an argument: for each round, the error of \<open>WatchNewBatch\<close>
  or the events in the order the \<open>select\<close> takes them. A list that ends without an error is
  a subscription that is still waiting.
\<close>

subsection \<open>The loops\<close>

datatype sub_event = SubErr string | NewBatchLog bytes32 u32

fun subscribeToNewTasks_inner ::
  "'b init_task \<Rightarrow> sub_event list \<Rightarrow> ('b, 'm) aggregator_scheme \<Rightarrow>
     (('b, 'm) aggregator_scheme \<times> string option) go" where
  "subscribeToNewTasks_inner init [] agg = Ret (agg, None)"
| "subscribeToNewTasks_inner init (SubErr err # evs) agg = Ret (agg, Some err)"
| "subscribeToNewTasks_inner init (NewBatchLog root blk # evs) agg =
     gbind (AddNewTask init root blk agg) (subscribeToNewTasks_inner init evs)"

definition tryCreateTaskSubscriber :: "string option \<Rightarrow> string option" where
  "tryCreateTaskSubscriber watchNewBatch = watchNewBatch"

definition MaxRetries :: nat where "MaxRetries = 100"

datatype 'a subscribed = Listening 'a | GaveUp string 'a

fun subscribe_loop ::
  "'b init_task \<Rightarrow> (nat \<Rightarrow> string option \<times> sub_event list) \<Rightarrow> nat \<Rightarrow> nat \<Rightarrow>
     ('b, 'm) aggregator_scheme \<Rightarrow> ('b, 'm) aggregator_scheme subscribed go" where
  "subscribe_loop init script 0 retries agg =
     Ret (GaveUp ''failed to subscribe to new tasks after max retries'' agg)"
| "subscribe_loop init script (Suc n) retries agg =
     (case tryCreateTaskSubscriber (fst (script retries)) of
        Some err \<Rightarrow> subscribe_loop init script n (Suc retries) agg
      | None \<Rightarrow>
          gbind (subscribeToNewTasks_inner init (snd (script retries)) agg) (\<lambda>(agg, err).
            case err of
              None \<Rightarrow> Ret (Listening agg)
            | Some _ \<Rightarrow> subscribe_loop init script n (Suc retries) agg))"

definition SubscribeToNewTasks ::
  "'b init_task \<Rightarrow> (nat \<Rightarrow> string option \<times> sub_event list) \<Rightarrow> ('b, 'm) aggregator_scheme \<Rightarrow>
     ('b, 'm) aggregator_scheme subscribed go" where
  "SubscribeToNewTasks init script agg = subscribe_loop init script MaxRetries 0 agg"

subsection \<open>What the loops do\<close>

text \<open>The roots of the events that precede the first error.\<close>

fun delivered :: "sub_event list \<Rightarrow> bytes32 list" where
  "delivered [] = []"
| "delivered (SubErr e # evs) = []"
| "delivered (NewBatchLog r b # evs) = r # delivered evs"

fun first_error :: "sub_event list \<Rightarrow> string option" where
  "first_error [] = None"
| "first_error (SubErr e # evs) = Some e"
| "first_error (NewBatchLog r b # evs) = first_error evs"

text \<open>A BLS service that accepts every task.\<close>

definition accepts_tasks :: "'b init_task \<Rightarrow> bool" where
  "accepts_tasks init \<longleftrightarrow> (\<forall>b i blk q t d. snd (init b i blk q t d) = None)"

lemma AddNewTask_accepted:
  assumes "accepts_tasks init"
  shows "\<exists>a'. AddNewTask init r blk a = Ret a'"
proof -
  obtain b e where 1: "init (blsAggregationService a) (nextBatchIndex a) blk [QUORUM_NUMBER]
      [QUORUM_THRESHOLD] (100 * second) = (b, e)" by fastforce
  have "e = None"
    using assms 1 unfolding accepts_tasks_def by (metis snd_conv)
  with 1 show ?thesis
    using AddNewTask_known [of a r init blk] AddNewTask_full [of a r init blk]
      AddNewTask_fresh [of a r init blk b] by blast
qed

lemma inner_accepted:
  "accepts_tasks init \<Longrightarrow> \<exists>a'. subscribeToNewTasks_inner init evs a = Ret (a', first_error evs)"
proof (induction evs arbitrary: a)
  case (Cons ev evs)
  show ?case
  proof (cases ev)
    case (NewBatchLog r b)
    then show ?thesis using Cons AddNewTask_accepted [of init r b a] by fastforce
  qed simp
qed simp

lemma inner_refines:
  "cache_abs rs a \<Longrightarrow> subscribeToNewTasks_inner init evs a = Ret (a', e) \<Longrightarrow>
     cache_abs (fold spec_add (delivered evs) rs) a' \<and> e = first_error evs"
proof (induction evs arbitrary: a rs)
  case (Cons ev evs)
  show ?case
  proof (cases ev)
    case (NewBatchLog r b)
    then obtain a1 where "AddNewTask init r b a = Ret a1"
      "subscribeToNewTasks_inner init evs a1 = Ret (a', e)"
      using Cons.prems by (auto simp: go_simps)
    then show ?thesis
      using NewBatchLog Cons.IH [OF AddNewTask_refines] Cons.prems(1) by simp
  qed (use Cons.prems in auto)
qed auto

text \<open>Every round that ends in an error uses one of the retries up, also when it had subscribed.\<close>

lemma subscribe_loop_exhausts:
  assumes "accepts_tasks init" "cache_abs rs a"
    and "\<And>k. k < n \<Longrightarrow> fst (script (m + k)) \<noteq> None \<or> first_error (snd (script (m + k))) \<noteq> None"
  shows "\<exists>a'. subscribe_loop init script n m a =
      Ret (GaveUp ''failed to subscribe to new tasks after max retries'' a') \<and>
    cache_abs (fold spec_add (concat (map (\<lambda>k. if fst (script k) = None
       then delivered (snd (script k)) else []) [m..<m + n])) rs) a'"
  using assms(2,3)
proof (induction n arbitrary: m a rs)
  case (Suc n)
  have rec: "fst (script (Suc m + k)) \<noteq> None \<or> first_error (snd (script (Suc m + k))) \<noteq> None"
    if "k < n" for k
    using Suc.prems(2) [of "Suc k"] that by simp
  have upt: "[m..<m + Suc n] = m # [Suc m..<Suc m + n]" by (simp add: upt_conv_Cons)
  show ?case
  proof (cases "fst (script m)")
    case (Some e)
    then show ?thesis
      using Suc.IH [OF Suc.prems(1) rec] unfolding upt
      by (auto simp: tryCreateTaskSubscriber_def)
  next
    case None
    obtain a1 where a1: "subscribeToNewTasks_inner init (snd (script m)) a =
        Ret (a1, first_error (snd (script m)))"
      using inner_accepted [OF assms(1)] by blast
    moreover obtain e where e: "first_error (snd (script m)) = Some e"
      using Suc.prems(2) [of 0] None by auto
    ultimately show ?thesis
      using None Suc.IH [OF conjunct1 [OF inner_refines [OF Suc.prems(1) a1]] rec] unfolding upt
      by (auto simp: tryCreateTaskSubscriber_def)
  qed
qed auto

lemma subscribe_loop_listens:
  assumes "cache_abs rs a" "fst (script m) = None" "first_error (snd (script m)) = None"
    "accepts_tasks init"
  shows "\<exists>a'. subscribe_loop init script (Suc n) m a = Ret (Listening a') \<and>
     cache_abs (fold spec_add (delivered (snd (script m))) rs) a'"
proof -
  obtain a1 where a1: "subscribeToNewTasks_inner init (snd (script m)) a =
      Ret (a1, first_error (snd (script m)))"
    using inner_accepted [OF assms(4)] by blast
  then show ?thesis
    using assms inner_refines [OF assms(1) a1] by (simp add: tryCreateTaskSubscriber_def)
qed

subsection \<open>Properties\<close>

lemma logging_init_accepts [simp]: "accepts_tasks logging_init"
  by (simp add: accepts_tasks_def logging_init_def)

text \<open>While its subscription lasts, a fresh aggregator gives every batch the position of its
  first event as index: the caches are exactly the list of distinct roots in order of arrival.\<close>

lemma tasks_get_arrival_index:
  assumes "accepts_tasks init" and "fst (script 0) = None" and "first_error (snd (script 0)) = None"
  shows "\<exists>a. SubscribeToNewTasks init script (new_aggregator b) = Ret (Listening a) \<and>
    (let rs = fold spec_add (delivered (snd (script 0))) [] in
      \<forall>r i. batchesIdxByRoot a r = Some i \<longleftrightarrow> unat i < length rs \<and> rs ! unat i = r)"
proof -
  obtain a where a: "subscribe_loop init script (Suc 99) 0 (new_aggregator b) = Ret (Listening a)"
      "cache_abs (fold spec_add (delivered (snd (script 0))) []) a"
    using subscribe_loop_listens [where m = 0 and script = script, OF cache_abs_new assms(2,3,1)] by blast
  have "SubscribeToNewTasks init script (new_aggregator b) = Ret (Listening a)"
    using a(1) by (simp add: SubscribeToNewTasks_def MaxRetries_def numeral_eq_Suc)
  moreover have "\<forall>r i. batchesIdxByRoot a r = Some i \<longleftrightarrow>
      unat i < length (fold spec_add (delivered (snd (script 0))) []) \<and>
      fold spec_add (delivered (snd (script 0))) [] ! unat i = r"
    using a(2) by (auto simp: cache_abs_def split: if_splits)
  ultimately show ?thesis by (simp add: Let_def)
qed

text \<open>The retries are a budget for the life of the process: after a hundred rounds that
  ended in an error the loop gives up, even when every round had subscribed and had delivered
  batches; the tasks of all those rounds are in the caches.\<close>

theorem subscriber_gives_up:
  assumes "accepts_tasks init"
    and "\<And>k. k < MaxRetries \<Longrightarrow> fst (script k) \<noteq> None \<or> first_error (snd (script k)) \<noteq> None"
  shows "\<exists>a. SubscribeToNewTasks init script (new_aggregator b) =
      Ret (GaveUp ''failed to subscribe to new tasks after max retries'' a) \<and>
    cache_abs (fold spec_add (concat (map (\<lambda>k. if fst (script k) = None
       then delivered (snd (script k)) else []) [0..<MaxRetries])) []) a"
  using subscribe_loop_exhausts [OF assms(1) cache_abs_new, of MaxRetries script 0] assms(2)
  by (simp add: SubscribeToNewTasks_def)

theorem subscriber_gives_up_witness:
  "\<exists>a. SubscribeToNewTasks logging_init (\<lambda>_. (None, [SubErr ''closed''])) (new_aggregator []) =
      Ret (GaveUp ''failed to subscribe to new tasks after max retries'' a)"
  using subscriber_gives_up [of logging_init "\<lambda>_. (None, [SubErr ''closed''])" "[]"] by auto

end
