(* ===== verification/Config.thy ===== *)
theory Config
  imports Go_Base
begin

text \<open>
  The configuration loaders (\<open>core/config\<close>): each checks that its file exists, reads it, checks
  the fields it needs and ends the process (\<open>log.Fatal\<close>) when something is wrong. Only
  \<open>NewBaseConfig\<close> has a way to return nil, when the chain's identifier cannot be read; its
  callers end the process then. The other constructors never return nil, so the callers' checks
  of their results are dead code and have no counterpart here.

  The file system and the libraries are the argument \<open>config_env\<close>; loggers, clients, keys and
  signers are handles of one opaque type.
\<close>

type_synonym address = bytes

text \<open>\<open>common.HexToAddress("")\<close>\<close>

definition zero_address :: address where "zero_address = replicate 20 0"

subsection \<open>The data\<close>

record AlignedLayerDeploymentConfig =
  AlignedLayerServiceManagerAddr :: address
  AlignedLayerRegistryCoordinatorAddr :: address
  AlignedLayerOperatorStateRetrieverAddr :: address

record EigenLayerDeploymentConfig =
  DelegationManagerAddr :: address
  AVSDirectoryAddr :: address
  SlasherAddr :: address

record BaseConfigFromYaml =
  yaml_AlignedLayerDeploymentConfigFilePath :: string
  yaml_EigenLayerDeploymentConfigFilePath :: string
  yaml_Environment :: string
  yaml_EthRpcUrl :: string
  yaml_EthWsUrl :: string
  yaml_EigenMetricsIpPortAddress :: string

record 'h BaseConfig =
  Base_AlignedLayerDeploymentConfig :: AlignedLayerDeploymentConfig
  Base_EigenLayerDeploymentConfig :: EigenLayerDeploymentConfig
  Logger :: 'h
  EthRpcUrl :: string
  EthWsUrl :: string
  EthRpcClient :: 'h
  EthWsClient :: 'h
  EigenMetricsIpPortAddress :: string
  ChainId :: int

record KeyStoreFromYaml =
  PrivateKeyStorePath :: string
  PrivateKeyStorePassword :: string

record 'h BlsConfig =
  KeyPair :: 'h

record 'h EcdsaConfig =
  PrivateKey :: 'h
  Signer :: 'h

record AggregatorSection =
  ServerIpPortAddress :: string
  BlsPublicKeyCompendiumAddress :: address
  AvsServiceManagerAddress :: address
  agg_EnableMetrics :: bool
  agg_MetricsIpPortAddress :: string

record OperatorSection =
  AggregatorServerIpPortAddress :: string
  Address :: address
  EarningsReceiverAddress :: address
  DelegationApproverAddress :: address
  StakerOptOutWindowBlocks :: int
  MetadataUrl :: string
  RegisterOperatorOnStartup :: bool
  EnableMetrics :: bool
  MetricsIpPortAddress :: string
  MaxBatchSize :: int

record 'h AggregatorConfig =
  agg_BaseConfig :: "'h BaseConfig"
  agg_EcdsaConfig :: "'h EcdsaConfig"
  agg_BlsConfig :: "'h BlsConfig"
  agg_Section :: AggregatorSection

record 'h OperatorConfig =
  op_BaseConfig :: "'h BaseConfig"
  op_EcdsaConfig :: "'h EcdsaConfig"
  op_BlsConfig :: "'h BlsConfig"
  op_AlignedLayerDeploymentConfig :: AlignedLayerDeploymentConfig
  op_Section :: OperatorSection

record 'h TaskSenderConfig =
  ts_BaseConfig :: "'h BaseConfig"
  ts_EcdsaConfig :: "'h EcdsaConfig"

record 'h config_env =
  not_exist :: "string \<Rightarrow> bool"
  read_base :: "string \<Rightarrow> BaseConfigFromYaml result"
  read_bls :: "string \<Rightarrow> KeyStoreFromYaml result"
  read_ecdsa :: "string \<Rightarrow> KeyStoreFromYaml result"
  read_aggregator :: "string \<Rightarrow> AggregatorSection result"
  read_operator :: "string \<Rightarrow> OperatorSection result"
  read_aligned :: "string \<Rightarrow> AlignedLayerDeploymentConfig result"
  read_eigen :: "string \<Rightarrow> EigenLayerDeploymentConfig result"
  NewZapLogger :: "string \<Rightarrow> 'h result"
  eth_NewClient :: "string \<Rightarrow> 'h result"
  eth_ChainID :: "'h \<Rightarrow> int result"
  bls_ReadPrivateKeyFromFile :: "string \<Rightarrow> string \<Rightarrow> 'h result"
  ecdsa_ReadKey :: "string \<Rightarrow> string \<Rightarrow> 'h result"
  NewPrivateKeySigner :: "'h \<Rightarrow> int \<Rightarrow> 'h result"

subsection \<open>The deployments\<close>

definition NewAlignedLayerDeploymentConfig ::
  "'h config_env \<Rightarrow> string \<Rightarrow> AlignedLayerDeploymentConfig go" where
  "NewAlignedLayerDeploymentConfig env path =
     gbind (fatal_if (not_exist env path) ''Setup aligned layer deployment file does not exist'') (\<lambda>_.
     gbind (or_fatal ''Error reading aligned layer deployment config: '' (read_aligned env path)) (\<lambda>j.
     gbind (fatal_if (AlignedLayerServiceManagerAddr j = zero_address)
       ''Aligned layer service manager address is empty'') (\<lambda>_.
     gbind (fatal_if (AlignedLayerRegistryCoordinatorAddr j = zero_address)
       ''Aligned layer registry coordinator address is empty'') (\<lambda>_.
     gbind (fatal_if (AlignedLayerOperatorStateRetrieverAddr j = zero_address)
       ''Aligned layer operator state retriever address is empty'') (\<lambda>_.
     Ret \<lparr>AlignedLayerServiceManagerAddr = AlignedLayerServiceManagerAddr j,
          AlignedLayerRegistryCoordinatorAddr = AlignedLayerRegistryCoordinatorAddr j,
          AlignedLayerOperatorStateRetrieverAddr = AlignedLayerOperatorStateRetrieverAddr j\<rparr>)))))"

definition NewEigenLayerDeploymentConfig ::
  "'h config_env \<Rightarrow> string \<Rightarrow> EigenLayerDeploymentConfig go" where
  "NewEigenLayerDeploymentConfig env path =
     gbind (fatal_if (not_exist env path) ''Setup eigen layer deployment file does not exist'') (\<lambda>_.
     gbind (or_fatal ''Error reading eigen layer deployment config: '' (read_eigen env path)) (\<lambda>j.
     gbind (fatal_if (DelegationManagerAddr j = zero_address)
       ''Delegation manager address is empty'') (\<lambda>_.
     gbind (fatal_if (AVSDirectoryAddr j = zero_address) ''AVS directory address is empty'') (\<lambda>_.
     gbind (fatal_if (SlasherAddr j = zero_address) ''Slasher address is empty'') (\<lambda>_.
     Ret \<lparr>DelegationManagerAddr = DelegationManagerAddr j, AVSDirectoryAddr = AVSDirectoryAddr j,
          SlasherAddr = SlasherAddr j\<rparr>)))))"

subsection \<open>The base configuration\<close>

definition NewLogger :: "'h config_env \<Rightarrow> string \<Rightarrow> 'h result" where
  "NewLogger env loggingLevel = rbind (NewZapLogger env loggingLevel) (\<lambda>logger. Inr logger)"

text \<open>\<open>None\<close> is a nil pointer.\<close>

definition NewBaseConfig :: "'h config_env \<Rightarrow> string \<Rightarrow> 'h BaseConfig option go" where
  "NewBaseConfig env path =
     gbind (fatal_if (not_exist env path) ''Setup base config file does not exist'') (\<lambda>_.
     gbind (or_fatal ''Error reading setup config: '' (read_base env path)) (\<lambda>y.
     let alignedPath = yaml_AlignedLayerDeploymentConfigFilePath y in
     gbind (fatal_if (alignedPath = []) ''Aligned layer deployment config file path is empty'') (\<lambda>_.
     gbind (fatal_if (not_exist env alignedPath)
       ''Setup aligned layer deployment file does not exist'') (\<lambda>_.
     gbind (NewAlignedLayerDeploymentConfig env alignedPath) (\<lambda>aligned.
     let eigenPath = yaml_EigenLayerDeploymentConfigFilePath y in
     gbind (fatal_if (eigenPath = []) ''Eigen layer deployment config file path is empty'') (\<lambda>_.
     gbind (fatal_if (not_exist env eigenPath)
       ''Setup eigen layer deployment file does not exist'') (\<lambda>_.
     gbind (NewEigenLayerDeploymentConfig env eigenPath) (\<lambda>eigen.
     gbind (or_fatal ''Error initializing logger: '' (NewLogger env (yaml_Environment y))) (\<lambda>logger.
     gbind (fatal_if (yaml_EthWsUrl y = []) ''Eth ws url is empty'') (\<lambda>_.
     gbind (or_fatal ''Error initializing eth ws client: '' (eth_NewClient env (yaml_EthWsUrl y))) (\<lambda>ws.
     gbind (fatal_if (yaml_EthRpcUrl y = []) ''Eth rpc url is empty'') (\<lambda>_.
     gbind (or_fatal ''Error initializing eth rpc client: '' (eth_NewClient env (yaml_EthRpcUrl y))) (\<lambda>rpc.
     case eth_ChainID env rpc of
       Inl err \<Rightarrow> Ret None
     | Inr chainId \<Rightarrow>
     gbind (fatal_if (yaml_EigenMetricsIpPortAddress y = [])
       ''Eigen metrics ip port address is empty'') (\<lambda>_.
     Ret (Some \<lparr>Base_AlignedLayerDeploymentConfig = aligned, Base_EigenLayerDeploymentConfig = eigen,
       Logger = logger, EthRpcUrl = yaml_EthRpcUrl y, EthWsUrl = yaml_EthWsUrl y, EthRpcClient = rpc,
       EthWsClient = ws, EigenMetricsIpPortAddress = yaml_EigenMetricsIpPortAddress y,
       ChainId = chainId\<rparr>)))))))))))))))"

subsection \<open>Keys\<close>

definition NewBlsConfig :: "'h config_env \<Rightarrow> string \<Rightarrow> 'h BlsConfig go" where
  "NewBlsConfig env path =
     gbind (fatal_if (not_exist env path) ''Setup bls config file does not exist'') (\<lambda>_.
     gbind (or_fatal ''Error reading bls config: '' (read_bls env path)) (\<lambda>y.
     gbind (fatal_if (PrivateKeyStorePath y = []) ''Bls private key store path is empty'') (\<lambda>_.
     gbind (or_fatal ''Error reading bls private key from file: ''
       (bls_ReadPrivateKeyFromFile env (PrivateKeyStorePath y) (PrivateKeyStorePassword y))) (\<lambda>k.
     Ret \<lparr>KeyPair = k\<rparr>))))"

definition NewEcdsaConfig :: "'h config_env \<Rightarrow> string \<Rightarrow> int \<Rightarrow> 'h EcdsaConfig go" where
  "NewEcdsaConfig env path chainId =
     gbind (fatal_if (not_exist env path) ''Setup ecdsa config file does not exist'') (\<lambda>_.
     gbind (or_fatal ''Error reading ecdsa config: '' (read_ecdsa env path)) (\<lambda>y.
     gbind (fatal_if (PrivateKeyStorePath y = []) ''Ecdsa private key store path is empty'') (\<lambda>_.
     gbind (or_fatal ''Error reading ecdsa private key from file: ''
       (ecdsa_ReadKey env (PrivateKeyStorePath y) (PrivateKeyStorePassword y))) (\<lambda>k.
     gbind (or_fatal ''Error creating private key signer: '' (NewPrivateKeySigner env k chainId)) (\<lambda>s.
     Ret \<lparr>PrivateKey = k, Signer = s\<rparr>)))))"

subsection \<open>The programs' configurations\<close>

text \<open>The dereference of a pointer that is nil only after a fatal error.\<close>

fun deref :: "'a option \<Rightarrow> 'a go" where
  "deref None = Panic"
| "deref (Some x) = Ret x"

definition read_base_config :: "'h config_env \<Rightarrow> string \<Rightarrow> 'h BaseConfig go" where
  "read_base_config env path =
     gbind (fatal_if (not_exist env path) ''Setup config file does not exist'') (\<lambda>_.
     gbind (NewBaseConfig env path) (\<lambda>baseConfig.
     gbind (fatal_if (baseConfig = None) ''Error reading base config: '') (\<lambda>_.
     deref baseConfig)))"

definition NewAggregatorConfig :: "'h config_env \<Rightarrow> string \<Rightarrow> 'h AggregatorConfig go" where
  "NewAggregatorConfig env path =
     gbind (read_base_config env path) (\<lambda>baseConfig.
     gbind (NewEcdsaConfig env path (ChainId baseConfig)) (\<lambda>ecdsaConfig.
     gbind (NewBlsConfig env path) (\<lambda>blsConfig.
     gbind (or_fatal ''Error reading aggregator config: '' (read_aggregator env path)) (\<lambda>y.
     Ret \<lparr>agg_BaseConfig = baseConfig, agg_EcdsaConfig = ecdsaConfig, agg_BlsConfig = blsConfig,
          agg_Section = y\<rparr>))))"

definition NewOperatorConfig :: "'h config_env \<Rightarrow> string \<Rightarrow> 'h OperatorConfig go" where
  "NewOperatorConfig env path =
     gbind (read_base_config env path) (\<lambda>baseConfig.
     gbind (NewEcdsaConfig env path (ChainId baseConfig)) (\<lambda>ecdsaConfig.
     gbind (NewBlsConfig env path) (\<lambda>blsConfig.
     gbind (or_fatal ''Error reading operator config: '' (read_operator env path)) (\<lambda>y.
     Ret \<lparr>op_BaseConfig = baseConfig, op_EcdsaConfig = ecdsaConfig, op_BlsConfig = blsConfig,
          op_AlignedLayerDeploymentConfig = Base_AlignedLayerDeploymentConfig baseConfig,
          op_Section = y\<rparr>))))"

definition NewTaskSenderConfig :: "'h config_env \<Rightarrow> string \<Rightarrow> 'h TaskSenderConfig go" where
  "NewTaskSenderConfig env path =
     gbind (read_base_config env path) (\<lambda>baseConfig.
     gbind (NewEcdsaConfig env path (ChainId baseConfig)) (\<lambda>ecdsaConfig.
     Ret \<lparr>ts_BaseConfig = baseConfig, ts_EcdsaConfig = ecdsaConfig\<rparr>))"

subsection \<open>What a loaded configuration guarantees\<close>

definition aligned_wf :: "AlignedLayerDeploymentConfig \<Rightarrow> bool" where
  "aligned_wf d \<longleftrightarrow>
     zero_address \<notin> {AlignedLayerServiceManagerAddr d, AlignedLayerRegistryCoordinatorAddr d,
       AlignedLayerOperatorStateRetrieverAddr d}"

definition eigen_wf :: "EigenLayerDeploymentConfig \<Rightarrow> bool" where
  "eigen_wf d \<longleftrightarrow> zero_address \<notin> {DelegationManagerAddr d, AVSDirectoryAddr d, SlasherAddr d}"

text \<open>All addresses are set, all URLs are given, and the clients are the URLs' clients.\<close>

definition base_wf :: "'h config_env \<Rightarrow> 'h BaseConfig \<Rightarrow> bool" where
  "base_wf env b \<longleftrightarrow>
     aligned_wf (Base_AlignedLayerDeploymentConfig b) \<and> eigen_wf (Base_EigenLayerDeploymentConfig b)
     \<and> EthRpcUrl b \<noteq> [] \<and> EthWsUrl b \<noteq> [] \<and> EigenMetricsIpPortAddress b \<noteq> []
     \<and> eth_NewClient env (EthRpcUrl b) = Inr (EthRpcClient b)
     \<and> eth_NewClient env (EthWsUrl b) = Inr (EthWsClient b)
     \<and> eth_ChainID env (EthRpcClient b) = Inr (ChainId b)"

lemma aligned_loaded: "NewAlignedLayerDeploymentConfig env path = Ret d \<Longrightarrow> aligned_wf d"
  by (auto simp: NewAlignedLayerDeploymentConfig_def go_simps aligned_wf_def)

lemma eigen_loaded: "NewEigenLayerDeploymentConfig env path = Ret d \<Longrightarrow> eigen_wf d"
  by (auto simp: NewEigenLayerDeploymentConfig_def go_simps eigen_wf_def)

lemma deployments_no_panic [simp]:
  "NewAlignedLayerDeploymentConfig env path \<noteq> Panic" "NewEigenLayerDeploymentConfig env path \<noteq> Panic"
  by (simp_all add: NewAlignedLayerDeploymentConfig_def NewEigenLayerDeploymentConfig_def gbind_Panic_iff)

lemma nil_case_iff:
  "(case x of Inl e \<Rightarrow> Ret None | Inr c \<Rightarrow> f c) = Ret (Some b) \<longleftrightarrow> (\<exists>c. x = Inr c \<and> f c = Ret (Some b))"
  by (cases x) simp_all

lemma base_loaded: "NewBaseConfig env path = Ret (Some b) \<Longrightarrow> base_wf env b"
  by (auto simp: NewBaseConfig_def Let_def go_simps nil_case_iff base_wf_def aligned_loaded eigen_loaded)

lemma base_no_panic [simp]: "NewBaseConfig env path \<noteq> Panic"
  by (auto simp: NewBaseConfig_def Let_def gbind_Panic_iff split: sum.splits)

lemma read_base_loaded: "read_base_config env path = Ret b \<Longrightarrow> base_wf env b"
  by (auto simp: read_base_config_def go_simps base_loaded)

lemma read_base_no_panic [simp]: "read_base_config env path \<noteq> Panic"
  by (auto simp: read_base_config_def gbind_Panic_iff go_simps)

lemma keys_no_panic [simp]: "NewEcdsaConfig env path c \<noteq> Panic" "NewBlsConfig env path \<noteq> Panic"
  by (simp_all add: NewEcdsaConfig_def NewBlsConfig_def gbind_Panic_iff)

lemma ecdsa_loaded:
  "NewEcdsaConfig env path c = Ret e \<Longrightarrow> NewPrivateKeySigner env (PrivateKey e) c = Inr (Signer e)"
  by (auto simp: NewEcdsaConfig_def go_simps)

definition config_wf :: "'h config_env \<Rightarrow> 'h BaseConfig \<Rightarrow> 'h EcdsaConfig \<Rightarrow> bool" where
  "config_wf env b e \<longleftrightarrow> base_wf env b \<and> NewPrivateKeySigner env (PrivateKey e) (ChainId b) = Inr (Signer e)"

subsection \<open>Properties\<close>


end
