(* ===== verification/Chain_Clients.thy ===== *)
theory Chain_Clients
  imports Config
begin

text \<open>
  The objects through which the programs reach the chain (\<open>core/chainio\<close>): the bindings of the
  service manager, the reader, the writer and the subscriber, each built from the base
  configuration; and the metrics of \<open>metrics/metrics.go\<close>. What the SDK and the generated bindings
  do is the argument \<open>sdk\<close>; their objects are handles.
\<close>

subsection \<open>The SDK\<close>

record BuildAllConfig =
  EthHttpUrl :: string
  build_EthWsUrl :: string
  RegistryCoordinatorAddr :: string
  OperatorStateRetrieverAddr :: string
  AvsName :: string
  PromMetricsIpPortAddress :: string

record 'h sdk_clients =
  AvsRegistryChainReader :: 'h
  AvsRegistryChainWriter :: 'h
  AvsRegistryChainSubscriber :: 'h

record 'h sdk =
  BuildAll :: "BuildAllConfig \<Rightarrow> 'h \<Rightarrow> 'h \<Rightarrow> 'h sdk_clients result"
  NewContractAlignedLayerServiceManager :: "address \<Rightarrow> 'h \<Rightarrow> 'h result"
  NewContractERC20Mock :: "address \<Rightarrow> 'h \<Rightarrow> 'h result"
  sdk_NewPrivateKeySigner :: "'h \<Rightarrow> int \<Rightarrow> 'h result"
  address_String :: "address \<Rightarrow> string"
  registry_IsOperatorRegistered :: "'h \<Rightarrow> address \<Rightarrow> bool result"
  registry_RegisterOperator ::
    "'h \<Rightarrow> 'h \<Rightarrow> bytes32 \<Rightarrow> int \<Rightarrow> 'h \<Rightarrow> u8 list \<Rightarrow> string \<Rightarrow> string option"
  WatchNewBatch :: "'h \<Rightarrow> 'h result"

subsection \<open>Bindings\<close>

record 'h AvsServiceBindings =
  ServiceManager :: 'h
  ethClient :: 'h
  bindings_logger :: 'h

definition NewAvsServiceBindings ::
  "'h sdk \<Rightarrow> address \<Rightarrow> address \<Rightarrow> 'h \<Rightarrow> 'h \<Rightarrow> 'h AvsServiceBindings result" where
  "NewAvsServiceBindings S serviceManagerAddr blsOperatorStateRetrieverAddr ethclient logger =
     rbind (NewContractAlignedLayerServiceManager S serviceManagerAddr ethclient) (\<lambda>contractServiceManager.
     Inr \<lparr>ServiceManager = contractServiceManager, ethClient = ethclient, bindings_logger = logger\<rparr>)"

definition buildAllConfig :: "'h sdk \<Rightarrow> 'h BaseConfig \<Rightarrow> BuildAllConfig" where
  "buildAllConfig S baseConfig =
     (let d = Base_AlignedLayerDeploymentConfig baseConfig in
      \<lparr>EthHttpUrl = EthRpcUrl baseConfig, build_EthWsUrl = EthWsUrl baseConfig,
       RegistryCoordinatorAddr = address_String S (AlignedLayerRegistryCoordinatorAddr d),
       OperatorStateRetrieverAddr = address_String S (AlignedLayerOperatorStateRetrieverAddr d),
       AvsName = ''AlignedLayer'',
       PromMetricsIpPortAddress = EigenMetricsIpPortAddress baseConfig\<rparr>)"

text \<open>The bindings of a base configuration, over one of its two clients.\<close>

definition base_bindings :: "'h sdk \<Rightarrow> 'h BaseConfig \<Rightarrow> 'h \<Rightarrow> 'h AvsServiceBindings result" where
  "base_bindings S baseConfig client =
     NewAvsServiceBindings S
       (AlignedLayerServiceManagerAddr (Base_AlignedLayerDeploymentConfig baseConfig))
       (AlignedLayerOperatorStateRetrieverAddr (Base_AlignedLayerDeploymentConfig baseConfig))
       client (Logger baseConfig)"

subsection \<open>Reader\<close>

record 'h AvsReader =
  AvsRegistryReader :: 'h
  reader_AvsContractBindings :: "'h AvsServiceBindings"
  reader_logger :: 'h

definition NewAvsReaderFromConfig ::
  "'h sdk \<Rightarrow> 'h BaseConfig \<Rightarrow> 'h EcdsaConfig \<Rightarrow> 'h AvsReader result" where
  "NewAvsReaderFromConfig S baseConfig ecdsaConfig =
     rbind (BuildAll S (buildAllConfig S baseConfig) (PrivateKey ecdsaConfig) (Logger baseConfig)) (\<lambda>clients.
     rbind (base_bindings S baseConfig (EthRpcClient baseConfig)) (\<lambda>avsServiceBindings.
     Inr \<lparr>AvsRegistryReader = AvsRegistryChainReader clients,
          reader_AvsContractBindings = avsServiceBindings, reader_logger = Logger baseConfig\<rparr>))"

definition GetErc20Mock :: "'h sdk \<Rightarrow> 'h AvsReader \<Rightarrow> address \<Rightarrow> 'h result" where
  "GetErc20Mock S r tokenAddr =
     rbind (NewContractERC20Mock S tokenAddr (ethClient (reader_AvsContractBindings r)))
       (\<lambda>erc20Mock. Inr erc20Mock)"

definition IsOperatorRegistered :: "'h sdk \<Rightarrow> 'h AvsReader \<Rightarrow> address \<Rightarrow> bool result" where
  "IsOperatorRegistered S r addr = registry_IsOperatorRegistered S (AvsRegistryReader r) addr"

subsection \<open>Writer\<close>

record 'h AvsWriter =
  AvsRegistryWriter :: 'h
  writer_AvsContractBindings :: "'h AvsServiceBindings"
  writer_logger :: 'h
  writer_Signer :: 'h
  writer_Client :: 'h

definition NewAvsWriterFromConfig ::
  "'h sdk \<Rightarrow> 'h BaseConfig \<Rightarrow> 'h EcdsaConfig \<Rightarrow> 'h AvsWriter result" where
  "NewAvsWriterFromConfig S baseConfig ecdsaConfig =
     rbind (BuildAll S (buildAllConfig S baseConfig) (PrivateKey ecdsaConfig) (Logger baseConfig)) (\<lambda>clients.
     rbind (base_bindings S baseConfig (EthRpcClient baseConfig)) (\<lambda>avsServiceBindings.
     rbind (sdk_NewPrivateKeySigner S (PrivateKey ecdsaConfig) (ChainId baseConfig)) (\<lambda>privateKeySigner.
     Inr \<lparr>AvsRegistryWriter = AvsRegistryChainWriter clients,
          writer_AvsContractBindings = avsServiceBindings, writer_logger = Logger baseConfig,
          writer_Signer = privateKeySigner, writer_Client = EthRpcClient baseConfig\<rparr>)))"

subsection \<open>Subscriber\<close>

record 'h AvsSubscriber =
  subscriber_AvsContractBindings :: "'h AvsServiceBindings"
  subscriber_logger :: 'h

definition NewAvsSubscriberFromConfig :: "'h sdk \<Rightarrow> 'h BaseConfig \<Rightarrow> 'h AvsSubscriber result" where
  "NewAvsSubscriberFromConfig S baseConfig =
     rbind (base_bindings S baseConfig (EthWsClient baseConfig)) (\<lambda>avsContractBindings.
     Inr \<lparr>subscriber_AvsContractBindings = avsContractBindings,
          subscriber_logger = Logger baseConfig\<rparr>)"

text \<open>
  The error is only logged, and what \<open>WatchNewBatch\<close> returned with it, a nil subscription, is
  returned: \<open>None\<close>.
\<close>

definition AvsSubscriber_SubscribeToNewTasks :: "'h sdk \<Rightarrow> 'h AvsSubscriber \<Rightarrow> 'h option" where
  "AvsSubscriber_SubscribeToNewTasks S s =
     (case WatchNewBatch S (ServiceManager (subscriber_AvsContractBindings s)) of
        Inl err \<Rightarrow> None
      | Inr sub \<Rightarrow> Some sub)"

subsection \<open>Metrics\<close>

record Metrics =
  ipPortAddress :: string
  metric_aggregated_responses :: nat
  metric_operator_responses :: nat

definition NewMetrics :: "string \<Rightarrow> Metrics" where
  "NewMetrics addr =
     \<lparr>ipPortAddress = addr, metric_aggregated_responses = 0, metric_operator_responses = 0\<rparr>"

text \<open>The value the channel of errors delivers once the server has ended.\<close>

definition Metrics_Start ::
  "(string \<Rightarrow> string option) \<Rightarrow> (string \<Rightarrow> string \<Rightarrow> string) \<Rightarrow> Metrics \<Rightarrow> string option" where
  "Metrics_Start ListenAndServe WrapError m =
     (case ListenAndServe (ipPortAddress m) of
        None \<Rightarrow> None
      | Some err \<Rightarrow> Some (WrapError ''prometheus server failed'' err))"

definition IncOperatorTaskResponses :: "Metrics \<Rightarrow> Metrics" where
  "IncOperatorTaskResponses m = m\<lparr>metric_operator_responses := Suc (metric_operator_responses m)\<rparr>"

definition Metrics_IncAggregatedResponses :: "Metrics \<Rightarrow> Metrics" where
  "Metrics_IncAggregatedResponses m = m\<lparr>metric_aggregated_responses := Suc (metric_aggregated_responses m)\<rparr>"

subsection \<open>All clients speak to one contract\<close>

lemma base_bindings_Inr:
  "base_bindings S b client = Inr bs \<longleftrightarrow>
     NewContractAlignedLayerServiceManager S
       (AlignedLayerServiceManagerAddr (Base_AlignedLayerDeploymentConfig b)) client
         = Inr (ServiceManager bs)
     \<and> ethClient bs = client \<and> bindings_logger bs = Logger b"
  by (cases bs) (auto simp: base_bindings_def NewAvsServiceBindings_def go_simps)

lemma reader_built:
  "NewAvsReaderFromConfig S b e = Inr r \<Longrightarrow>
     base_bindings S b (EthRpcClient b) = Inr (reader_AvsContractBindings r)"
  by (auto simp: NewAvsReaderFromConfig_def go_simps)

lemma writer_built:
  "NewAvsWriterFromConfig S b e = Inr w \<Longrightarrow>
     base_bindings S b (EthRpcClient b) = Inr (writer_AvsContractBindings w)
     \<and> sdk_NewPrivateKeySigner S (PrivateKey e) (ChainId b) = Inr (writer_Signer w)
     \<and> writer_Client w = EthRpcClient b"
  by (auto simp: NewAvsWriterFromConfig_def go_simps)

lemma subscriber_built:
  "NewAvsSubscriberFromConfig S b = Inr s \<Longrightarrow>
     base_bindings S b (EthWsClient b) = Inr (subscriber_AvsContractBindings s)"
  by (auto simp: NewAvsSubscriberFromConfig_def go_simps)

subsection \<open>An example environment\<close>

text \<open>Files that are complete, and libraries in which every call works.\<close>

definition example_env :: "nat config_env" where
  "example_env = \<lparr>not_exist = \<lambda>_. False,
     read_base = \<lambda>_. Inr \<lparr>yaml_AlignedLayerDeploymentConfigFilePath = ''a'',
       yaml_EigenLayerDeploymentConfigFilePath = ''e'', yaml_Environment = ''production'',
       yaml_EthRpcUrl = ''h'', yaml_EthWsUrl = ''w'', yaml_EigenMetricsIpPortAddress = ''m''\<rparr>,
     read_bls = \<lambda>_. Inr \<lparr>PrivateKeyStorePath = ''b'', PrivateKeyStorePassword = []\<rparr>,
     read_ecdsa = \<lambda>_. Inr \<lparr>PrivateKeyStorePath = ''k'', PrivateKeyStorePassword = []\<rparr>,
     read_aggregator = \<lambda>_. Inl ''none'', read_operator = \<lambda>_. Inr \<lparr>AggregatorServerIpPortAddress = ''a'', Address = [7],
       EarningsReceiverAddress = [7], DelegationApproverAddress = [7], StakerOptOutWindowBlocks = 0,
       MetadataUrl = [], RegisterOperatorOnStartup = True, EnableMetrics = False,
       MetricsIpPortAddress = ''m'', MaxBatchSize = 1000\<rparr>,
     read_aligned = \<lambda>_. Inr \<lparr>AlignedLayerServiceManagerAddr = [1],
       AlignedLayerRegistryCoordinatorAddr = [2], AlignedLayerOperatorStateRetrieverAddr = [3]\<rparr>,
     read_eigen = \<lambda>_. Inr \<lparr>DelegationManagerAddr = [4], AVSDirectoryAddr = [5], SlasherAddr = [6]\<rparr>,
     NewZapLogger = \<lambda>_. Inr 0, eth_NewClient = \<lambda>_. Inr 1, eth_ChainID = \<lambda>_. Inr 17000,
     bls_ReadPrivateKeyFromFile = \<lambda>_ _. Inr 2, ecdsa_ReadKey = \<lambda>_ _. Inr 3,
     NewPrivateKeySigner = \<lambda>_ _. Inr 4\<rparr>"

definition example_sdk :: "nat sdk" where
  "example_sdk = \<lparr>BuildAll = \<lambda>c k l. Inr \<lparr>AvsRegistryChainReader = 1, AvsRegistryChainWriter = 2,
       AvsRegistryChainSubscriber = 3\<rparr>,
     NewContractAlignedLayerServiceManager = \<lambda>a c. Inr c, NewContractERC20Mock = \<lambda>a c. Inr c,
     sdk_NewPrivateKeySigner = \<lambda>k c. Inr k, address_String = hex_encode,
     registry_IsOperatorRegistered = \<lambda>r a. Inr True, registry_RegisterOperator = \<lambda>w k s e b q t. None,
     WatchNewBatch = \<lambda>m. Inr m\<rparr>"

lemma short_not_zero: "length a \<noteq> 20 \<Longrightarrow> a \<noteq> zero_address"
  by (auto simp: zero_address_def)

lemma example_deployments:
  "\<exists>d. NewAlignedLayerDeploymentConfig example_env path = Ret d"
  "\<exists>d. NewEigenLayerDeploymentConfig example_env path = Ret d"
  by (simp_all add: NewAlignedLayerDeploymentConfig_def NewEigenLayerDeploymentConfig_def
      example_env_def fatal_if_def short_not_zero)

lemma example_base_config: "\<exists>b. NewBaseConfig example_env path = Ret (Some b)"
proof -
  obtain d e where "NewAlignedLayerDeploymentConfig example_env ''a'' = Ret d"
    "NewEigenLayerDeploymentConfig example_env ''e'' = Ret e" using example_deployments by blast
  moreover have "not_exist example_env f = False" "NewLogger example_env l = Inr 0"
    "eth_NewClient example_env u = Inr 1" "eth_ChainID example_env c = Inr 17000"
    "read_base example_env f = Inr \<lparr>yaml_AlignedLayerDeploymentConfigFilePath = ''a'',
       yaml_EigenLayerDeploymentConfigFilePath = ''e'', yaml_Environment = ''production'',
       yaml_EthRpcUrl = ''h'', yaml_EthWsUrl = ''w'', yaml_EigenMetricsIpPortAddress = ''m''\<rparr>" for f l u c
    by (simp_all add: example_env_def NewLogger_def)
  ultimately show ?thesis by (simp add: NewBaseConfig_def fatal_if_def Let_def)
qed

lemma example_ecdsa: "NewEcdsaConfig example_env path c = Ret \<lparr>PrivateKey = 3, Signer = 4\<rparr>"
  by (simp add: NewEcdsaConfig_def example_env_def fatal_if_def)

lemma example_config: "\<exists>cfg. NewTaskSenderConfig example_env path = Ret cfg"
proof -
  obtain b where "NewBaseConfig example_env path = Ret (Some b)" using example_base_config by blast
  moreover have "not_exist example_env f = False" for f by (simp add: example_env_def)
  ultimately show ?thesis
    by (simp add: NewTaskSenderConfig_def read_base_config_def fatal_if_def example_ecdsa)
qed

lemma example_writer: "\<exists>w. NewAvsWriterFromConfig example_sdk b e = Inr w"
  by (simp add: NewAvsWriterFromConfig_def example_sdk_def base_bindings_def NewAvsServiceBindings_def)

end
