(* ===== verification/Aggregator_Main.thy ===== *)
theory Aggregator_Main
  imports Agg_Server Agg_Response Agg_Subscriber Chain_Clients
begin

text \<open>
  The aggregator's program (\<open>NewAggregator\<close>, \<open>Start\<close>, \<open>ServeOperators\<close> and
  \<open>aggregator/cmd/main.go\<close>): how it is built from its configuration, and the main loop, which
  starts a goroutine for every answer of the BLS aggregation service. The goroutines themselves
  run in theory \<open>Agg_Concurrent\<close>.
\<close>

subsection \<open>Building the aggregator\<close>

record ('h, 'b) bls_services =
  address_Hex :: "address \<Rightarrow> string"
  NewOperatorPubkeysServiceInMemory :: "'h \<Rightarrow> 'h \<Rightarrow> 'h \<Rightarrow> 'h"
  NewAvsRegistryServiceChainCaller :: "'h \<Rightarrow> 'h \<Rightarrow> 'h \<Rightarrow> 'h"
  NewBlsAggregatorService :: "'h \<Rightarrow> 'h \<Rightarrow> 'b"

text \<open>The fields of \<open>Aggregator\<close> that no handler changes, and its state.\<close>

record ('h, 'b) aggregator_program =
  prog_config :: "'h AggregatorConfig"
  prog_avsReader :: "'h AvsReader"
  prog_avsSubscriber :: "'h AvsSubscriber"
  prog_avsWriter :: "'h AvsWriter"
  prog_metrics :: Metrics
  prog_state :: "'b aggregator"

definition NewAggregator ::
  "'h sdk \<Rightarrow> ('h, 'b) bls_services \<Rightarrow> 'h AggregatorConfig \<Rightarrow> ('h, 'b) aggregator_program result" where
  "NewAggregator S B aggregatorConfig =
     (let base = agg_BaseConfig aggregatorConfig; ecdsa = agg_EcdsaConfig aggregatorConfig;
          deployment = Base_AlignedLayerDeploymentConfig base in
      rbind (NewAvsReaderFromConfig S base ecdsa) (\<lambda>avsReader.
      rbind (NewAvsSubscriberFromConfig S base) (\<lambda>avsSubscriber.
      rbind (NewAvsWriterFromConfig S base ecdsa) (\<lambda>avsWriter.
      let chainioConfig =
        \<lparr>EthHttpUrl = EthRpcUrl base, build_EthWsUrl = EthWsUrl base,
         RegistryCoordinatorAddr = address_Hex B (AlignedLayerRegistryCoordinatorAddr deployment),
         OperatorStateRetrieverAddr = address_Hex B (AlignedLayerOperatorStateRetrieverAddr deployment),
         AvsName = ''AlignedLayer'', PromMetricsIpPortAddress = '':9090''\<rparr>;
          logger = Logger base in
      rbind (BuildAll S chainioConfig (PrivateKey ecdsa) logger) (\<lambda>clients.
      let operatorPubkeysService = NewOperatorPubkeysServiceInMemory B
            (AvsRegistryChainSubscriber clients) (AvsRegistryChainReader clients) logger;
          avsRegistryService = NewAvsRegistryServiceChainCaller B
            (AvsRegistryReader avsReader) operatorPubkeysService logger;
          blsService = NewBlsAggregatorService B avsRegistryService logger in
      Inr \<lparr>prog_config = aggregatorConfig, prog_avsReader = avsReader,
           prog_avsSubscriber = avsSubscriber, prog_avsWriter = avsWriter,
           prog_metrics = NewMetrics (agg_MetricsIpPortAddress (agg_Section aggregatorConfig)),
           prog_state = new_aggregator blsService\<rparr>)))))"

subsection \<open>Serving the operators\<close>

text \<open>\<open>rpc.Register\<close> first; then the method returns what \<open>ListenAndServe\<close> returns when it ends.\<close>

definition ServeOperators ::
  "string option \<Rightarrow> (string \<Rightarrow> string option) \<Rightarrow> ('h, 'b) aggregator_program \<Rightarrow> string option" where
  "ServeOperators rpc_Register ListenAndServe p =
     (case rpc_Register of
        Some err \<Rightarrow> Some err
      | None \<Rightarrow>
          (case ListenAndServe (ServerIpPortAddress (agg_Section (prog_config p))) of
             Some err \<Rightarrow> Some err
           | None \<Rightarrow> None))"

subsection \<open>The main loop\<close>

text \<open>
  What the main loop and the two goroutines beside it report: the context is done, the metrics
  server ended, the BLS service answered, \<open>ServeOperators\<close> returned, \<open>SubscribeToNewTasks\<close>
  returned (the last goroutine is started by \<open>aggregatorMain\<close>).
\<close>

datatype 'f main_event =
    CtxDone
  | MetricsEnded "string option"
  | BlsAnswer "'f bls_response"
  | ServeReturned "string option"
  | SubscribeReturned "string option"

datatype main_status = MainRunning | MainReturned | MainFatal string

text \<open>The answers for which a goroutine was started so far, and the status.\<close>

fun main_step ::
  "bool \<Rightarrow> 'f main_event \<Rightarrow> 'f bls_response list \<times> main_status \<Rightarrow> 'f bls_response list \<times> main_status" where
  "main_step metrics ev (spawned, MainReturned) = (spawned, MainReturned)"
| "main_step metrics ev (spawned, MainFatal m) = (spawned, MainFatal m)"
| "main_step metrics CtxDone (spawned, MainRunning) = (spawned, MainReturned)"
| "main_step metrics (MetricsEnded err) (spawned, MainRunning) =
     (spawned, if metrics then MainFatal ''Metrics server failed'' else MainRunning)"
| "main_step metrics (BlsAnswer resp) (spawned, MainRunning) = (spawned @ [resp], MainRunning)"
| "main_step metrics (ServeReturned err) (spawned, MainRunning) =
     (spawned, if err = None then MainRunning else MainFatal ''Error listening for tasks'')"
| "main_step metrics (SubscribeReturned err) (spawned, MainRunning) =
     (spawned, if err = None then MainRunning else MainFatal ''Error subscribing for new tasks'')"

definition Start ::
  "('h, 'b) aggregator_program \<Rightarrow> 'f main_event list \<Rightarrow> 'f bls_response list \<times> main_status" where
  "Start p evs =
     fold (main_step (agg_EnableMetrics (agg_Section (prog_config p)))) evs ([], MainRunning)"

text \<open>\<open>aggregatorMain\<close>: the error it returns, or the run of a program that was built.\<close>

definition aggregatorMain ::
  "'h config_env \<Rightarrow> 'h sdk \<Rightarrow> ('h, 'b) bls_services \<Rightarrow> string \<Rightarrow> 'f main_event list \<Rightarrow>
     (string + ('h, 'b) aggregator_program \<times> 'f bls_response list \<times> main_status) go" where
  "aggregatorMain env S B configFilePath evs =
     gbind (NewAggregatorConfig env configFilePath) (\<lambda>aggregatorConfig.
       case NewAggregator S B aggregatorConfig of
         Inl err \<Rightarrow> Ret (Inl err)
       | Inr p \<Rightarrow> Ret (Inr (p, Start p evs)))"

subsection \<open>What is built and what is started\<close>

lemma NewAggregator_built:
  assumes "NewAggregator S B c = Inr p"
  shows "prog_config p = c \<and> (\<exists>b. prog_state p = new_aggregator b)
    \<and> NewAvsReaderFromConfig S (agg_BaseConfig c) (agg_EcdsaConfig c) = Inr (prog_avsReader p)
    \<and> NewAvsSubscriberFromConfig S (agg_BaseConfig c) = Inr (prog_avsSubscriber p)
    \<and> NewAvsWriterFromConfig S (agg_BaseConfig c) (agg_EcdsaConfig c) = Inr (prog_avsWriter p)"
  using assms unfolding NewAggregator_def Let_def by (auto simp: go_simps)

lemma main_step_stopped: "snd s \<noteq> MainRunning \<Longrightarrow> main_step m ev s = s"
  by (cases s; cases "snd s") auto

lemma fold_main_stopped: "snd s \<noteq> MainRunning \<Longrightarrow> fold (main_step m) evs s = s"
  by (induction evs) (simp_all add: main_step_stopped)

text \<open>As long as the program runs, every answer of the service got its goroutine, in order.\<close>

fun answers :: "'f main_event list \<Rightarrow> 'f bls_response list" where
  "answers [] = []"
| "answers (BlsAnswer r # evs) = r # answers evs"
| "answers (_ # evs) = answers evs"

lemma Start_running:
  "fold (main_step m) evs (spawned, MainRunning) = (spawned', MainRunning) \<Longrightarrow>
     spawned' = spawned @ answers evs"
proof (induction evs arbitrary: spawned)
  case (Cons ev evs)
  show ?case
  proof (cases "snd (main_step m ev (spawned, MainRunning)) = MainRunning")
    case True
    then show ?thesis using Cons by (cases ev) (fastforce split: if_splits)+
  next
    case False
    from fold_main_stopped [OF this, of m evs] False Cons.prems show ?thesis by simp
  qed
qed simp

end
