(* ===== verification/Agg_Concurrent.thy ===== *)
theory Agg_Concurrent
  imports Aggregator_Main
begin

text \<open>
  The goroutines of the aggregator, interleaved: the subscriber that adds tasks, one goroutine
  for every call of an operator and the one it starts for the BLS service, and one for every
  answer of that service. They share the state of theory \<open>Agg_Tasks\<close> and the world, and
  synchronise by the two mutexes: a step that locks needs the mutex to be free.

  A goroutine is the place it has reached. Critical sections that call nothing that waits are
  one step (adding a task, the lookups); the long ones (the RPC method's wait for the service,
  the wallet's transaction) are several, and other goroutines run in between.
\<close>

subsection \<open>Goroutines\<close>

datatype ('f, 's) goroutine =
    RpcLookup "'s SignedTaskResponse" nat
  | RpcProcessing "'s SignedTaskResponse" u32 bool
  | RpcUnlocking "'s SignedTaskResponse" u8
  | RpcReplied "'s SignedTaskResponse" u8
  | LateSignature "'s SignedTaskResponse" u32
  | LateDone
  | Handling "'f bls_response"
  | Sending u32 bytes32 NonSignerStakesAndSignature nat
  | InWallet u32 bytes32 NonSignerStakesAndSignature nat
  | Awaiting u32 bytes32 NonSignerStakesAndSignature nat bytes32 nat
  | Handled response_outcome

text \<open>\<open>handed\<close> records the signatures given to the BLS service, with the index used.\<close>

record ('f, 's, 'b, 'w) agg_run =
  shared :: "'b aggregator"
  world :: 'w
  goroutines :: "('f, 's) goroutine list"
  handed :: "(u32 \<times> bytes32) list"
  exited :: "string option"

text \<open>A goroutine moves to another place.\<close>

definition goto :: "nat \<Rightarrow> ('f, 's) goroutine \<Rightarrow> ('f, 's, 'b, 'w) agg_run \<Rightarrow> ('f, 's, 'b, 'w) agg_run" where
  "goto i g s = s\<lparr>goroutines := (goroutines s)[i := g]\<rparr>"

abbreviation at :: "nat \<Rightarrow> ('f, 's, 'b, 'w) agg_run \<Rightarrow> ('f, 's) goroutine \<Rightarrow> bool" where
  "at i s g \<equiv> exited s = None \<and> i < length (goroutines s) \<and> goroutines s ! i = g"

text \<open>Unlocking: a mutex that is not locked ends the process.\<close>

definition release ::
  "'b aggregator go \<Rightarrow> ('f, 's, 'b, 'w) agg_run \<Rightarrow> ('f, 's, 'b, 'w) agg_run" where
  "release r s = (case r of Ret a \<Rightarrow> s\<lparr>shared := a\<rparr> | Panic \<Rightarrow> s\<lparr>exited := Some ''panic''\<rparr>
     | Fatal m \<Rightarrow> s\<lparr>exited := Some m\<rparr>)"

text \<open>
  The arguments: the library's operations, the bound contract, the signer's options, and what
  the rest of the world may do between two steps.
\<close>

record ('f, 's, 'b, 'w, 'r) agg_env =
  env_init :: "'b init_task"
  env_process :: "('b, 's) process_signature"
  env_BigInt :: "'f \<Rightarrow> int"
  env_client :: "('w, NonSignerStakesAndSignature, 'r) eth_backend"
  env_opts :: tx_opts
  env_moves :: "'w \<Rightarrow> 'w \<Rightarrow> bool"

inductive agg_step ::
  "('f, 's, 'b, 'w, 'r) agg_env \<Rightarrow> ('f, 's, 'b, 'w) agg_run \<Rightarrow> ('f, 's, 'b, 'w) agg_run \<Rightarrow> bool"
  for E where
  new_batch: "exited s = None \<Longrightarrow> \<not> taskMutex (shared s) \<Longrightarrow>
    agg_step E s (release (AddNewTask (env_init E) root blk (shared s)) s)"
| rpc_call: "exited s = None \<Longrightarrow>
    agg_step E s (s\<lparr>goroutines := goroutines s @ [RpcLookup resp waitForEventRetries]\<rparr>)"
| rpc_lost: "at i s (RpcLookup resp 0) \<Longrightarrow> agg_step E s (goto i (RpcReplied resp 1) s)"
| rpc_unknown: "at i s (RpcLookup resp (Suc n)) \<Longrightarrow> \<not> taskMutex (shared s) \<Longrightarrow>
    batchesIdxByRoot (shared s) (BatchMerkleRoot resp) = None \<Longrightarrow>
    agg_step E s (goto i (RpcLookup resp n) s)"
| rpc_found: "at i s (RpcLookup resp (Suc n)) \<Longrightarrow> \<not> taskMutex (shared s) \<Longrightarrow>
    batchesIdxByRoot (shared s) (BatchMerkleRoot resp) = Some idx \<Longrightarrow>
    agg_step E s (goto i (RpcProcessing resp idx False) (s\<lparr>shared := lock_tasks (shared s)\<rparr>))"
| bls_answered: "at i s (RpcProcessing resp idx False) \<Longrightarrow>
    env_process E (blsAggregationService (shared s)) idx (BatchMerkleRoot resp)
      (BlsSignature resp) (OperatorId resp) = (b, err) \<Longrightarrow>
    agg_step E s (goto i (RpcProcessing resp idx True)
      (s\<lparr>shared := (shared s)\<lparr>blsAggregationService := b\<rparr>,
         handed := (idx, BatchMerkleRoot resp) # handed s\<rparr>))"
| rpc_done: "at i s (RpcProcessing resp idx True) \<Longrightarrow> agg_step E s (goto i (RpcUnlocking resp 0) s)"
| rpc_timeout: "at i s (RpcProcessing resp idx d) \<Longrightarrow>
    agg_step E s (goto i (RpcUnlocking resp 1)
      (s\<lparr>goroutines := goroutines s @ (if d then [] else [LateSignature resp idx])\<rparr>))"
| rpc_unlock: "at i s (RpcUnlocking resp reply) \<Longrightarrow>
    agg_step E s (release (unlock_tasks (shared s)) (goto i (RpcReplied resp reply) s))"
| bls_late: "at i s (LateSignature resp idx) \<Longrightarrow>
    env_process E (blsAggregationService (shared s)) idx (BatchMerkleRoot resp)
      (BlsSignature resp) (OperatorId resp) = (b, err) \<Longrightarrow>
    agg_step E s (goto i LateDone
      (s\<lparr>shared := (shared s)\<lparr>blsAggregationService := b\<rparr>,
         handed := (idx, BatchMerkleRoot resp) # handed s\<rparr>))"
| bls_response: "exited s = None \<Longrightarrow>
    agg_step E s (s\<lparr>goroutines := goroutines s @ [Handling resp]\<rparr>)"
| service_error: "at i s (Handling resp) \<Longrightarrow> resp_Err resp = Some err \<Longrightarrow>
    agg_step E s (goto i (Handled ServiceError) s)"
| root_lookup: "at i s (Handling resp) \<Longrightarrow> resp_Err resp = None \<Longrightarrow> \<not> taskMutex (shared s) \<Longrightarrow>
    agg_step E s (goto i (Sending (TaskIndex resp)
      (case batchesRootByIdx (shared s) (TaskIndex resp) of Some r \<Rightarrow> r | None \<Rightarrow> zero_root)
      (to_signature (env_BigInt E) resp) MaxSentTxRetries) s)"
| batch_lost: "at i s (Sending idx root sig 0) \<Longrightarrow> agg_step E s (goto i (Handled BatchLost) s)"
| wallet_lock: "at i s (Sending idx root sig (Suc k)) \<Longrightarrow> \<not> walletMutex (shared s) \<Longrightarrow>
    agg_step E s (goto i (InWallet idx root sig k) (s\<lparr>shared := lock_wallet (shared s)\<rparr>))"
| send_failed: "at i s (InWallet idx root sig k) \<Longrightarrow>
    SendAggregatedResponse (env_client E) (env_opts E) root sig (world s) = (w, Inl err) \<Longrightarrow>
    agg_step E s (release (unlock_wallet (shared s)) (goto i (Sending idx root sig k) (s\<lparr>world := w\<rparr>)))"
| sent: "at i s (InWallet idx root sig k) \<Longrightarrow>
    SendAggregatedResponse (env_client E) (env_opts E) root sig (world s) = (w, Inr h) \<Longrightarrow>
    agg_step E s (release (unlock_wallet (shared s))
      (goto i (Awaiting idx root sig k h maxRetries) (s\<lparr>world := w\<rparr>)))"
| no_receipt: "at i s (Awaiting idx root sig k h 0) \<Longrightarrow>
    agg_step E s (goto i (Sending idx root sig k) s)"
| poll_failed: "at i s (Awaiting idx root sig k h (Suc m)) \<Longrightarrow>
    TransactionReceipt (env_client E) h (world s) = (w, Inl err) \<Longrightarrow>
    agg_step E s (goto i (Awaiting idx root sig k h m) (s\<lparr>world := w\<rparr>))"
| receipt: "at i s (Awaiting idx root sig k h (Suc m)) \<Longrightarrow>
    TransactionReceipt (env_client E) h (world s) = (w, Inr rc) \<Longrightarrow>
    agg_step E s (goto i (Handled Responded)
      (s\<lparr>world := w, shared := IncAggregatedResponses (shared s)\<rparr>))"
| world_moves: "exited s = None \<Longrightarrow> env_moves E (world s) w \<Longrightarrow> agg_step E s (s\<lparr>world := w\<rparr>)"

definition agg_start :: "'b \<Rightarrow> 'w \<Rightarrow> ('f, 's, 'b, 'w) agg_run" where
  "agg_start b w = \<lparr>shared = new_aggregator b, world = w, goroutines = [], handed = [], exited = None\<rparr>"

abbreviation agg_reaches ::
  "('f, 's, 'b, 'w, 'r) agg_env \<Rightarrow> ('f, 's, 'b, 'w) agg_run \<Rightarrow> ('f, 's, 'b, 'w) agg_run \<Rightarrow> bool" where
  "agg_reaches E \<equiv> (agg_step E)\<^sup>*\<^sup>*"

subsection \<open>The invariant\<close>

text \<open>Who holds which mutex, by the place.\<close>

fun holds_tasks :: "('f, 's) goroutine \<Rightarrow> bool" where
  "holds_tasks (RpcProcessing _ _ _) = True"
| "holds_tasks (RpcUnlocking _ _) = True"
| "holds_tasks _ = False"

fun holds_wallet :: "('f, 's) goroutine \<Rightarrow> bool" where
  "holds_wallet (InWallet _ _ _ _) = True"
| "holds_wallet _ = False"

definition holders :: "(('f, 's) goroutine \<Rightarrow> bool) \<Rightarrow> ('f, 's, 'b, 'w) agg_run \<Rightarrow> nat" where
  "holders P s = length (filter P (goroutines s))"

text \<open>What a goroutine knows about the caches: its index and its root belong together.\<close>

definition knows :: "u32 \<Rightarrow> bytes32 \<Rightarrow> 'b aggregator \<Rightarrow> bool" where
  "knows idx root a \<longleftrightarrow> batchesRootByIdx a idx = Some root \<or> root = zero_root"

fun place_ok :: "'b aggregator \<Rightarrow> ('f, 's) goroutine \<Rightarrow> bool" where
  "place_ok a (RpcProcessing resp idx d) \<longleftrightarrow> batchesIdxByRoot a (BatchMerkleRoot resp) = Some idx"
| "place_ok a (LateSignature resp idx) \<longleftrightarrow> batchesIdxByRoot a (BatchMerkleRoot resp) = Some idx"
| "place_ok a (Sending idx root sig k) \<longleftrightarrow> knows idx root a \<and> k \<le> MaxSentTxRetries"
| "place_ok a (InWallet idx root sig k) \<longleftrightarrow> knows idx root a \<and> k < MaxSentTxRetries"
| "place_ok a (Awaiting idx root sig k h m) \<longleftrightarrow> knows idx root a \<and> k < MaxSentTxRetries"
| "place_ok a _ \<longleftrightarrow> True"

definition run_inv :: "('f, 's, 'b, 'w) agg_run \<Rightarrow> bool" where
  "run_inv s \<longleftrightarrow>
     cache_inv (shared s)
     \<and> holders holds_tasks s = (if taskMutex (shared s) then 1 else 0)
     \<and> holders holds_wallet s = (if walletMutex (shared s) then 1 else 0)
     \<and> (\<forall>g\<in>set (goroutines s). place_ok (shared s) g)
     \<and> (\<forall>(idx, root)\<in>set (handed s). batchesIdxByRoot (shared s) root = Some idx)"

subsection \<open>Bookkeeping\<close>

lemma holders_goto:
  assumes "i < length (goroutines s)"
  shows "holders P (goto i g s) + (if P (goroutines s ! i) then 1 else 0)
    = holders P s + (if P g then 1 else 0)"
  using length_filter_update [OF assms, of P g] by (simp add: holders_def goto_def)

lemma holders_stay:
  "i < length (goroutines s) \<Longrightarrow> P g = P (goroutines s ! i) \<Longrightarrow> holders P (goto i g s) = holders P s"
  using holders_goto [of i s P g] by (auto split: if_splits)

lemma holders_append [simp]:
  "holders P (s\<lparr>goroutines := goroutines s @ gs\<rparr>) = holders P s + length (filter P gs)"
  by (simp add: holders_def)

lemma holders_frame [simp]:
  "holders P (s\<lparr>shared := a\<rparr>) = holders P s" "holders P (s\<lparr>world := w\<rparr>) = holders P s"
  "holders P (s\<lparr>handed := h\<rparr>) = holders P s" "holders P (s\<lparr>exited := e\<rparr>) = holders P s"
  by (simp_all add: holders_def)

lemma goto_simps [simp]:
  "shared (goto i g s) = shared s" "world (goto i g s) = world s" "handed (goto i g s) = handed s"
  "exited (goto i g s) = exited s" "goroutines (goto i g s) = (goroutines s)[i := g]"
  by (simp_all add: goto_def)

lemma release_Ret [simp]: "release (Ret a) s = s\<lparr>shared := a\<rparr>"
  by (simp add: release_def)

lemma goto_places:
  "\<forall>g\<in>set (goroutines s). Q g \<Longrightarrow> Q g' \<Longrightarrow> \<forall>g\<in>set ((goroutines s)[i := g']). Q g"
  using set_update_subset_insert by fastforce

lemma holder_counted:
  "i < length (goroutines s) \<Longrightarrow> P (goroutines s ! i) \<Longrightarrow> 0 < holders P s"
  by (auto simp: holders_def filter_empty_conv)

text \<open>Changes of the shared state that leave the caches' entries in place.\<close>

definition grows :: "'b aggregator \<Rightarrow> 'b aggregator \<Rightarrow> bool" where
  "grows a a' \<longleftrightarrow>
     (\<forall>r i. batchesIdxByRoot a r = Some i \<longrightarrow> batchesIdxByRoot a' r = Some i)
     \<and> (\<forall>r i. batchesRootByIdx a i = Some r \<longrightarrow> batchesRootByIdx a' i = Some r)"

lemma place_ok_grows: "grows a a' \<Longrightarrow> place_ok a g \<Longrightarrow> place_ok a' g"
  by (cases g) (auto simp: grows_def knows_def)

lemma grows_frame [simp]:
  "grows a (a\<lparr>taskMutex := m\<rparr>)" "grows a (a\<lparr>walletMutex := m\<rparr>)"
  "grows a (a\<lparr>blsAggregationService := b\<rparr>)" "grows a (a\<lparr>numAggregatedResponses := n\<rparr>)"
  by (simp_all add: grows_def)

lemma AddNewTask_grows: "AddNewTask init r blk a = Ret a' \<Longrightarrow> grows a a'"
  by (cases rule: AddNewTask_cases) (auto simp: grows_def)

lemma AddNewTask_wallet: "AddNewTask init r blk a = Ret a' \<Longrightarrow> walletMutex a' = walletMutex a"
  by (cases rule: AddNewTask_cases) auto

text \<open>The parts of the invariant that do not speak of the mutexes.\<close>

definition data_inv :: "('f, 's, 'b, 'w) agg_run \<Rightarrow> bool" where
  "data_inv s \<longleftrightarrow> cache_inv (shared s) \<and> (\<forall>g\<in>set (goroutines s). place_ok (shared s) g)
     \<and> (\<forall>(idx, root)\<in>set (handed s). batchesIdxByRoot (shared s) root = Some idx)"

definition lock_inv :: "('f, 's, 'b, 'w) agg_run \<Rightarrow> bool" where
  "lock_inv s \<longleftrightarrow> holders holds_tasks s = (if taskMutex (shared s) then 1 else 0)
     \<and> holders holds_wallet s = (if walletMutex (shared s) then 1 else 0)"

lemma run_inv_split: "run_inv s \<longleftrightarrow> data_inv s \<and> lock_inv s"
  by (auto simp: run_inv_def data_inv_def lock_inv_def)

text \<open>Whoever is at a place that holds a mutex finds it locked.\<close>

lemma locked_tasks: "lock_inv s \<Longrightarrow> at i s g \<Longrightarrow> holds_tasks g \<Longrightarrow> taskMutex (shared s)"
  using holder_counted [of i s holds_tasks] by (auto simp: lock_inv_def split: if_splits)

lemma locked_wallet: "lock_inv s \<Longrightarrow> at i s g \<Longrightarrow> holds_wallet g \<Longrightarrow> walletMutex (shared s)"
  using holder_counted [of i s holds_wallet] by (auto simp: lock_inv_def split: if_splits)

subsection \<open>Every step keeps the invariant\<close>

lemma data_inv_cache: "data_inv s \<Longrightarrow> cache_inv (shared s)"
  by (simp add: data_inv_def)

lemma data_inv_goto: "data_inv s \<Longrightarrow> place_ok (shared s) g \<Longrightarrow> data_inv (goto i g s)"
  using goto_places [of s "place_ok (shared s)" g i] by (simp add: data_inv_def)

lemma data_inv_shared:
  "data_inv s \<Longrightarrow> grows (shared s) a \<Longrightarrow> cache_inv a \<Longrightarrow> data_inv (s\<lparr>shared := a\<rparr>)"
proof -
  assume inv: "data_inv s" and g: "grows (shared s) a" and c: "cache_inv a"
  have "\<forall>g\<in>set (goroutines s). place_ok a g"
    using inv by (auto simp: data_inv_def intro: place_ok_grows [OF g])
  moreover have "\<forall>(idx, root)\<in>set (handed s). batchesIdxByRoot a root = Some idx"
    using inv g by (auto simp: data_inv_def grows_def)
  ultimately show ?thesis using c by (simp add: data_inv_def)
qed

lemma data_inv_frame [simp]:
  "data_inv (s\<lparr>world := w\<rparr>) = data_inv s" "data_inv (s\<lparr>exited := e\<rparr>) = data_inv s"
  by (simp_all add: data_inv_def)

lemma data_inv_spawn:
  "data_inv s \<Longrightarrow> \<forall>g\<in>set gs. place_ok (shared s) g \<Longrightarrow> data_inv (s\<lparr>goroutines := goroutines s @ gs\<rparr>)"
  by (auto simp: data_inv_def)

lemma data_inv_handed:
  "data_inv s \<Longrightarrow> batchesIdxByRoot (shared s) root = Some idx \<Longrightarrow>
     data_inv (s\<lparr>handed := (idx, root) # handed s\<rparr>)"
  by (auto simp: data_inv_def)

lemma data_inv_release_tasks: "data_inv s \<Longrightarrow> data_inv (release (unlock_tasks (shared s)) s)"
  by (cases "taskMutex (shared s)")
    (auto simp: release_def unlock_tasks_def intro!: data_inv_shared dest: data_inv_cache)

lemma data_inv_release_wallet: "data_inv s \<Longrightarrow> data_inv (release (unlock_wallet (shared s)) s)"
  by (cases "walletMutex (shared s)")
    (auto simp: release_def unlock_wallet_def intro!: data_inv_shared dest: data_inv_cache)

lemma data_inv_at: "data_inv s \<Longrightarrow> at i s g \<Longrightarrow> place_ok (shared s) g"
  by (auto simp: data_inv_def)

lemmas data_inv_intros = data_inv_goto data_inv_shared data_inv_spawn data_inv_handed
  data_inv_release_tasks data_inv_release_wallet

lemma data_inv_step:
  assumes "agg_step E s s'" and inv: "data_inv s"
  shows "data_inv s'"
  using assms(1)
proof cases
  case (new_batch root blk)
  show ?thesis
  proof (cases "AddNewTask (env_init E) root blk (shared s)")
    case (Ret a)
    then show ?thesis
      using new_batch inv AddNewTask_grows [OF Ret] AddNewTask_inv [OF data_inv_cache [OF inv] Ret]
      by (auto intro: data_inv_shared)
  qed (use new_batch inv in \<open>simp_all add: release_def\<close>)
next
  case (rpc_found i resp n idx)
  have "data_inv (s\<lparr>shared := lock_tasks (shared s)\<rparr>)"
    using inv by (auto intro!: data_inv_shared simp: lock_tasks_def data_inv_cache)
  then show ?thesis
    using rpc_found by (auto intro!: data_inv_goto simp: lock_tasks_def)
next
  case (bls_answered i resp idx b err)
  have at: "batchesIdxByRoot (shared s) (BatchMerkleRoot resp) = Some idx"
    using data_inv_at [OF inv] bls_answered by fastforce
  have "data_inv (s\<lparr>shared := (shared s)\<lparr>blsAggregationService := b\<rparr>\<rparr>)"
    using inv by (auto intro!: data_inv_shared simp: data_inv_cache)
  from data_inv_handed [OF this, of "BatchMerkleRoot resp" idx] at
  show ?thesis unfolding bls_answered(1) by (intro data_inv_goto) simp_all
next
  case (rpc_timeout i resp idx d)
  have at: "batchesIdxByRoot (shared s) (BatchMerkleRoot resp) = Some idx"
    using data_inv_at [OF inv] rpc_timeout by fastforce
  then show ?thesis unfolding rpc_timeout(1)
    by (intro data_inv_goto data_inv_spawn [OF inv]) auto
next
  case (rpc_unlock i resp reply)
  have "data_inv (goto i (RpcReplied resp reply) s)" by (rule data_inv_goto [OF inv]) simp
  from data_inv_release_tasks [OF this] show ?thesis unfolding rpc_unlock(1) by simp
next
  case (bls_late i resp idx b err)
  have at: "batchesIdxByRoot (shared s) (BatchMerkleRoot resp) = Some idx"
    using data_inv_at [OF inv] bls_late by fastforce
  have "data_inv (s\<lparr>shared := (shared s)\<lparr>blsAggregationService := b\<rparr>\<rparr>)"
    using inv by (auto intro!: data_inv_shared simp: data_inv_cache)
  from data_inv_handed [OF this, of "BatchMerkleRoot resp" idx] at
  show ?thesis unfolding bls_late(1) by (intro data_inv_goto) simp_all
next
  case (root_lookup i resp)
  then show ?thesis
    using inv by (auto intro!: data_inv_goto simp: knows_def split: option.splits)
next
  case (wallet_lock i idx root sig k)
  have "place_ok (shared s) (Sending idx root sig (Suc k))"
    using data_inv_at [OF inv] wallet_lock by fastforce
  moreover have "data_inv (s\<lparr>shared := lock_wallet (shared s)\<rparr>)"
    using inv by (auto intro!: data_inv_shared simp: lock_wallet_def data_inv_cache)
  ultimately show ?thesis unfolding wallet_lock(1)
    by (intro data_inv_goto) (auto simp: lock_wallet_def knows_def)
next
  case (send_failed i idx root sig k w err)
  have "place_ok (shared s) (InWallet idx root sig k)"
    using data_inv_at [OF inv] send_failed by fastforce
  then have "data_inv (goto i (Sending idx root sig k) (s\<lparr>world := w\<rparr>))"
    using inv by (auto intro!: data_inv_goto)
  from data_inv_release_wallet [OF this] show ?thesis unfolding send_failed(1) by simp
next
  case (sent i idx root sig k w h)
  have "place_ok (shared s) (InWallet idx root sig k)"
    using data_inv_at [OF inv] sent by fastforce
  then have "data_inv (goto i (Awaiting idx root sig k h maxRetries) (s\<lparr>world := w\<rparr>))"
    using inv by (auto intro!: data_inv_goto)
  from data_inv_release_wallet [OF this] show ?thesis unfolding sent(1) by simp
next
  case (no_receipt i idx root sig k h)
  have "place_ok (shared s) (Awaiting idx root sig k h 0)"
    using data_inv_at [OF inv] no_receipt by fastforce
  then show ?thesis using inv no_receipt by (auto intro!: data_inv_goto)
next
  case (poll_failed i idx root sig k h m w err)
  have "place_ok (shared s) (Awaiting idx root sig k h (Suc m))"
    using data_inv_at [OF inv] poll_failed by fastforce
  then show ?thesis using inv poll_failed by (auto intro!: data_inv_goto)
next
  case (receipt i idx root sig k h m w rc)
  have "data_inv (s\<lparr>shared := IncAggregatedResponses (shared s)\<rparr>)"
    using inv by (auto intro!: data_inv_shared simp: IncAggregatedResponses_def data_inv_cache)
  then have "data_inv (s\<lparr>world := w, shared := IncAggregatedResponses (shared s)\<rparr>)"
    by (simp add: data_inv_def)
  then show ?thesis unfolding receipt(1) by (intro data_inv_goto) simp_all
qed (use inv in \<open>auto intro!: data_inv_goto data_inv_spawn\<close>)

lemma lock_inv_stay:
  "lock_inv s \<Longrightarrow> i < length (goroutines s) \<Longrightarrow> holds_tasks g = holds_tasks (goroutines s ! i) \<Longrightarrow>
     holds_wallet g = holds_wallet (goroutines s ! i) \<Longrightarrow> lock_inv (goto i g s)"
  by (simp add: lock_inv_def holders_stay)

lemma lock_inv_frame:
  "taskMutex a = taskMutex (shared s) \<Longrightarrow> walletMutex a = walletMutex (shared s) \<Longrightarrow>
     lock_inv (s\<lparr>shared := a\<rparr>) = lock_inv s"
  "lock_inv (s\<lparr>world := w\<rparr>) = lock_inv s" "lock_inv (s\<lparr>handed := h\<rparr>) = lock_inv s"
  "lock_inv (s\<lparr>exited := e\<rparr>) = lock_inv s"
  by (simp_all add: lock_inv_def)

lemma lock_inv_spawn:
  "lock_inv s \<Longrightarrow> \<forall>g\<in>set gs. \<not> holds_tasks g \<and> \<not> holds_wallet g \<Longrightarrow>
     lock_inv (s\<lparr>goroutines := goroutines s @ gs\<rparr>)"
  by (simp add: lock_inv_def filter_False)

text \<open>Taking and giving back a mutex.\<close>

lemma lock_inv_take_tasks:
  assumes "lock_inv s" "\<not> taskMutex (shared s)" "i < length (goroutines s)" "holds_tasks g"
    "holds_wallet g = holds_wallet (goroutines s ! i)"
  shows "lock_inv (goto i g (s\<lparr>shared := lock_tasks (shared s)\<rparr>))"
proof -
  have "\<not> holds_tasks (goroutines s ! i)"
    using holder_counted [of i s holds_tasks] assms by (auto simp: lock_inv_def)
  then show ?thesis
    using assms holders_goto [of i s holds_tasks g] holders_stay [of i s holds_wallet g]
    by (auto simp: lock_inv_def lock_tasks_def holders_def)
qed

lemma lock_inv_take_wallet:
  assumes "lock_inv s" "\<not> walletMutex (shared s)" "i < length (goroutines s)" "holds_wallet g"
    "holds_tasks g = holds_tasks (goroutines s ! i)"
  shows "lock_inv (goto i g (s\<lparr>shared := lock_wallet (shared s)\<rparr>))"
proof -
  have "\<not> holds_wallet (goroutines s ! i)"
    using holder_counted [of i s holds_wallet] assms by (auto simp: lock_inv_def)
  then show ?thesis
    using assms holders_goto [of i s holds_wallet g] holders_stay [of i s holds_tasks g]
    by (auto simp: lock_inv_def lock_wallet_def holders_def)
qed

lemma lock_inv_give_tasks:
  assumes "lock_inv s" "i < length (goroutines s)" "holds_tasks (goroutines s ! i)" "\<not> holds_tasks g"
    "holds_wallet g = holds_wallet (goroutines s ! i)"
  shows "unlock_tasks (shared s) = Ret ((shared s)\<lparr>taskMutex := False\<rparr>)
    \<and> lock_inv (release (unlock_tasks (shared s)) (goto i g s))"
proof -
  have "taskMutex (shared s)"
    using holder_counted [of i s holds_tasks] assms by (auto simp: lock_inv_def split: if_splits)
  then show ?thesis
    using assms holders_goto [of i s holds_tasks g] holders_stay [of i s holds_wallet g]
    by (auto simp: lock_inv_def unlock_tasks_def)
qed

lemma lock_inv_give_wallet:
  assumes "lock_inv s" "i < length (goroutines s)" "holds_wallet (goroutines s ! i)" "\<not> holds_wallet g"
    "holds_tasks g = holds_tasks (goroutines s ! i)"
  shows "unlock_wallet (shared s) = Ret ((shared s)\<lparr>walletMutex := False\<rparr>)
    \<and> lock_inv (release (unlock_wallet (shared s)) (goto i g s))"
proof -
  have "walletMutex (shared s)"
    using holder_counted [of i s holds_wallet] assms by (auto simp: lock_inv_def split: if_splits)
  then show ?thesis
    using assms holders_goto [of i s holds_wallet g] holders_stay [of i s holds_tasks g]
    by (auto simp: lock_inv_def unlock_wallet_def)
qed

lemma lock_inv_step:
  assumes "agg_step E s s'" and inv: "lock_inv s"
  shows "lock_inv s'"
  using assms(1)
proof cases
  case (new_batch root blk)
  show ?thesis
  proof (cases "AddNewTask (env_init E) root blk (shared s)")
    case (Ret a)
    then show ?thesis
      using new_batch inv AddNewTask_unlocks [OF Ret] AddNewTask_wallet [OF Ret]
      by (simp add: lock_inv_frame)
  qed (use new_batch inv in \<open>simp_all add: release_def lock_inv_frame\<close>)
next
  case (rpc_call resp)
  then show ?thesis using inv by (auto intro: lock_inv_spawn)
next
  case (rpc_found i resp n idx)
  then show ?thesis using lock_inv_take_tasks [OF inv] by auto
next
  case (bls_answered i resp idx b err)
  then show ?thesis using inv by (auto intro!: lock_inv_stay simp: lock_inv_frame)
next
  case (rpc_timeout i resp idx d)
  have "lock_inv (s\<lparr>goroutines := goroutines s @ (if d then [] else [LateSignature resp idx])\<rparr>)"
    by (rule lock_inv_spawn [OF inv]) auto
  then show ?thesis
    using rpc_timeout by (auto intro!: lock_inv_stay simp: nth_append split del: if_split)
next
  case (rpc_unlock i resp reply)
  from rpc_unlock show ?thesis
    using lock_inv_give_tasks [OF inv, of i "RpcReplied resp reply", THEN conjunct2] by simp
next
  case (bls_late i resp idx b err)
  then show ?thesis using inv by (auto intro!: lock_inv_stay simp: lock_inv_frame)
next
  case (bls_response resp)
  then show ?thesis using inv by (auto intro: lock_inv_spawn)
next
  case (wallet_lock i idx root sig k)
  then show ?thesis using lock_inv_take_wallet [OF inv] by auto
next
  case (send_failed i idx root sig k w err)
  have "lock_inv (s\<lparr>world := w\<rparr>)" using inv by (simp add: lock_inv_frame)
  from lock_inv_give_wallet [OF this, of i "Sending idx root sig k", THEN conjunct2] show ?thesis
    using send_failed by simp
next
  case (sent i idx root sig k w h)
  have "lock_inv (s\<lparr>world := w\<rparr>)" using inv by (simp add: lock_inv_frame)
  from lock_inv_give_wallet [OF this, of i "Awaiting idx root sig k h maxRetries", THEN conjunct2]
  show ?thesis using sent by simp
next
  case (poll_failed i idx root sig k h m w err)
  then show ?thesis using inv by (auto intro!: lock_inv_stay simp: lock_inv_frame)
next
  case (receipt i idx root sig k h m w rc)
  have "lock_inv (s\<lparr>world := w, shared := IncAggregatedResponses (shared s)\<rparr>)"
    using inv by (simp add: lock_inv_def IncAggregatedResponses_def holders_def)
  then show ?thesis using receipt by (auto intro!: lock_inv_stay)
qed (use inv in \<open>auto intro!: lock_inv_stay simp: lock_inv_frame\<close>)

lemma run_inv_start: "run_inv (agg_start b w)"
  by (simp add: run_inv_def agg_start_def holders_def) (simp add: new_aggregator_def)

lemma run_inv_step: "agg_step E s s' \<Longrightarrow> run_inv s \<Longrightarrow> run_inv s'"
  using data_inv_step lock_inv_step by (auto simp: run_inv_split)

lemma agg_reaches_inv: "agg_reaches E (agg_start b w) s \<Longrightarrow> run_inv s"
  by (induction rule: rtranclp_induct) (auto intro: run_inv_start run_inv_step)

text \<open>The process ends only when the service refuses a task, never by a wrong unlock.\<close>

lemma exit_reason:
  assumes "agg_step E s s'" "run_inv s" "exited s = None" "exited s' = Some m"
  shows "\<exists>e. m = ''BLS aggregation service error when initializing new task: '' @ e"
  using assms(1)
proof cases
  case (new_batch root blk)
  have "AddNewTask (env_init E) root blk (shared s) = Fatal m"
    using new_batch assms(3,4) AddNewTask_not_panic [of "env_init E" root blk "shared s"]
    by (auto simp: release_def split: go.splits)
  then show ?thesis
    by (auto simp: AddNewTask_def Let_def lock_tasks_def unlock_tasks_def split: if_splits prod.splits option.splits)
next
  case (rpc_unlock i resp reply)
  have "lock_inv s" using assms(2) by (simp add: run_inv_split)
  from lock_inv_give_tasks [OF this, of i "RpcReplied resp reply"] show ?thesis
    using rpc_unlock assms(3,4) by simp
next
  case (send_failed i idx root sig k w err)
  have "lock_inv s" using assms(2) by (simp add: run_inv_split)
  from lock_inv_give_wallet [OF this, of i "Sending idx root sig k"] show ?thesis
    using send_failed assms(3,4) by simp
next
  case (sent i idx root sig k w h)
  have "lock_inv s" using assms(2) by (simp add: run_inv_split)
  from lock_inv_give_wallet [OF this, of i "Awaiting idx root sig k h maxRetries"] show ?thesis
    using sent assms(3,4) by simp
qed (use assms(3,4) in auto)

subsection \<open>Every goroutine can finish\<close>

fun finished :: "('f, 's) goroutine \<Rightarrow> bool" where
  "finished (RpcReplied _ _) = True"
| "finished LateDone = True"
| "finished (Handled _) = True"
| "finished _ = False"

text \<open>How many steps of its own a goroutine has left, at most.\<close>

fun rank :: "('f, 's) goroutine \<Rightarrow> nat" where
  "rank (RpcLookup _ n) = 3 + n"
| "rank (RpcProcessing _ _ _) = 2"
| "rank (RpcUnlocking _ _) = 1"
| "rank (LateSignature _ _) = 1"
| "rank (Handling _) = 2 + MaxSentTxRetries * (5 + maxRetries)"
| "rank (Sending _ _ _ k) = 1 + k * (5 + maxRetries)"
| "rank (InWallet _ _ _ k) = 3 + maxRetries + k * (5 + maxRetries)"
| "rank (Awaiting _ _ _ k _ m) = 2 + m + k * (5 + maxRetries)"
| "rank _ = 0"

text \<open>Where goroutine \<open>i\<close> still is after others moved.\<close>

definition undisturbed :: "nat \<Rightarrow> ('f, 's, 'b, 'w) agg_run \<Rightarrow> ('f, 's, 'b, 'w) agg_run \<Rightarrow> bool" where
  "undisturbed i s s' \<longleftrightarrow> exited s' = None \<and> i < length (goroutines s') \<and> goroutines s' ! i = goroutines s ! i"

lemma unlock_path:
  assumes "run_inv s" "at j s (RpcUnlocking resp r)"
  shows "agg_step E s ((goto j (RpcReplied resp r) s)\<lparr>shared := (shared s)\<lparr>taskMutex := False\<rparr>\<rparr>)"
proof -
  have "lock_inv s" using assms(1) by (simp add: run_inv_split)
  from lock_inv_give_tasks [OF this, of j "RpcReplied resp r", THEN conjunct1] assms(2)
  have "unlock_tasks (shared s) = Ret ((shared s)\<lparr>taskMutex := False\<rparr>)" by simp
  with rpc_unlock [OF assms(2), of E] show ?thesis by simp
qed

lemma wallet_path:
  assumes "run_inv s" "at j s (InWallet idx root sig k)"
  shows "\<exists>w g. agg_step E s ((goto j g (s\<lparr>world := w\<rparr>))\<lparr>shared := (shared s)\<lparr>walletMutex := False\<rparr>\<rparr>)
    \<and> (g = Sending idx root sig k \<or> (\<exists>h. g = Awaiting idx root sig k h maxRetries))"
proof -
  have "lock_inv s" using assms(1) by (simp add: run_inv_split)
  from lock_inv_give_wallet [OF this, of j "Sending idx root sig k", THEN conjunct1] assms(2)
  have free: "unlock_wallet (shared s) = Ret ((shared s)\<lparr>walletMutex := False\<rparr>)" by simp
  obtain w r where send: "SendAggregatedResponse (env_client E) (env_opts E) root sig (world s) = (w, r)"
    by fastforce
  show ?thesis
  proof (cases r)
    case (Inl err)
    with send_failed [OF assms(2), of E w err] send free show ?thesis by auto
  next
    case (Inr h)
    with sent [OF assms(2), of E w h] send free show ?thesis by auto
  qed
qed

lemma tasks_come_free:
  assumes inv: "run_inv s" and "exited s = None" "i < length (goroutines s)"
    and i: "\<not> holds_tasks (goroutines s ! i)"
  shows "\<exists>s'. agg_reaches E s s' \<and> undisturbed i s s' \<and> \<not> taskMutex (shared s')"
proof (cases "taskMutex (shared s)")
  case False
  then show ?thesis using assms by (auto simp: undisturbed_def)
next
  case True
  then have "holders holds_tasks s = 1" using inv by (simp add: run_inv_def)
  then have "filter holds_tasks (goroutines s) \<noteq> []" by (auto simp: holders_def)
  then obtain j where j: "j < length (goroutines s)" "holds_tasks (goroutines s ! j)"
    by (auto simp: filter_empty_conv in_set_conv_nth)
  with i have ji: "j \<noteq> i" by auto
  have unlocking: "\<exists>s'. agg_reaches E t s' \<and> undisturbed i t s' \<and> \<not> taskMutex (shared s')"
    if "run_inv t" "at j t (RpcUnlocking resp r)" "i < length (goroutines t)" for t resp r
    using r_into_rtranclp [of "agg_step E", OF unlock_path [OF that(1,2), of E]] that ji
    by (intro exI conjI) (auto simp: undisturbed_def)
  show ?thesis
  proof (cases "goroutines s ! j")
    case (RpcProcessing resp idx d)
    let ?t = "goto j (RpcUnlocking resp 1)
      (s\<lparr>goroutines := goroutines s @ (if d then [] else [LateSignature resp idx])\<rparr>)"
    have step: "agg_step E s ?t" using RpcProcessing j assms(2) by (intro rpc_timeout) simp
    have "\<exists>s'. agg_reaches E ?t s' \<and> undisturbed i ?t s' \<and> \<not> taskMutex (shared s')"
      using run_inv_step [OF step inv] j assms(2,3) by (intro unlocking) auto
    then obtain s' where s': "agg_reaches E ?t s'" "undisturbed i ?t s'" "\<not> taskMutex (shared s')"
      by blast
    have "undisturbed i s s'"
      using s'(2) assms(3) ji by (simp add: undisturbed_def nth_append)
    with s' step show ?thesis by (meson converse_rtranclp_into_rtranclp)
  next
    case (RpcUnlocking resp r)
    then show ?thesis using unlocking [OF inv] j assms(2,3) by auto
  qed (use j in auto)
qed

lemma wallet_comes_free:
  assumes inv: "run_inv s" and "exited s = None" "i < length (goroutines s)"
    and i: "\<not> holds_wallet (goroutines s ! i)"
  shows "\<exists>s'. agg_reaches E s s' \<and> undisturbed i s s' \<and> \<not> walletMutex (shared s')"
proof (cases "walletMutex (shared s)")
  case False
  then show ?thesis using assms by (auto simp: undisturbed_def)
next
  case True
  then have "holders holds_wallet s = 1" using inv by (simp add: run_inv_def)
  then have "filter holds_wallet (goroutines s) \<noteq> []" by (auto simp: holders_def)
  then obtain j where j: "j < length (goroutines s)" "holds_wallet (goroutines s ! j)"
    by (auto simp: filter_empty_conv in_set_conv_nth)
  with i have ji: "j \<noteq> i" by auto
  obtain idx root sig k where g: "goroutines s ! j = InWallet idx root sig k"
    using j(2) by (cases "goroutines s ! j") auto
  obtain w g' where
    step: "agg_step E s ((goto j g' (s\<lparr>world := w\<rparr>))\<lparr>shared := (shared s)\<lparr>walletMutex := False\<rparr>\<rparr>)"
      (is "agg_step E s ?t")
    using wallet_path [OF inv, of j idx root sig k E] g j assms(2) by blast
  have "undisturbed i s ?t" "\<not> walletMutex (shared ?t)"
    using assms(2,3) ji by (auto simp: undisturbed_def)
  with step show ?thesis by blast
qed

text \<open>A goroutine that has not finished has a run in which it makes a step of its own.\<close>

definition closer :: "nat \<Rightarrow> ('f, 's, 'b, 'w) agg_run \<Rightarrow> ('f, 's, 'b, 'w) agg_run \<Rightarrow> bool" where
  "closer i s s' \<longleftrightarrow> exited s' = None \<and> i < length (goroutines s')
     \<and> rank (goroutines s' ! i) < rank (goroutines s ! i)"

lemma closer_goto:
  "i < length (goroutines s) \<Longrightarrow> exited s = None \<Longrightarrow> rank g < rank (goroutines s ! i) \<Longrightarrow> closer i s (goto i g s)"
  by (simp add: closer_def)

lemma lookup_step:
  assumes "at i s (RpcLookup resp (Suc n))" "\<not> taskMutex (shared s)"
  shows "\<exists>s'. agg_step E s s' \<and> closer i s s'"
proof (cases "batchesIdxByRoot (shared s) (BatchMerkleRoot resp)")
  case None
  from rpc_unknown [OF assms None, of E] assms(1) show ?thesis
    by (auto simp: closer_def)
next
  case (Some idx)
  from rpc_found [OF assms Some, of E] assms(1) show ?thesis
    by (auto simp: closer_def)
qed

text \<open>Where a goroutine waits for a mutex.\<close>

fun needs_tasks :: "('f, 's) goroutine \<Rightarrow> bool" where
  "needs_tasks (RpcLookup _ n) = (0 < n)"
| "needs_tasks (Handling _) = True"
| "needs_tasks _ = False"

fun needs_wallet :: "('f, 's) goroutine \<Rightarrow> bool" where
  "needs_wallet (Sending _ _ _ k) = (0 < k)"
| "needs_wallet _ = False"

lemma own_step:
  assumes inv: "run_inv s" and i: "exited s = None" "i < length (goroutines s)"
    "\<not> finished (goroutines s ! i)"
    and free: "needs_tasks (goroutines s ! i) \<Longrightarrow> \<not> taskMutex (shared s)"
    and wfree: "needs_wallet (goroutines s ! i) \<Longrightarrow> \<not> walletMutex (shared s)"
  shows "\<exists>s'. agg_step E s s' \<and> closer i s s'"
proof (cases "goroutines s ! i")
  case (RpcLookup resp n)
  show ?thesis
  proof (cases n)
    case 0
    with rpc_lost [where i = i and s = s and E = E] RpcLookup i show ?thesis by (auto simp: closer_def)
  next
    case (Suc m)
    have "at i s (RpcLookup resp (Suc m))" "\<not> taskMutex (shared s)"
      using Suc RpcLookup i free by auto
    then show ?thesis by (rule lookup_step)
  qed
next
  case (RpcProcessing resp idx d)
  with rpc_timeout [where i = i and s = s and E = E] i show ?thesis by (fastforce simp: closer_def)
next
  case (RpcUnlocking resp r)
  with unlock_path [OF inv, where j = i and E = E] i show ?thesis by (fastforce simp: closer_def)
next
  case (LateSignature resp idx)
  obtain b err where "env_process E (blsAggregationService (shared s)) idx (BatchMerkleRoot resp)
      (BlsSignature resp) (OperatorId resp) = (b, err)" by fastforce
  with bls_late [where i = i and s = s and E = E] LateSignature i show ?thesis
    by (fastforce simp: closer_def)
next
  case (Handling resp)
  show ?thesis
  proof (cases "resp_Err resp")
    case None
    with root_lookup [where i = i and s = s and E = E] Handling i free show ?thesis
      by (fastforce simp: closer_def)
  next
    case (Some err)
    with service_error [where i = i and s = s and E = E] Handling i show ?thesis
      by (fastforce simp: closer_def)
  qed
next
  case (Sending idx root sig k)
  show ?thesis
  proof (cases k)
    case 0
    with batch_lost [where i = i and s = s and E = E] Sending i show ?thesis
      by (fastforce simp: closer_def)
  next
    case (Suc m)
    with wallet_lock [where i = i and s = s and E = E] Sending i wfree show ?thesis
      by (fastforce simp: closer_def)
  qed
next
  case (InWallet idx root sig k)
  with wallet_path [OF inv, where j = i and E = E] i
  obtain w g where "agg_step E s ((goto i g (s\<lparr>world := w\<rparr>))\<lparr>shared := (shared s)\<lparr>walletMutex := False\<rparr>\<rparr>)"
    "g = Sending idx root sig k \<or> (\<exists>h. g = Awaiting idx root sig k h maxRetries)" by blast
  with InWallet i show ?thesis by (intro exI conjI) (auto simp: closer_def)
next
  case (Awaiting idx root sig k h m)
  show ?thesis
  proof (cases m)
    case 0
    with no_receipt [where i = i and s = s and E = E] Awaiting i show ?thesis
      by (fastforce simp: closer_def)
  next
    case (Suc m')
    obtain w r where poll: "TransactionReceipt (env_client E) h (world s) = (w, r)" by fastforce
    show ?thesis
    proof (cases r)
      case (Inl err)
      with poll_failed [where i = i and s = s and E = E] poll Awaiting Suc i show ?thesis
        by (fastforce simp: closer_def)
    next
      case (Inr rc)
      with receipt [where i = i and s = s and E = E] poll Awaiting Suc i show ?thesis
        by (fastforce simp: closer_def)
    qed
  qed
qed (use i(3) in auto)

lemma reaches_inv: "agg_reaches E s s' \<Longrightarrow> run_inv s \<Longrightarrow> run_inv s'"
  by (induction rule: rtranclp_induct) (auto intro: run_inv_step)

lemma moves_on:
  assumes inv: "run_inv s" and i: "exited s = None" "i < length (goroutines s)"
    "\<not> finished (goroutines s ! i)"
  shows "\<exists>s'. agg_reaches E s s' \<and> closer i s s'"
proof -
  have "\<exists>t. agg_reaches E s t \<and> undisturbed i s t
      \<and> (needs_tasks (goroutines s ! i) \<longrightarrow> \<not> taskMutex (shared t))
      \<and> (needs_wallet (goroutines s ! i) \<longrightarrow> \<not> walletMutex (shared t))"
  proof (cases "needs_tasks (goroutines s ! i)")
    case True
    then have "\<not> holds_tasks (goroutines s ! i)" "\<not> needs_wallet (goroutines s ! i)"
      by (cases "goroutines s ! i"; simp)+
    with tasks_come_free [OF inv i(1,2), of E] show ?thesis by blast
  next
    case noT: False
    show ?thesis
    proof (cases "needs_wallet (goroutines s ! i)")
      case True
      then have "\<not> holds_wallet (goroutines s ! i)" by (cases "goroutines s ! i"; simp)
      with wallet_comes_free [OF inv i(1,2), of E] noT show ?thesis by blast
    next
      case False
      then show ?thesis using noT i by (auto simp: undisturbed_def)
    qed
  qed
  then obtain t where t: "agg_reaches E s t" "undisturbed i s t"
    "needs_tasks (goroutines s ! i) \<Longrightarrow> \<not> taskMutex (shared t)"
    "needs_wallet (goroutines s ! i) \<Longrightarrow> \<not> walletMutex (shared t)" by blast
  have same: "exited t = None" "i < length (goroutines t)" "goroutines t ! i = goroutines s ! i"
    using t(2) by (simp_all add: undisturbed_def)
  obtain s' where "agg_step E t s'" "closer i t s'"
    using own_step [OF reaches_inv [OF t(1) inv] same(1,2), of E] same(3) i(3) t(3,4) by auto
  then show ?thesis using t(1) same by (auto simp: closer_def intro: rtranclp.rtrancl_into_rtrancl)
qed

lemma can_finish:
  assumes "run_inv s" "exited s = None" "i < length (goroutines s)"
  shows "\<exists>s'. agg_reaches E s s' \<and> exited s' = None \<and> i < length (goroutines s')
    \<and> finished (goroutines s' ! i)"
  using assms
proof (induction "rank (goroutines s ! i)" arbitrary: s rule: less_induct)
  case less
  show ?case
  proof (cases "finished (goroutines s ! i)")
    case True
    then show ?thesis using less.prems by blast
  next
    case False
    obtain t where t: "agg_reaches E s t" "closer i s t"
      using moves_on [OF less.prems False, of E] by blast
    then obtain s' where s': "agg_reaches E t s'" "exited s' = None" "i < length (goroutines s')"
        "finished (goroutines s' ! i)"
      using less.hyps [of t] reaches_inv [OF t(1) less.prems(1)] by (auto simp: closer_def)
    show ?thesis
      using s' rtranclp_trans [of "agg_step E", OF t(1) s'(1)] by blast
  qed
qed

subsection \<open>Properties\<close>

text \<open>An environment for the witnesses, in which every call works.\<close>

definition easy_client :: "(nat, NonSignerStakesAndSignature, unit) eth_backend" where
  "easy_client = \<lparr>RespondToTask = \<lambda>opts r sig w. (Suc w, Inr \<lparr>Gas = 1, Hash = r\<rparr>),
     CreateNewTask = \<lambda>opts r p w. (w, Inl ''unused''), TransactionReceipt = \<lambda>h w. (w, Inr ()),
     Sleep = \<lambda>d w. w, HashString = hex_encode\<rparr>"

definition easy_env :: "(nat, unit, unit, nat, unit) agg_env" where
  "easy_env = \<lparr>env_init = \<lambda>b i blk q t d. (b, None), env_process = \<lambda>b i r sg oid. (b, None),
     env_BigInt = int, env_client = easy_client, env_opts = \<lparr>NoSend = False, GasLimit = 0\<rparr>,
     env_moves = \<lambda>w w'. w \<le> w'\<rparr>"

definition easy_call :: "unit SignedTaskResponse" where
  "easy_call = \<lparr>BatchMerkleRoot = [7], BlsSignature = (), OperatorId = [1]\<rparr>"

text \<open>A batch arrives, an operator calls, its signature is looked up and handed over.\<close>

lemma easy_run:
  "\<exists>s. agg_reaches easy_env (agg_start () 0) s \<and> exited s = None \<and> handed s = [(0, [7])]
     \<and> goroutines s = [RpcProcessing easy_call 0 True]"
proof -
  let ?a = "new_aggregator ()"
  let ?a1 = "?a\<lparr>batchesIdxByRoot := [[7] \<mapsto> 0], batchesRootByIdx := [0 \<mapsto> [7]], nextBatchIndex := 1\<rparr>"
  have "AddNewTask (env_init easy_env) [7] 3 ?a = Ret ?a1"
    using AddNewTask_fresh [of ?a "[7]" "env_init easy_env" 3 "()"]
    by (simp add: new_aggregator_def easy_env_def)
  then have 1: "agg_step easy_env (agg_start () 0) ((agg_start () 0)\<lparr>shared := ?a1\<rparr>)"
    using new_batch [of "agg_start () 0" easy_env "[7]" 3]
    by (simp add: agg_start_def new_aggregator_def)
  let ?s1 = "(agg_start () 0 :: (nat, unit, unit, nat) agg_run)\<lparr>shared := ?a1\<rparr>"
  let ?s2 = "?s1\<lparr>goroutines := goroutines ?s1 @ [RpcLookup easy_call waitForEventRetries]\<rparr>"
  have 2: "agg_step easy_env ?s1 ?s2" by (rule rpc_call) (simp add: agg_start_def)
  let ?s3 = "goto 0 (RpcProcessing easy_call 0 False) (?s2\<lparr>shared := lock_tasks (shared ?s2)\<rparr>)"
  have 3: "agg_step easy_env ?s2 ?s3"
    by (rule rpc_found [where n = 49])
      (simp_all add: agg_start_def waitForEventRetries_def easy_call_def new_aggregator_def)
  let ?s4 = "goto 0 (RpcProcessing easy_call 0 True)
      (?s3\<lparr>shared := (shared ?s3)\<lparr>blsAggregationService := ()\<rparr>,
         handed := (0, BatchMerkleRoot easy_call) # handed ?s3\<rparr>)"
  have 4: "agg_step easy_env ?s3 ?s4"
    by (rule bls_answered [where err = None]) (simp_all add: agg_start_def easy_env_def)
  have "agg_reaches easy_env (agg_start () 0) ?s4"
    using 1 2 3 4 by (meson rtranclp.rtrancl_into_rtrancl rtranclp.rtrancl_refl)
  moreover have "exited ?s4 = None" "handed ?s4 = [(0, [7])]"
    "goroutines ?s4 = [RpcProcessing easy_call 0 True]"
    by (simp_all add: agg_start_def easy_call_def)
  ultimately show ?thesis by blast
qed

text \<open>C7: Whatever the interleaving of the aggregator's goroutines (the subscriber, any number of
  calls of operators with the service calls they start or abandon, any number of answers being
  sent) and whatever the world does in between: at most one goroutine is inside each mutex, and
  the mutex is locked exactly when one is; the two caches stay inverse to each other; and every
  signature the BLS service ever got was handed to it under the index that the caches still give
  for the root that was signed.\<close>

theorem goroutines_respect_locks_and_caches:
  assumes "agg_reaches E (agg_start b w) s"
  shows "cache_inv (shared s)
    \<and> length (filter holds_tasks (goroutines s)) = (if taskMutex (shared s) then 1 else 0)
    \<and> length (filter holds_wallet (goroutines s)) = (if walletMutex (shared s) then 1 else 0)
    \<and> (\<forall>idx root. (idx, root) \<in> set (handed s) \<longrightarrow> batchesIdxByRoot (shared s) root = Some idx)"
  using agg_reaches_inv [OF assms] by (auto simp: run_inv_def holders_def)

theorem goroutines_respect_locks_and_caches_witness:
  "\<exists>s. agg_reaches easy_env (agg_start () 0) s \<and> handed s = [(0, [7])] \<and> taskMutex (shared s)
     \<and> batchesIdxByRoot (shared s) [7] = Some 0"
proof -
  obtain s where s: "agg_reaches easy_env (agg_start () 0) s" "handed s = [(0, [7])]"
    "goroutines s = [RpcProcessing easy_call 0 True]" using easy_run by blast
  from goroutines_respect_locks_and_caches [OF s(1)] s show ?thesis
    by (auto split: if_splits)
qed

text \<open>C20: No goroutine of the aggregator is ever stuck: from every reachable state in which the
  process runs, and for every goroutine that has not finished, there is a continuation in which it
  finishes (an operator's call is answered, an answer of the service is responded to or given up)
  while the process goes on; in particular neither mutex can be lost.\<close>

theorem no_goroutine_is_stuck:
  assumes "agg_reaches E (agg_start b w) s" and "exited s = None" and "i < length (goroutines s)"
  shows "\<exists>s'. agg_reaches E s s' \<and> exited s' = None \<and> i < length (goroutines s')
    \<and> finished (goroutines s' ! i)"
  using can_finish [OF agg_reaches_inv [OF assms(1)] assms(2,3)] .

theorem no_goroutine_is_stuck_witness:
  "\<exists>s s'. agg_reaches easy_env (agg_start () 0) s \<and> agg_reaches easy_env s s'
     \<and> \<not> finished (goroutines s ! 0) \<and> finished (goroutines s' ! 0)"
proof -
  obtain s where s: "agg_reaches easy_env (agg_start () 0) s" "exited s = None"
    "goroutines s = [RpcProcessing easy_call 0 True]" using easy_run by blast
  have "\<exists>s'. agg_reaches easy_env s s' \<and> exited s' = None \<and> 0 < length (goroutines s')
      \<and> finished (goroutines s' ! 0)"
    by (rule no_goroutine_is_stuck [OF s(1,2)]) (simp add: s(3))
  moreover have "\<not> finished (goroutines s ! 0)" by (simp add: s(3))
  ultimately show ?thesis using s(1) by blast
qed

end
