(* ===== verification/Service_Manager.thy ===== *)
theory Service_Manager
  imports Go_Base
begin

text \<open>
  The on-chain side of the protocol (\<open>contracts/src/core/AlignedLayerServiceManager.sol\<close>
  and its storage): the batches' states, \<open>createNewTask\<close>, \<open>respondToTask\<close> and
  \<open>verifyBatchInclusion\<close>, their revert conditions, and the life cycle of a batch.
  A call that reverts is \<open>Inl\<close> of its reason; the storage is then unchanged.

  \<open>checkSignatures\<close> (EigenLayer middleware), \<open>keccak256\<close> and
  \<open>Merkle.verifyInclusionKeccak\<close> are arguments. The locale \<open>batch_registry\<close> is what the
  aggregator relies on when it retries a response.
\<close>

subsection \<open>Storage\<close>

record BatchState =
  taskCreatedBlock :: u32
  responded :: bool

text \<open>A Solidity mapping: every key has a value, zero until it is written.\<close>

type_synonym storage = "bytes32 \<Rightarrow> BatchState"

definition empty_storage :: storage where
  "empty_storage = (\<lambda>_. \<lparr>taskCreatedBlock = 0, responded = False\<rparr>)"

record QuorumStakeTotals =
  signedStakeForQuorum :: "96 word list"
  totalStakeForQuorum :: "96 word list"

datatype chain_event = NewBatch bytes32 u32 string | BatchVerified bytes32

definition THRESHOLD_DENOMINATOR :: nat where "THRESHOLD_DENOMINATOR = 100"
definition QUORUM_THRESHOLD_PERCENTAGE :: nat where "QUORUM_THRESHOLD_PERCENTAGE = 67"

subsection \<open>The calls\<close>

text \<open>\<open>block.number\<close> is a \<open>uint256\<close> (\<open>nat\<close> here), stored as \<open>uint32\<close>.\<close>

definition createNewTask ::
  "nat \<Rightarrow> bytes32 \<Rightarrow> string \<Rightarrow> storage \<Rightarrow> (storage \<times> chain_event list) result" where
  "createNewTask block_number batchMerkleRoot batchDataPointer batchesState =
     (if taskCreatedBlock (batchesState batchMerkleRoot) \<noteq> 0 then Inl ''Batch was already verified''
      else
        let batchState = \<lparr>taskCreatedBlock = word_of_nat block_number, responded = False\<rparr>
        in Inr (batchesState(batchMerkleRoot := batchState),
                [NewBatch batchMerkleRoot (word_of_nat block_number) batchDataPointer]))"

text \<open>
  The left product is in \<open>uint256\<close> and cannot overflow; the right one is in \<open>uint96\<close>, where
  Solidity 0.8 reverts on overflow. Reading element 0 of an empty array reverts.
\<close>

definition threshold_met :: "QuorumStakeTotals \<Rightarrow> bool result" where
  "threshold_met t =
     (if signedStakeForQuorum t = [] \<or> totalStakeForQuorum t = [] then Inl ''Panic(0x32)''
      else if 2 ^ 96 \<le> unat (hd (totalStakeForQuorum t)) * QUORUM_THRESHOLD_PERCENTAGE
        then Inl ''Panic(0x11)''
      else Inr (unat (hd (totalStakeForQuorum t)) * QUORUM_THRESHOLD_PERCENTAGE
                  \<le> unat (hd (signedStakeForQuorum t)) * THRESHOLD_DENOMINATOR))"

definition respondToTask ::
  "(bytes32 \<Rightarrow> u32 \<Rightarrow> 'n \<Rightarrow> (QuorumStakeTotals \<times> bytes32) result) \<Rightarrow>
   bytes32 \<Rightarrow> 'n \<Rightarrow> storage \<Rightarrow> (storage \<times> chain_event list) result" where
  "respondToTask checkSignatures batchMerkleRoot sig batchesState =
     (if taskCreatedBlock (batchesState batchMerkleRoot) = 0 then Inl ''Batch doesn't exists''
      else if responded (batchesState batchMerkleRoot) then Inl ''Batch already responded''
      else
        let batchesState = batchesState(batchMerkleRoot :=
              (batchesState batchMerkleRoot)\<lparr>responded := True\<rparr>)
        in rbind (checkSignatures batchMerkleRoot
                    (taskCreatedBlock (batchesState batchMerkleRoot)) sig) (\<lambda>(totals, _).
           rbind (threshold_met totals) (\<lambda>met.
             if met then Inr (batchesState, [BatchVerified batchMerkleRoot])
             else Inl ''Signatories do not own at least threshold percentage of a quorum'')))"

definition verifyBatchInclusion ::
  "(bytes \<Rightarrow> bytes32) \<Rightarrow> (bytes \<Rightarrow> bytes32 \<Rightarrow> bytes32 \<Rightarrow> nat \<Rightarrow> bool result) \<Rightarrow>
   bytes32 \<Rightarrow> bytes32 \<Rightarrow> bytes32 \<Rightarrow> bytes \<Rightarrow> bytes32 \<Rightarrow> bytes \<Rightarrow> nat \<Rightarrow> storage \<Rightarrow> bool result" where
  "verifyBatchInclusion keccak256 verifyInclusionKeccak proofCommitment pubInputCommitment
     provingSystemAuxDataCommitment proofGeneratorAddr batchMerkleRoot merkleProof
     verificationDataBatchIndex batchesState =
     (if taskCreatedBlock (batchesState batchMerkleRoot) = 0 then Inr False
      else if \<not> responded (batchesState batchMerkleRoot) then Inr False
      else
        let leaf = proofCommitment @ pubInputCommitment @ provingSystemAuxDataCommitment
              @ proofGeneratorAddr;
            hashedLeaf = keccak256 leaf
        in verifyInclusionKeccak merkleProof batchMerkleRoot hashedLeaf verificationDataBatchIndex)"

subsection \<open>Single calls\<close>

lemma createNewTask_Inr_iff:
  "createNewTask n r p st = Inr (st', ev) \<longleftrightarrow>
     taskCreatedBlock (st r) = 0 \<and>
     st' = st(r := \<lparr>taskCreatedBlock = word_of_nat n, responded = False\<rparr>) \<and>
     ev = [NewBatch r (word_of_nat n) p]"
  by (auto simp: createNewTask_def Let_def)

lemma threshold_met_iff:
  "threshold_met t = Inr b \<longleftrightarrow>
     signedStakeForQuorum t \<noteq> [] \<and> totalStakeForQuorum t \<noteq> [] \<and>
     unat (hd (totalStakeForQuorum t)) * 67 < 2 ^ 96 \<and>
     (b \<longleftrightarrow> unat (hd (totalStakeForQuorum t)) * 67 \<le> unat (hd (signedStakeForQuorum t)) * 100)"
  by (auto simp: threshold_met_def QUORUM_THRESHOLD_PERCENTAGE_def THRESHOLD_DENOMINATOR_def)

lemma respondToTask_Inr_iff:
  "respondToTask check r sig st = Inr (st', ev) \<longleftrightarrow>
     taskCreatedBlock (st r) \<noteq> 0 \<and> \<not> responded (st r) \<and>
     (\<exists>totals h. check r (taskCreatedBlock (st r)) sig = Inr (totals, h) \<and>
        threshold_met totals = Inr True) \<and>
     st' = st(r := (st r)\<lparr>responded := True\<rparr>) \<and> ev = [BatchVerified r]"
  by (fastforce simp: respondToTask_def Let_def go_simps split: prod.splits if_splits)

subsection \<open>What the aggregator relies on\<close>

text \<open>
  A registry of batches as those who answer see it: an accepted answer marks its batch, which
  had no answer, and no other. The client's lemmas are about retries.
\<close>

text \<open>The roots whose answers are accepted, when requests are executed one after the other.\<close>

fun accepted ::
  "('r \<Rightarrow> 'n \<Rightarrow> 'st \<Rightarrow> ('st \<times> 'e) result) \<Rightarrow> ('r \<times> 'n) list \<Rightarrow> 'st \<Rightarrow> 'st \<times> 'r list" where
  "accepted respond [] st = (st, [])"
| "accepted respond ((r, sig) # reqs) st =
     (case respond r sig st of
        Inl err \<Rightarrow> accepted respond reqs st
      | Inr (st', ev) \<Rightarrow> (case accepted respond reqs st' of (st'', rs) \<Rightarrow> (st'', r # rs)))"

locale batch_registry =
  fixes answered :: "'st \<Rightarrow> 'r \<Rightarrow> bool"
    and respond :: "'r \<Rightarrow> 'n \<Rightarrow> 'st \<Rightarrow> ('st \<times> 'e) result"
  assumes respond_marks: "respond r sig st = Inr (st', ev) \<Longrightarrow> \<not> answered st r \<and> answered st' r"
    and respond_frame: "respond r sig st = Inr (st', ev) \<Longrightarrow> r' \<noteq> r \<Longrightarrow> answered st' r' = answered st r'"
begin

lemma answered_once: "answered st r \<Longrightarrow> \<exists>e. respond r sig st = Inl e"
  using respond_marks [of r sig st] by (cases "respond r sig st") auto

lemma retries_accepted_once:
  "accepted respond reqs st = (st', rs) \<Longrightarrow>
     distinct rs \<and> (\<forall>r\<in>set rs. \<not> answered st r) \<and> (\<forall>r. answered st' r \<longleftrightarrow> answered st r \<or> r \<in> set rs)"
proof (induction reqs arbitrary: st st' rs)
  case (Cons req reqs)
  obtain r sig where req: "req = (r, sig)" by (cases req)
  show ?case
  proof (cases "respond r sig st")
    case (Inl err)
    then show ?thesis using Cons req by simp
  next
    case (Inr p)
    obtain st1 ev where p: "respond r sig st = Inr (st1, ev)" using Inr by (cases p) auto
    obtain st2 rs1 where rec: "accepted respond reqs st1 = (st2, rs1)" by fastforce
    have out: "st' = st2" "rs = r # rs1" using Cons.prems req p rec by simp_all
    from Cons.IH [OF rec] respond_marks [OF p] respond_frame [OF p] show ?thesis
      unfolding out by auto metis+
  qed
qed simp

end

interpretation contract: batch_registry "\<lambda>st r. responded (st r)" "respondToTask check" for check
  by unfold_locales (auto simp: respondToTask_Inr_iff)

subsection \<open>The life cycle of a batch\<close>

text \<open>One transaction that the chain executes without a revert.\<close>

inductive chain_step ::
  "(bytes32 \<Rightarrow> u32 \<Rightarrow> 'n \<Rightarrow> (QuorumStakeTotals \<times> bytes32) result) \<Rightarrow>
   storage \<Rightarrow> chain_event list \<Rightarrow> storage \<Rightarrow> bool" for check where
  create: "createNewTask n r p st = Inr (st', ev) \<Longrightarrow> chain_step check st ev st'"
| respond: "respondToTask check r sig st = Inr (st', ev) \<Longrightarrow> chain_step check st ev st'"

inductive_cases chain_stepE: "chain_step check st ev st'"

text \<open>The storage and the log of events after any sequence of transactions.\<close>

inductive chain_run ::
  "(bytes32 \<Rightarrow> u32 \<Rightarrow> 'n \<Rightarrow> (QuorumStakeTotals \<times> bytes32) result) \<Rightarrow>
   storage \<Rightarrow> chain_event list \<Rightarrow> bool" for check where
  deployed: "chain_run check empty_storage []"
| stepped: "chain_run check st log \<Longrightarrow> chain_step check st ev st' \<Longrightarrow> chain_run check st' (log @ ev)"

text \<open>
  The storage agrees with the log: a batch is marked as responded exactly when its
  verification was logged, and then it had been created.
\<close>

definition storage_inv :: "storage \<Rightarrow> chain_event list \<Rightarrow> bool" where
  "storage_inv st log \<longleftrightarrow>
     (\<forall>r. (responded (st r) \<longleftrightarrow> BatchVerified r \<in> set log) \<and>
          (responded (st r) \<longrightarrow> taskCreatedBlock (st r) \<noteq> 0) \<and>
          (taskCreatedBlock (st r) \<noteq> 0 \<longrightarrow> (\<exists>p. NewBatch r (taskCreatedBlock (st r)) p \<in> set log)) \<and>
          count_list log (BatchVerified r) \<le> 1)"

lemma storage_inv_empty: "storage_inv empty_storage []"
  by (simp add: storage_inv_def empty_storage_def)

lemma storage_inv_step:
  assumes inv: "storage_inv st log" and step: "chain_step check st ev st'"
  shows "storage_inv st' (log @ ev)"
  using step
proof cases
  case (create n r p)
  then have c: "taskCreatedBlock (st r) = 0"
      "st' = st(r := \<lparr>taskCreatedBlock = word_of_nat n, responded = False\<rparr>)"
      "ev = [NewBatch r (word_of_nat n) p]"
    by (auto simp: createNewTask_Inr_iff)
  then have "\<not> responded (st r)" using inv by (auto simp: storage_inv_def)
  then have "BatchVerified r \<notin> set log" using inv by (auto simp: storage_inv_def)
  with inv c show ?thesis by (auto simp: storage_inv_def)
next
  case (respond r sig)
  then have c: "taskCreatedBlock (st r) \<noteq> 0" "\<not> responded (st r)"
      "st' = st(r := (st r)\<lparr>responded := True\<rparr>)" "ev = [BatchVerified r]"
    by (auto simp: respondToTask_Inr_iff)
  then have "BatchVerified r \<notin> set log" using inv by (auto simp: storage_inv_def)
  then have "count_list log (BatchVerified r) = 0" by (simp add: count_list_0_iff)
  with inv c show ?thesis by (auto simp: storage_inv_def)
qed

lemma chain_run_inv: "chain_run check st log \<Longrightarrow> storage_inv st log"
  by (induction rule: chain_run.induct) (auto intro: storage_inv_empty storage_inv_step)

lemma chain_step_responded: "chain_step check st ev st' \<Longrightarrow> storage_inv st log \<Longrightarrow>
    responded (st r) \<Longrightarrow> responded (st' r)"
  by (auto elim!: chain_stepE simp: createNewTask_Inr_iff respondToTask_Inr_iff storage_inv_def)

subsection \<open>Properties\<close>

text \<open>Signatures for the witnesses: a signature is the totals it proves.\<close>

definition totals_check :: "bytes32 \<Rightarrow> u32 \<Rightarrow> QuorumStakeTotals \<Rightarrow> (QuorumStakeTotals \<times> bytes32) result" where
  "totals_check r blk t = Inr (t, [])"

definition example_totals :: "96 word \<Rightarrow> QuorumStakeTotals" where
  "example_totals s = \<lparr>signedStakeForQuorum = [s], totalStakeForQuorum = [100]\<rparr>"

text \<open>A response is accepted exactly when the batch exists, has not been answered, its
  signatures check at the block it was created, and the signers own at least 67 of every 100
  parts of the quorum's stake (in arithmetic that does not overflow); then only the batch's flag
  changes and its verification is logged.\<close>

theorem respond_accepted_iff:
  "respondToTask check r sig st = Inr (st', ev) \<longleftrightarrow>
     taskCreatedBlock (st r) \<noteq> 0 \<and> \<not> responded (st r) \<and>
     (\<exists>t h. check r (taskCreatedBlock (st r)) sig = Inr (t, h) \<and>
        signedStakeForQuorum t \<noteq> [] \<and> totalStakeForQuorum t \<noteq> [] \<and>
        unat (hd (totalStakeForQuorum t)) * 67 < 2 ^ 96 \<and>
        unat (hd (totalStakeForQuorum t)) * 67 \<le> unat (hd (signedStakeForQuorum t)) * 100) \<and>
     st' = st(r := (st r)\<lparr>responded := True\<rparr>) \<and> ev = [BatchVerified r]"
  by (auto simp: respondToTask_Inr_iff threshold_met_iff)

text \<open>C15: after any sequence of transactions, a batch is marked as responded exactly when its
  verification was logged; it was logged at most once, and only for a batch whose creation was
  logged with the block that is stored.\<close>

theorem chain_storage_agrees_with_log:
  assumes "chain_run check st log"
  shows "(responded (st r) \<longleftrightarrow> BatchVerified r \<in> set log) \<and>
    count_list log (BatchVerified r) \<le> 1 \<and>
    (responded (st r) \<longrightarrow> taskCreatedBlock (st r) \<noteq> 0) \<and>
    (taskCreatedBlock (st r) \<noteq> 0 \<longrightarrow> (\<exists>p. NewBatch r (taskCreatedBlock (st r)) p \<in> set log))"
  using chain_run_inv [OF assms] by (auto simp: storage_inv_def)

lemma example_chain_run:
  "chain_run totals_check
     (empty_storage([7] := \<lparr>taskCreatedBlock = 5, responded = True\<rparr>))
     [NewBatch [7] 5 ''url'', BatchVerified [7]]"
proof -
  let ?st1 = "empty_storage([7] := \<lparr>taskCreatedBlock = 5, responded = False\<rparr>)"
  have "chain_step totals_check empty_storage [NewBatch [7] 5 ''url''] ?st1"
    by (rule chain_step.create [of 5 "[7]" "''url''"]) (simp add: createNewTask_def empty_storage_def)
  from chain_run.stepped [OF chain_run.deployed this]
  have 1: "chain_run totals_check ?st1 [NewBatch [7] 5 ''url'']" by simp
  have "chain_step totals_check ?st1 [BatchVerified [7]]
      (empty_storage([7] := \<lparr>taskCreatedBlock = 5, responded = True\<rparr>))"
    by (rule chain_step.respond [of _ "[7]" "example_totals 67"])
      (simp add: respondToTask_Inr_iff totals_check_def example_totals_def threshold_met_iff)
  from chain_run.stepped [OF 1 this] show ?thesis by simp
qed

theorem chain_storage_agrees_with_log_witness:
  "responded ((empty_storage([7] := \<lparr>taskCreatedBlock = 5, responded = True\<rparr>)) [7]) \<longleftrightarrow>
     BatchVerified [7] \<in> set [NewBatch [7] 5 ''url'', BatchVerified [7]]"
  using chain_storage_agrees_with_log [OF example_chain_run, of "[7]"] by simp

text \<open>What \<open>verifyBatchInclusion\<close> confirms was verified: if it answers true after any
  sequence of transactions, the verification of the batch is in the log and the Merkle proof
  holds for the hash of the leaf's four parts.\<close>

theorem inclusion_only_of_verified_batches:
  assumes "chain_run check st log"
    and "verifyBatchInclusion keccak merkle pc pic pac addr r proof i st = Inr True"
  shows "BatchVerified r \<in> set log \<and> merkle proof r (keccak (pc @ pic @ pac @ addr)) i = Inr True"
  using chain_run_inv [OF assms(1)] assms(2)
  by (auto simp: verifyBatchInclusion_def storage_inv_def Let_def split: if_splits)

theorem inclusion_only_of_verified_batches_witness:
  "BatchVerified [7] \<in> set [NewBatch [7] 5 ''url'', BatchVerified [7]]"
  using inclusion_only_of_verified_batches [OF example_chain_run, of "\<lambda>b. b" "\<lambda>p r l i. Inr (l = [1, 2, 3, 4])"
      "[1]" "[2]" "[3]" "[4]" "[7]" "[]" 0]
  by (simp add: verifyBatchInclusion_def)

end
