(* ===== verification/Rpc_Client.thy ===== *)
theory Rpc_Client
  imports Core_Types
begin

text \<open>
  The operator's RPC client (\<open>operator/pkg/rpc_client.go\<close>): it dials the aggregator and sends
  a signed response, at most \<open>MaxRetries\<close> times, dialling again when the connection was shut
  down. The network (\<open>net/rpc\<close> and everything behind it) is the argument \<open>rpc_net\<close>; the
  state is the client's connection and the world.
\<close>

datatype rpc_error = ErrShutdown | OtherError string

record ('c, 's, 'w) rpc_net =
  rpc_DialHTTP :: "string \<Rightarrow> string \<Rightarrow> 'w \<Rightarrow> 'w \<times> 'c result"
  rpc_Call :: "'c \<Rightarrow> string \<Rightarrow> 's SignedTaskResponse \<Rightarrow> 'w \<Rightarrow> 'w \<times> (rpc_error + u8)"
  rpc_Sleep :: "nat \<Rightarrow> 'w \<Rightarrow> 'w"

record 'c AggregatorRpcClient =
  rpcClient :: 'c
  aggregatorIpPortAddr :: string

definition NewAggregatorRpcClient ::
  "('c, 's, 'w) rpc_net \<Rightarrow> string \<Rightarrow> 'w \<Rightarrow> 'w \<times> 'c AggregatorRpcClient result" where
  "NewAggregatorRpcClient net addr w =
     (case rpc_DialHTTP net ''tcp'' addr w of
        (w, Inl err) \<Rightarrow> (w, Inl err)
      | (w, Inr client) \<Rightarrow> (w, Inr \<lparr>rpcClient = client, aggregatorIpPortAddr = addr\<rparr>))"

definition rpc_MaxRetries :: nat where "rpc_MaxRetries = 10"
definition rpc_RetryInterval :: nat where "rpc_RetryInterval = 10 * second"

text \<open>The loop; its result is the reply, which the method only logs.\<close>

fun send_loop ::
  "('c, 's, 'w) rpc_net \<Rightarrow> 's SignedTaskResponse \<Rightarrow> nat \<Rightarrow> 'c AggregatorRpcClient \<times> 'w \<Rightarrow>
     ('c AggregatorRpcClient \<times> 'w) \<times> u8 option" where
  "send_loop net resp 0 s = (s, None)"
| "send_loop net resp (Suc n) (c, w) =
     (case rpc_Call net (rpcClient c) ''Aggregator.ProcessOperatorSignedTaskResponse'' resp w of
        (w, Inr reply) \<Rightarrow> ((c, w), Some reply)
      | (w, Inl ErrShutdown) \<Rightarrow>
          (case rpc_DialHTTP net ''tcp'' (aggregatorIpPortAddr c) w of
             (w, Inl err) \<Rightarrow> send_loop net resp n (c, rpc_Sleep net rpc_RetryInterval w)
           | (w, Inr client) \<Rightarrow> send_loop net resp n (c\<lparr>rpcClient := client\<rparr>, w))
      | (w, Inl (OtherError e)) \<Rightarrow> send_loop net resp n (c, rpc_Sleep net rpc_RetryInterval w))"

definition SendSignedTaskResponseToAggregator ::
  "('c, 's, 'w) rpc_net \<Rightarrow> 's SignedTaskResponse \<Rightarrow> 'c AggregatorRpcClient \<times> 'w \<Rightarrow>
     ('c AggregatorRpcClient \<times> 'w) \<times> u8 option" where
  "SendSignedTaskResponseToAggregator net resp s = send_loop net resp rpc_MaxRetries s"

subsection \<open>The loop as a bounded retry\<close>

definition call_attempt ::
  "('c, 's, 'w) rpc_net \<Rightarrow> 's SignedTaskResponse \<Rightarrow> 'c AggregatorRpcClient \<times> 'w \<Rightarrow>
     ('c AggregatorRpcClient \<times> 'w) \<times> u8 option" where
  "call_attempt net resp s =
     (let c = fst s in
      case rpc_Call net (rpcClient c) ''Aggregator.ProcessOperatorSignedTaskResponse'' resp (snd s) of
        (w, Inr reply) \<Rightarrow> ((c, w), Some reply)
      | (w, Inl ErrShutdown) \<Rightarrow>
          (case rpc_DialHTTP net ''tcp'' (aggregatorIpPortAddr c) w of
             (w, Inl err) \<Rightarrow> ((c, rpc_Sleep net rpc_RetryInterval w), None)
           | (w, Inr client) \<Rightarrow> ((c\<lparr>rpcClient := client\<rparr>, w), None))
      | (w, Inl (OtherError e)) \<Rightarrow> ((c, rpc_Sleep net rpc_RetryInterval w), None))"

interpretation rpc_send: bounded_retry "send_loop net resp" "call_attempt net resp" "\<lambda>s. s"
  for net :: "('c, 's, 'w) rpc_net" and resp
proof
  show "send_loop net resp 0 s = (s, None)" for s by simp
  show "send_loop net resp (Suc n) s =
      (case call_attempt net resp s of (s', Some r) \<Rightarrow> (s', Some r) | (s', None) \<Rightarrow> send_loop net resp n s')"
    for n s
    by (cases s) (auto simp: call_attempt_def split: prod.splits sum.splits rpc_error.splits)
qed

lemma call_attempt_Some:
  "call_attempt net resp s = (s', Some r) \<longleftrightarrow>
     rpc_Call net (rpcClient (fst s)) ''Aggregator.ProcessOperatorSignedTaskResponse'' resp (snd s)
       = (snd s', Inr r) \<and> fst s' = fst s"
  by (cases s') (auto simp: call_attempt_def Let_def split: prod.splits sum.splits rpc_error.splits)

lemma call_attempt_addr:
  "aggregatorIpPortAddr (fst (fst (call_attempt net resp s))) = aggregatorIpPortAddr (fst s)"
  by (auto simp: call_attempt_def Let_def split: prod.splits sum.splits rpc_error.splits)

lemma call_attempt_cost:
  assumes "\<And>c m r w. cost (fst (rpc_Call net c m r w)) \<le> cost w + (1 :: nat)"
    and "\<And>p a w. cost (fst (rpc_DialHTTP net p a w)) \<le> cost w"
    and "\<And>t w. cost (rpc_Sleep net t w) \<le> cost w"
  shows "cost (snd (fst (call_attempt net resp s))) \<le> cost (snd s) + 1"
proof -
  let ?m = "''Aggregator.ProcessOperatorSignedTaskResponse''"
  obtain w r where w: "rpc_Call net (rpcClient (fst s)) ?m resp (snd s) = (w, r)" by fastforce
  have 1: "cost w \<le> cost (snd s) + 1" using assms(1) [of "rpcClient (fst s)" ?m resp "snd s"] w by simp
  have 2: "cost (rpc_Sleep net t w) \<le> cost (snd s) + 1" for t
    using assms(3) [of t w] 1 by linarith
  obtain v q where v: "rpc_DialHTTP net ''tcp'' (aggregatorIpPortAddr (fst s)) w = (v, q)" by fastforce
  have 3: "cost v \<le> cost (snd s) + 1"
    using assms(2) [of "''tcp''" "aggregatorIpPortAddr (fst s)" w] v 1 by simp
  have 4: "cost (rpc_Sleep net t v) \<le> cost (snd s) + 1" for t
    using assms(3) [of t v] 3 by linarith
  show ?thesis
    using w v 1 2 3 4 by (auto simp: call_attempt_def Let_def split: sum.splits rpc_error.splits)
qed

lemma rounds_addr:
  "aggregatorIpPortAddr (fst (rounds (call_attempt net resp) (\<lambda>s. s) k s)) = aggregatorIpPortAddr (fst s)"
  by (induction k arbitrary: s) (simp_all add: rounds_Suc call_attempt_addr)

subsection \<open>Properties\<close>

text \<open>A network for the witnesses: calls are counted, and the connection 0 is shut down.\<close>

definition counting_net :: "(nat, 's, nat) rpc_net" where
  "counting_net = \<lparr>rpc_DialHTTP = \<lambda>p a w. (w, Inr 1),
     rpc_Call = \<lambda>c m r w. (Suc w, if c = 0 then Inl ErrShutdown else Inr 0),
     rpc_Sleep = \<lambda>t w. w\<rparr>"

text \<open>The client stops at the first call that comes back without an error, whatever the
  reply says, and otherwise gives up after ten calls; in both cases the address it dials is the
  configured one. So a response that the aggregator answers with 1 (its signature is lost) is
  not sent again.\<close>

lemma rpc_send_result:
  assumes "SendSignedTaskResponseToAggregator net resp s = (s', r)"
  shows "(r \<noteq> None \<longleftrightarrow> (\<exists>k<10. \<exists>reply.
       rpc_Call net (rpcClient (fst (rounds (call_attempt net resp) (\<lambda>s. s) k s)))
         ''Aggregator.ProcessOperatorSignedTaskResponse'' resp
         (snd (rounds (call_attempt net resp) (\<lambda>s. s) k s)) = (snd s', Inr reply)
       \<and> r = Some reply
       \<and> (\<forall>j<k. snd (call_attempt net resp (rounds (call_attempt net resp) (\<lambda>s. s) j s)) = None)))
    \<and> aggregatorIpPortAddr (fst s') = aggregatorIpPortAddr (fst s)"
proof -
  let ?r = "\<lambda>k. rounds (call_attempt net resp) (\<lambda>s. s) k s"
  have l: "send_loop net resp 10 s = (s', r)"
    using assms by (simp add: SendSignedTaskResponseToAggregator_def rpc_MaxRetries_def)
  show ?thesis
  proof (cases rule: rpc_send.loop_cases [of 10 net resp s])
    case (found k t q)
    then have "r = Some q" "t = s'" using l by auto
    then show ?thesis using found rounds_addr [of net resp k s] by (auto simp: call_attempt_Some)
  next
    case exhausted
    then have "r = None" "s' = ?r 10" using l by auto
    then show ?thesis by (simp add: rounds_addr)
  qed
qed

text \<open>At most ten calls are made for a response, reconnections included: any count that one
  call raises by at most one, and nothing else raises, grows by at most ten.\<close>

theorem at_most_ten_calls:
  assumes "\<And>c m r w. cost (fst (rpc_Call net c m r w)) \<le> cost w + (1 :: nat)"
    and "\<And>p a w. cost (fst (rpc_DialHTTP net p a w)) \<le> cost w"
    and "\<And>t w. cost (rpc_Sleep net t w) \<le> cost w"
  shows "cost (snd (fst (SendSignedTaskResponseToAggregator net resp s))) \<le> cost (snd s) + 10"
proof -
  have "cost (snd (fst (send_loop net resp 10 s))) \<le> cost (snd s) + 10 * (1 + 0)"
    by (rule rpc_send.loop_cost [where m = "\<lambda>s. cost (snd s)"])
      (use call_attempt_cost [of cost net resp, OF assms] in simp_all)
  then show ?thesis by (simp add: SendSignedTaskResponseToAggregator_def rpc_MaxRetries_def)
qed

theorem at_most_ten_calls_witness:
  "snd (fst (SendSignedTaskResponseToAggregator counting_net
      \<lparr>BatchMerkleRoot = [], BlsSignature = (), OperatorId = []\<rparr>
      (\<lparr>rpcClient = 0, aggregatorIpPortAddr = ''a''\<rparr>, 0))) \<le> 0 + 10"
  using at_most_ten_calls [of "\<lambda>w. w" counting_net
      "\<lparr>BatchMerkleRoot = [], BlsSignature = (), OperatorId = []\<rparr>"
      "(\<lparr>rpcClient = 0, aggregatorIpPortAddr = ''a''\<rparr>, 0)"]
  by (simp add: counting_net_def)

end
