(* ===== verification/Proving_System.thy ===== *)
theory Proving_System
  imports Go_Base
begin

text \<open>
  The identifiers of the proving systems (\<open>common/proving_systems.go\<close>): the enumeration,
  its names, and the two functions between them. \<open>String\<close> indexes a table that has no
  entry for \<open>Halo2KZG\<close>, so it disagrees with \<open>ProvingSystemIdToString\<close> from there on.
\<close>

type_synonym ProvingSystemId = u16

definition GnarkPlonkBls12_381 :: ProvingSystemId where "GnarkPlonkBls12_381 = 0"
definition GnarkPlonkBn254 :: ProvingSystemId where "GnarkPlonkBn254 = 1"
definition Groth16Bn254 :: ProvingSystemId where "Groth16Bn254 = 2"
definition SP1 :: ProvingSystemId where "SP1 = 3"
definition Halo2KZG :: ProvingSystemId where "Halo2KZG = 4"
definition Halo2IPA :: ProvingSystemId where "Halo2IPA = 5"

lemmas ps_defs = GnarkPlonkBls12_381_def GnarkPlonkBn254_def Groth16Bn254_def SP1_def
  Halo2KZG_def Halo2IPA_def

text \<open>Method \<open>String\<close>: indexing an array out of its range panics.\<close>

definition ProvingSystemId_String :: "ProvingSystemId \<Rightarrow> string go" where
  "ProvingSystemId_String t =
     (let names = [''GnarkPlonkBls12_381'', ''GnarkPlonkBn254'', ''Groth16Bn254'', ''SP1'', ''Halo2IPA'']
      in if unat t < length names then Ret (names ! unat t) else Panic)"

definition ProvingSystemIdFromString :: "string \<Rightarrow> ProvingSystemId \<times> string option" where
  "ProvingSystemIdFromString provingSystem =
     (if provingSystem = ''GnarkPlonkBls12_381'' then (GnarkPlonkBls12_381, None)
      else if provingSystem = ''GnarkPlonkBn254'' then (GnarkPlonkBn254, None)
      else if provingSystem = ''Groth16Bn254'' then (Groth16Bn254, None)
      else if provingSystem = ''SP1'' then (SP1, None)
      else if provingSystem = ''Halo2KZG'' then (Halo2KZG, None)
      else if provingSystem = ''Halo2IPA'' then (Halo2IPA, None)
      else (0, Some (''unknown proving system: '' @ provingSystem)))"

definition ProvingSystemIdToString :: "ProvingSystemId \<Rightarrow> string \<times> string option" where
  "ProvingSystemIdToString provingSystem =
     (if provingSystem = GnarkPlonkBls12_381 then (''GnarkPlonkBls12_381'', None)
      else if provingSystem = GnarkPlonkBn254 then (''GnarkPlonkBn254'', None)
      else if provingSystem = Groth16Bn254 then (''Groth16Bn254'', None)
      else if provingSystem = SP1 then (''SP1'', None)
      else if provingSystem = Halo2KZG then (''Halo2KZG'', None)
      else if provingSystem = Halo2IPA then (''Halo2IPA'', None)
      else ('''', Some (''unknown proving system: '' @ show_nat (unat provingSystem))))"

text \<open>The identifiers the code gives a meaning to.\<close>

definition known_systems :: "ProvingSystemId list" where
  "known_systems = [GnarkPlonkBls12_381, GnarkPlonkBn254, Groth16Bn254, SP1, Halo2KZG, Halo2IPA]"

lemma known_systems_iff: "t \<in> set known_systems \<longleftrightarrow> unat t < 6"
proof
  assume "unat t < 6"
  then have "unat t \<in> {0, 1, 2, 3, 4, 5}" by auto
  then have "word_of_nat (unat t) \<in> set known_systems"
    by (auto simp: known_systems_def ps_defs simp del: of_nat_unat)
  then show "t \<in> set known_systems" by simp
qed (auto simp: known_systems_def ps_defs)

lemma ToString_known: "snd (ProvingSystemIdToString t) = None \<longleftrightarrow> t \<in> set known_systems"
  by (simp add: ProvingSystemIdToString_def known_systems_def)

lemma From_To: "result_of (ProvingSystemIdToString t) = Inr s \<Longrightarrow> ProvingSystemIdFromString s = (t, None)"
  by (auto simp: result_of_Inr_iff ProvingSystemIdToString_def ProvingSystemIdFromString_def
      split: if_splits)

lemma To_From: "result_of (ProvingSystemIdFromString s) = Inr t \<Longrightarrow> ProvingSystemIdToString t = (s, None)"
  by (auto simp: result_of_Inr_iff ProvingSystemIdToString_def ProvingSystemIdFromString_def ps_defs
      split: if_splits)

interpretation ps_name: exact_codec
  "\<lambda>t. result_of (ProvingSystemIdToString t)" "\<lambda>s. result_of (ProvingSystemIdFromString s)"
  by unfold_locales (simp_all add: From_To To_From)

lemma FromString_error_value:
  "snd (ProvingSystemIdFromString s) \<noteq> None \<Longrightarrow> fst (ProvingSystemIdFromString s) = 0"
  by (auto simp: ProvingSystemIdFromString_def split: if_splits)

lemma FromString_known:
  "snd (ProvingSystemIdFromString s) = None \<Longrightarrow> fst (ProvingSystemIdFromString s) \<in> set known_systems"
  by (auto simp: ProvingSystemIdFromString_def known_systems_def split: if_splits)

subsection \<open>The method \<open>String\<close>\<close>

text \<open>The method agrees with the function on the first four identifiers only: it names
  \<open>Halo2KZG\<close> \<open>Halo2IPA\<close>, and panics on \<open>Halo2IPA\<close> itself and on everything after.\<close>

lemma String_correct_below_4:
  "unat t < 4 \<Longrightarrow> ProvingSystemId_String t = Ret (fst (ProvingSystemIdToString t))"
proof -
  assume "unat t < 4"
  then have "unat t \<in> {0, 1, 2, 3}" by auto
  then have "word_of_nat (unat t) \<in> {GnarkPlonkBls12_381, GnarkPlonkBn254, Groth16Bn254, SP1}"
    by (auto simp: ps_defs simp del: of_nat_unat)
  then have "t \<in> {GnarkPlonkBls12_381, GnarkPlonkBn254, Groth16Bn254, SP1}" by simp
  then show ?thesis
    by (auto simp: ProvingSystemId_String_def ProvingSystemIdToString_def ps_defs)
qed

lemma String_Halo2KZG: "ProvingSystemId_String Halo2KZG = Ret ''Halo2IPA''"
  by (simp add: ProvingSystemId_String_def Halo2KZG_def)

lemma String_panics: "ProvingSystemId_String t = Panic \<longleftrightarrow> 5 \<le> unat t"
  by (auto simp: ProvingSystemId_String_def Let_def)

end
