(* ===== verification/Verification_Data.thy ===== *)
theory Verification_Data
  imports Proving_System
begin

text \<open>
  One entry of a batch (\<open>operator/pkg/verification_data.go\<close>) and the little-endian length
  fields inside its verification key, as \<open>encoding/binary\<close> reads them.
\<close>

record VerificationData =
  vd_ProvingSystemId :: ProvingSystemId
  vd_Proof :: gslice
  vd_PubInput :: gslice
  vd_VerificationKey :: gslice
  vd_VmProgramCode :: gslice

unbundle bit_operations_syntax

text \<open>\<open>binary.LittleEndian.Uint32\<close> of a slice of four bytes, and its inverse.\<close>

definition le32 :: "bytes \<Rightarrow> u32" where
  "le32 b = ucast (b ! 0) OR push_bit 8 (ucast (b ! 1)) OR push_bit 16 (ucast (b ! 2))
     OR push_bit 24 (ucast (b ! 3))"

definition put_le32 :: "u32 \<Rightarrow> bytes" where
  "put_le32 x = [ucast x, ucast (drop_bit 8 x), ucast (drop_bit 16 x), ucast (drop_bit 24 x)]"

lemma length_put_le32 [simp]: "length (put_le32 x) = 4"
  by (simp add: put_le32_def)

lemma le32_put_le32 [simp]: "le32 (put_le32 x) = x"
proof (rule bit_word_eqI)
  fix n assume "n < LENGTH(32)"
  then have n: "n < 8 \<or> 8 \<le> n \<and> n < 16 \<or> 16 \<le> n \<and> n < 24 \<or> 24 \<le> n \<and> n < 32" by auto
  then show "bit (le32 (put_le32 x)) n \<longleftrightarrow> bit x n"
    by (elim disjE conjE)
      (auto simp: le32_def put_le32_def bit_or_iff bit_push_bit_iff bit_unsigned_iff bit_drop_bit_eq)
qed

end
