(* ===== verification/Gnark.thy ===== *)
theory Gnark
  imports Verification_Data
begin

text \<open>
  The gnark verifiers, which the program has twice: the operator's methods
  (\<open>verifyPlonkProof\<close>, \<open>verifyGroth16Proof\<close> and their curves in
  \<open>operator/pkg/operator.go\<close>) and the batcher's exported functions
  (\<open>batcher/aligned-batcher/gnark/verifier.go\<close>), which get their arguments from Rust as
  pointers with lengths. The gnark library is the argument \<open>gnark_backend\<close>: what it reads may
  be refused with an error, and any of its calls may panic.
\<close>

subsection \<open>The library\<close>

text \<open>The curves the code names.\<close>

datatype ecc_ID = BLS12_381 | BN254

record ('proof, 'wit, 'vk) gnark_backend =
  Proof_ReadFrom :: "ecc_ID \<Rightarrow> bytes \<Rightarrow> 'proof result go"
  Witness_New :: "ecc_ID \<Rightarrow> 'wit result go"
  Witness_ReadFrom :: "'wit \<Rightarrow> bytes \<Rightarrow> 'wit result go"
  VerifyingKey_ReadFrom :: "ecc_ID \<Rightarrow> bytes \<Rightarrow> 'vk result go"
  Verify :: "'proof \<Rightarrow> 'vk \<Rightarrow> 'wit \<Rightarrow> string option go"

text \<open>\<open>x, err := e; if err != nil { log; return false }; k\<close>\<close>

definition or_false :: "'a result go \<Rightarrow> ('a \<Rightarrow> bool go) \<Rightarrow> bool go" where
  "or_false e k = gbind e (\<lambda>r. case r of Inl err \<Rightarrow> Ret False | Inr x \<Rightarrow> k x)"

lemma or_false_True_iff [go_simps]:
  "or_false e k = Ret True \<longleftrightarrow> (\<exists>x. e = Ret (Inr x) \<and> k x = Ret True)"
  by (cases e) (auto simp: or_false_def split: sum.splits)

subsection \<open>The operator's methods\<close>

definition verifyPlonkProof ::
  "('proof, 'wit, 'vk) gnark_backend \<Rightarrow> bytes \<Rightarrow> bytes \<Rightarrow> bytes \<Rightarrow> ecc_ID \<Rightarrow> bool go" where
  "verifyPlonkProof plonk proofBytes pubInputBytes verificationKeyBytes curve =
     or_false (Proof_ReadFrom plonk curve proofBytes) (\<lambda>proof.
     or_false (Witness_New plonk curve) (\<lambda>pubInput.
     or_false (Witness_ReadFrom plonk pubInput pubInputBytes) (\<lambda>pubInput.
     or_false (VerifyingKey_ReadFrom plonk curve verificationKeyBytes) (\<lambda>verificationKey.
     gbind (Verify plonk proof verificationKey pubInput) (\<lambda>err. Ret (err = None))))))"

definition verifyGroth16Proof ::
  "('proof, 'wit, 'vk) gnark_backend \<Rightarrow> bytes \<Rightarrow> bytes \<Rightarrow> bytes \<Rightarrow> ecc_ID \<Rightarrow> bool go" where
  "verifyGroth16Proof groth16 proofBytes pubInputBytes verificationKeyBytes curve =
     or_false (Proof_ReadFrom groth16 curve proofBytes) (\<lambda>proof.
     or_false (Witness_New groth16 curve) (\<lambda>pubInput.
     or_false (Witness_ReadFrom groth16 pubInput pubInputBytes) (\<lambda>pubInput.
     or_false (VerifyingKey_ReadFrom groth16 curve verificationKeyBytes) (\<lambda>verificationKey.
     gbind (Verify groth16 proof verificationKey pubInput) (\<lambda>err. Ret (err = None))))))"

definition verifyPlonkProofBLS12_381 ::
  "('proof, 'wit, 'vk) gnark_backend \<Rightarrow> bytes \<Rightarrow> bytes \<Rightarrow> bytes \<Rightarrow> bool go" where
  "verifyPlonkProofBLS12_381 plonk proofBytes pubInputBytes verificationKeyBytes =
     verifyPlonkProof plonk proofBytes pubInputBytes verificationKeyBytes BLS12_381"

definition verifyPlonkProofBN254 ::
  "('proof, 'wit, 'vk) gnark_backend \<Rightarrow> bytes \<Rightarrow> bytes \<Rightarrow> bytes \<Rightarrow> bool go" where
  "verifyPlonkProofBN254 plonk proofBytes pubInputBytes verificationKeyBytes =
     verifyPlonkProof plonk proofBytes pubInputBytes verificationKeyBytes BN254"

definition verifyGroth16ProofBN254 ::
  "('proof, 'wit, 'vk) gnark_backend \<Rightarrow> bytes \<Rightarrow> bytes \<Rightarrow> bytes \<Rightarrow> bool go" where
  "verifyGroth16ProofBN254 groth16 proofBytes pubInputBytes verificationKeyBytes =
     verifyGroth16Proof groth16 proofBytes pubInputBytes verificationKeyBytes BN254"

subsection \<open>The batcher's functions\<close>

text \<open>
  \<open>ListRef\<close>: the memory a pointer reaches and the claimed length, a \<open>uintptr_t\<close> of 64 bits.
  The Rust caller builds one from a slice (\<open>impl From<&[u8]> for ListRef\<close>).
\<close>

record ListRef =
  ref_ptr :: bytes
  ref_len :: u64

definition list_ref_of :: "bytes \<Rightarrow> ListRef" where
  "list_ref_of v = \<lparr>ref_ptr = v, ref_len = word_of_nat (length v)\<rparr>"

text \<open>
  \<open>C.GoBytes(ptr, C.int(len))\<close>: the length is cut down to a signed integer of 32 bits,
  and \<open>GoBytes\<close> panics on a negative one.
\<close>

definition listRefToBytes :: "ListRef \<Rightarrow> bytes go" where
  "listRefToBytes listRef =
     (let n = sint (ucast (ref_len listRef) :: 32 word) in
      if n < 0 then Panic else Ret (take (nat n) (ref_ptr listRef)))"

definition batcher_verifyPlonkProof ::
  "('proof, 'wit, 'vk) gnark_backend \<Rightarrow> ListRef \<Rightarrow> ListRef \<Rightarrow> ListRef \<Rightarrow> ecc_ID \<Rightarrow> bool go" where
  "batcher_verifyPlonkProof plonk proofBytesRef pubInputBytesRef verificationKeyBytesRef curve =
     gbind (listRefToBytes proofBytesRef) (\<lambda>proofBytes.
     gbind (listRefToBytes pubInputBytesRef) (\<lambda>pubInputBytes.
     gbind (listRefToBytes verificationKeyBytesRef) (\<lambda>verificationKeyBytes.
     or_false (Proof_ReadFrom plonk curve proofBytes) (\<lambda>proof.
     or_false (Witness_New plonk curve) (\<lambda>pubInput.
     or_false (Witness_ReadFrom plonk pubInput pubInputBytes) (\<lambda>pubInput.
     or_false (VerifyingKey_ReadFrom plonk curve verificationKeyBytes) (\<lambda>verificationKey.
     gbind (Verify plonk proof verificationKey pubInput) (\<lambda>err. Ret (err = None)))))))))"

definition batcher_verifyGroth16Proof ::
  "('proof, 'wit, 'vk) gnark_backend \<Rightarrow> ListRef \<Rightarrow> ListRef \<Rightarrow> ListRef \<Rightarrow> ecc_ID \<Rightarrow> bool go" where
  "batcher_verifyGroth16Proof groth16 proofBytesRef pubInputBytesRef verificationKeyBytesRef curve =
     gbind (listRefToBytes proofBytesRef) (\<lambda>proofBytes.
     gbind (listRefToBytes pubInputBytesRef) (\<lambda>pubInputBytes.
     gbind (listRefToBytes verificationKeyBytesRef) (\<lambda>verificationKeyBytes.
     or_false (Proof_ReadFrom groth16 curve proofBytes) (\<lambda>proof.
     or_false (Witness_New groth16 curve) (\<lambda>pubInput.
     or_false (Witness_ReadFrom groth16 pubInput pubInputBytes) (\<lambda>pubInput.
     or_false (VerifyingKey_ReadFrom groth16 curve verificationKeyBytes) (\<lambda>verificationKey.
     gbind (Verify groth16 proof verificationKey pubInput) (\<lambda>err. Ret (err = None)))))))))"

definition batcher_VerifyPlonkProofBLS12_381 ::
  "('proof, 'wit, 'vk) gnark_backend \<Rightarrow> ListRef \<Rightarrow> ListRef \<Rightarrow> ListRef \<Rightarrow> bool go" where
  "batcher_VerifyPlonkProofBLS12_381 plonk proofBytes pubInputBytes verificationKeyBytes =
     batcher_verifyPlonkProof plonk proofBytes pubInputBytes verificationKeyBytes BLS12_381"

definition batcher_VerifyPlonkProofBN254 ::
  "('proof, 'wit, 'vk) gnark_backend \<Rightarrow> ListRef \<Rightarrow> ListRef \<Rightarrow> ListRef \<Rightarrow> bool go" where
  "batcher_VerifyPlonkProofBN254 plonk proofBytes pubInputBytes verificationKeyBytes =
     batcher_verifyPlonkProof plonk proofBytes pubInputBytes verificationKeyBytes BN254"

definition batcher_VerifyGroth16ProofBN254 ::
  "('proof, 'wit, 'vk) gnark_backend \<Rightarrow> ListRef \<Rightarrow> ListRef \<Rightarrow> ListRef \<Rightarrow> bool go" where
  "batcher_VerifyGroth16ProofBN254 groth16 proofBytes pubInputBytes verificationKeyBytes =
     batcher_verifyGroth16Proof groth16 proofBytes pubInputBytes verificationKeyBytes BN254"

subsection \<open>Crossing the foreign interface\<close>

lemma length_as_c_int:
  assumes "n < 2 ^ 32"
  shows "sint (ucast (word_of_nat n :: u64) :: 32 word) = (if n < 2 ^ 31 then int n else int n - 2 ^ 32)"
proof -
  have u: "(ucast (word_of_nat n :: u64) :: 32 word) = word_of_nat n"
    using assms by (simp add: unsigned_of_nat take_bit_nat_eq_self)
  have "sint (word_of_int (int n) :: 32 word) = (int n + 2 ^ 31) mod 2 ^ 32 - 2 ^ 31"
    unfolding int_word_sint by simp
  also have "\<dots> = (if n < 2 ^ 31 then int n else int n - 2 ^ 32)"
  proof (cases "n < 2 ^ 31")
    case True
    then show ?thesis by simp
  next
    case False
    then have "(int n - 2 ^ 31) mod 2 ^ 32 = int n - 2 ^ 31"
      using assms by (intro mod_pos_pos_trivial) simp_all
    moreover have "int n + 2 ^ 31 = (int n - 2 ^ 31) + 2 ^ 32" by simp
    ultimately have "(int n + 2 ^ 31) mod 2 ^ 32 = int n - 2 ^ 31"
      by (simp only: mod_add_self2)
    then show ?thesis using False by simp
  qed
  finally show ?thesis by (simp add: u)
qed

lemma listRefToBytes_of:
  assumes "length v < 2 ^ 32"
  shows "listRefToBytes (list_ref_of v) = (if length v < 2 ^ 31 then Ret v else Panic)"
  using assms by (simp add: listRefToBytes_def list_ref_of_def length_as_c_int Let_def)

text \<open>A backend for the witnesses: a proof is its public input, and the key is ignored.\<close>

definition echo_gnark :: "(bytes, bytes, unit) gnark_backend" where
  "echo_gnark = \<lparr>Proof_ReadFrom = \<lambda>c b. Ret (Inr b), Witness_New = \<lambda>c. Ret (Inr []),
     Witness_ReadFrom = \<lambda>w b. Ret (if b = [] then Inl ''EOF'' else Inr b),
     VerifyingKey_ReadFrom = \<lambda>c b. Ret (Inr ()),
     Verify = \<lambda>p vk w. Ret (if p = w then None else Some ''invalid proof'')\<rparr>"

lemma batcher_functions:
  assumes "length proof < 2 ^ 32" "length pub < 2 ^ 32" "length key < 2 ^ 32"
  shows "let small = length proof < 2 ^ 31 \<and> length pub < 2 ^ 31 \<and> length key < 2 ^ 31;
             P = list_ref_of proof; I = list_ref_of pub; K = list_ref_of key in
    batcher_VerifyPlonkProofBLS12_381 plonk P I K =
      (if small then verifyPlonkProofBLS12_381 plonk proof pub key else Panic) \<and>
    batcher_VerifyPlonkProofBN254 plonk P I K =
      (if small then verifyPlonkProofBN254 plonk proof pub key else Panic) \<and>
    batcher_VerifyGroth16ProofBN254 groth16 P I K =
      (if small then verifyGroth16ProofBN254 groth16 proof pub key else Panic)"
  using assms
  by (simp add: batcher_VerifyPlonkProofBLS12_381_def batcher_VerifyPlonkProofBN254_def
      batcher_VerifyGroth16ProofBN254_def batcher_verifyPlonkProof_def batcher_verifyGroth16Proof_def
      verifyPlonkProofBLS12_381_def verifyPlonkProofBN254_def verifyGroth16ProofBN254_def
      verifyPlonkProof_def verifyGroth16Proof_def listRefToBytes_of Let_def)

text \<open>C28: The batcher and the operators agree on every gnark proof: on arguments shorter than
  \<open>2^31\<close> bytes each of the batcher's three exported functions computes what the operator's
  method for the same system computes, error paths and panics included, so a proof the batcher
  admits is not refused by the operators. An argument between \<open>2^31\<close> and \<open>2^32\<close> bytes has a
  negative length in C and crashes the batcher, whichever of the three it is.\<close>

theorem batcher_agrees_with_operator:
  assumes "length proof < 2 ^ 32" "length pub < 2 ^ 32" "length key < 2 ^ 32"
  shows "let small = length proof < 2 ^ 31 \<and> length pub < 2 ^ 31 \<and> length key < 2 ^ 31;
             P = list_ref_of proof; I = list_ref_of pub; K = list_ref_of key in
    batcher_VerifyPlonkProofBLS12_381 plonk P I K =
      (if small then verifyPlonkProofBLS12_381 plonk proof pub key else Panic) \<and>
    batcher_VerifyPlonkProofBN254 plonk P I K =
      (if small then verifyPlonkProofBN254 plonk proof pub key else Panic) \<and>
    batcher_VerifyGroth16ProofBN254 groth16 P I K =
      (if small then verifyGroth16ProofBN254 groth16 proof pub key else Panic)"
  using assms by (rule batcher_functions)

theorem batcher_agrees_with_operator_witness:
  "batcher_VerifyGroth16ProofBN254 echo_gnark (list_ref_of [1, 2]) (list_ref_of [1, 2])
     (list_ref_of []) = Ret True
   \<and> batcher_VerifyPlonkProofBN254 echo_gnark (list_ref_of [1, 2]) (list_ref_of [1, 2])
     (list_ref_of []) = Ret True"
  using batcher_agrees_with_operator [of "[1, 2]" "[1, 2]" "[]" echo_gnark echo_gnark]
  by (simp add: verifyGroth16ProofBN254_def verifyGroth16Proof_def verifyPlonkProofBN254_def
      verifyPlonkProof_def echo_gnark_def or_false_def Let_def)

end
