(* ===== verification/Halo2.thy ===== *)
theory Halo2
  imports Verification_Data
begin

text \<open>
  The Halo2 verifiers: how the operator takes a verification key apart and fills the fixed
  buffers (the two Halo2 cases of \<open>verify\<close> in \<open>operator/pkg/operator.go\<close>), the cgo
  wrappers with their buffer sizes (\<open>operator/halo2ipa\<close>, \<open>operator/halo2kzg\<close>), the Rust
  functions behind them up to the calls of the halo2 library, and the writer of the key's format
  (\<open>task_sender/test_examples/halo2_ipa/src/main.rs\<close>).

  Both sides can crash the operator: a Go slice expression out of range panics, and so does a
  Rust one. A panic in a goroutine, or across the foreign interface, ends the process.
\<close>

subsection \<open>Sizes\<close>

record halo2_sizes =
  MaxProofSize :: nat
  MaxConstraintSystemSize :: nat
  MaxVerifierKeySize :: nat
  MaxSetupParamsSize :: nat
  MaxPublicInputSize :: nat

definition halo2ipa_sizes :: halo2_sizes where
  "halo2ipa_sizes = \<lparr>MaxProofSize = 8 * 1024, MaxConstraintSystemSize = 2 * 1024,
     MaxVerifierKeySize = 1024, MaxSetupParamsSize = 4 * 1024, MaxPublicInputSize = 4 * 1024\<rparr>"

definition halo2kzg_sizes :: halo2_sizes where
  "halo2kzg_sizes = \<lparr>MaxProofSize = 8 * 1024, MaxConstraintSystemSize = 2 * 1024,
     MaxVerifierKeySize = 1024, MaxSetupParamsSize = 4 * 1024, MaxPublicInputSize = 4 * 1024\<rparr>"

text \<open>The sizes the Rust functions are compiled with.\<close>

definition rust_ipa_sizes :: halo2_sizes where
  "rust_ipa_sizes = \<lparr>MaxProofSize = 4 * 1024, MaxConstraintSystemSize = 2 * 1024,
     MaxVerifierKeySize = 1024, MaxSetupParamsSize = 4 * 1024, MaxPublicInputSize = 4 * 1024\<rparr>"

definition rust_kzg_sizes :: halo2_sizes where
  "rust_kzg_sizes = \<lparr>MaxProofSize = 4 * 1024, MaxConstraintSystemSize = 2 * 1024,
     MaxVerifierKeySize = 1024, MaxSetupParamsSize = 4 * 1024, MaxPublicInputSize = 4 * 1024\<rparr>"

subsection \<open>Taking the key apart\<close>

text \<open>The arguments of the foreign call: five buffers and the lengths claimed for them.\<close>

record halo2_call =
  proofBuffer :: bytes
  proofLen :: u32
  csBuffer :: bytes
  csLen :: u32
  vkBuffer :: bytes
  vkLen :: u32
  paramBuffer :: bytes
  paramLen :: u32
  publicInputBuffer :: bytes
  publicInputLen :: u32

text \<open>The conversion \<open>(uint32)(len(s))\<close>.\<close>

definition len32 :: "gslice \<Rightarrow> u32" where
  "len32 s = word_of_nat (slen s)"

text \<open>The conversion of a slice to an array of \<open>n\<close> bytes, which panics when it is shorter.\<close>

definition to_array :: "nat \<Rightarrow> bytes \<Rightarrow> bytes go" where
  "to_array n b = (if n \<le> length b then Ret (take n b) else Panic)"

definition read_len :: "gslice \<Rightarrow> nat \<Rightarrow> u32 go" where
  "read_len paramsBytes lo =
     gbind (slice_range paramsBytes lo (lo + 4)) (\<lambda>b. Ret (le32 (go_copy (make_bytes 4) b)))"

definition halo2_args :: "halo2_sizes \<Rightarrow> VerificationData \<Rightarrow> halo2_call go" where
  "halo2_args sz data =
     (let proofBytes = go_copy (make_bytes (MaxProofSize sz)) (contents (vd_Proof data));
          paramsBytes = vd_VerificationKey data in
      gbind (read_len paramsBytes 0) (\<lambda>csLen.
      gbind (read_len paramsBytes 4) (\<lambda>vkLen.
      gbind (read_len paramsBytes 8) (\<lambda>paramsLen.
      let csOffset = 12 in
      gbind (slice_range paramsBytes (unat csOffset) (unat (csOffset + csLen))) (\<lambda>cs.
      let csBytes = go_copy (make_bytes (MaxConstraintSystemSize sz)) cs;
          vkOffset = csOffset + csLen in
      gbind (slice_range paramsBytes (unat vkOffset) (unat (vkOffset + vkLen))) (\<lambda>vk.
      let vkBytes = go_copy (make_bytes (MaxVerifierKeySize sz)) vk;
          paramsOffset = vkOffset + vkLen in
      gbind (slice_from paramsBytes (unat paramsOffset)) (\<lambda>params.
      let setupBytes = go_copy (make_bytes (MaxSetupParamsSize sz)) params;
          publicInputBytes = go_copy (make_bytes (MaxPublicInputSize sz)) (contents (vd_PubInput data)) in
      gbind (to_array (MaxProofSize sz) proofBytes) (\<lambda>proofArr.
      gbind (to_array (MaxConstraintSystemSize sz) csBytes) (\<lambda>csArr.
      gbind (to_array (MaxVerifierKeySize sz) vkBytes) (\<lambda>vkArr.
      gbind (to_array (MaxSetupParamsSize sz) setupBytes) (\<lambda>setupArr.
      gbind (to_array (MaxPublicInputSize sz) publicInputBytes) (\<lambda>pubArr.
      Ret \<lparr>proofBuffer = proofArr, proofLen = len32 (vd_Proof data),
           csBuffer = csArr, csLen = csLen, vkBuffer = vkArr, vkLen = vkLen,
           paramBuffer = setupArr, paramLen = paramsLen,
           publicInputBuffer = pubArr, publicInputLen = len32 (vd_PubInput data)\<rparr>))))))))))))"

type_synonym halo2_ffi = "halo2_call \<Rightarrow> bool go"

text \<open>The cgo wrappers: pointers to the first elements and the lengths, unchanged.\<close>

definition VerifyHalo2IpaProof :: "halo2_ffi \<Rightarrow> halo2_call \<Rightarrow> bool go" where
  "VerifyHalo2IpaProof verify_halo2_ipa_proof_ffi call = verify_halo2_ipa_proof_ffi call"

definition VerifyHalo2KzgProof :: "halo2_ffi \<Rightarrow> halo2_call \<Rightarrow> bool go" where
  "VerifyHalo2KzgProof verify_halo2_kzg_proof_ffi call = verify_halo2_kzg_proof_ffi call"

definition verify_Halo2IPA :: "halo2_ffi \<Rightarrow> VerificationData \<Rightarrow> bool go" where
  "verify_Halo2IPA ffi data = gbind (halo2_args halo2ipa_sizes data) (VerifyHalo2IpaProof ffi)"

definition verify_Halo2KZG :: "halo2_ffi \<Rightarrow> VerificationData \<Rightarrow> bool go" where
  "verify_Halo2KZG ffi data = gbind (halo2_args halo2kzg_sizes data) (VerifyHalo2KzgProof ffi)"

subsection \<open>The Rust side\<close>

text \<open>\<open>&buf[..n]\<close> of a buffer of \<open>cap\<close> bytes.\<close>

definition rust_prefix :: "nat \<Rightarrow> bytes \<Rightarrow> u32 \<Rightarrow> bytes go" where
  "rust_prefix cap buf n = (if unat n \<le> cap then Ret (take (unat n) buf) else Panic)"

function read_fr :: "(bytes \<Rightarrow> 'fr option) \<Rightarrow> bytes \<Rightarrow> 'fr list go" where
  "read_fr from_bytes buf =
     (if length buf < 32 then Ret []
      else case from_bytes (take 32 buf) of
        None \<Rightarrow> Panic
      | Some x \<Rightarrow> gbind (read_fr from_bytes (drop 32 buf)) (\<lambda>xs. Ret (x # xs)))"
  by pat_completeness auto
termination
  by (relation "measure (\<lambda>(_, buf). length buf)") auto

declare read_fr.simps [simp del]

text \<open>
  The halo2 library: its readers may refuse what they are given or panic, and so may its
  verifier.
\<close>

record ('cs, 'vk, 'p, 'fr) halo2_lib =
  deserialize_cs :: "bytes \<Rightarrow> 'cs option go"
  read_vk :: "bytes \<Rightarrow> 'cs \<Rightarrow> 'vk option go"
  read_params :: "bytes \<Rightarrow> 'p option go"
  fr_from_bytes :: "bytes \<Rightarrow> 'fr option"
  verify_proof :: "'p \<Rightarrow> 'vk \<Rightarrow> 'fr list \<Rightarrow> bytes \<Rightarrow> bool go"

text \<open>\<open>if let Ok(x) = e { k(x) } false\<close>\<close>

definition if_let :: "'a option go \<Rightarrow> ('a \<Rightarrow> bool go) \<Rightarrow> bool go" where
  "if_let e k = gbind e (\<lambda>r. case r of None \<Rightarrow> Ret False | Some x \<Rightarrow> k x)"

definition halo2_rust_ffi :: "halo2_sizes \<Rightarrow> ('cs, 'vk, 'p, 'fr) halo2_lib \<Rightarrow> halo2_ffi" where
  "halo2_rust_ffi sz lib c =
     gbind (rust_prefix (MaxConstraintSystemSize sz) (csBuffer c) (csLen c)) (\<lambda>cs_bytes.
     if_let (deserialize_cs lib cs_bytes) (\<lambda>cs.
     gbind (rust_prefix (MaxVerifierKeySize sz) (vkBuffer c) (vkLen c)) (\<lambda>vk_bytes.
     if_let (read_vk lib vk_bytes cs) (\<lambda>vk.
     gbind (rust_prefix (MaxSetupParamsSize sz) (paramBuffer c) (paramLen c)) (\<lambda>params_bytes.
     if_let (read_params lib params_bytes) (\<lambda>params.
     gbind (rust_prefix (MaxPublicInputSize sz) (publicInputBuffer c) (publicInputLen c)) (\<lambda>pub_bytes.
     gbind (read_fr (fr_from_bytes lib) pub_bytes) (\<lambda>instances.
     gbind (rust_prefix (MaxProofSize sz) (proofBuffer c) (proofLen c)) (\<lambda>proof.
     verify_proof lib params vk instances proof)))))))))"

definition verify_halo2_ipa_proof_ffi :: "('cs, 'vk, 'p, 'fr) halo2_lib \<Rightarrow> halo2_ffi" where
  "verify_halo2_ipa_proof_ffi lib = halo2_rust_ffi rust_ipa_sizes lib"

definition verify_halo2_kzg_proof_ffi :: "('cs, 'vk, 'p, 'fr) halo2_lib \<Rightarrow> halo2_ffi" where
  "verify_halo2_kzg_proof_ffi lib = halo2_rust_ffi rust_kzg_sizes lib"

subsection \<open>The writer of the key's format\<close>

definition write_params :: "bytes \<Rightarrow> bytes \<Rightarrow> bytes \<Rightarrow> bytes" where
  "write_params cs_buf vk_buf params_buf =
     put_le32 (word_of_nat (length cs_buf)) @ put_le32 (word_of_nat (length vk_buf))
     @ put_le32 (word_of_nat (length params_buf)) @ cs_buf @ vk_buf @ params_buf"

text \<open>
  What the verifier promises: the library's verdict on the five byte strings the submitter
  wrote, with no buffer between them.
\<close>

definition halo2_check :: "('cs, 'vk, 'p, 'fr) halo2_lib \<Rightarrow> bytes \<Rightarrow> bytes \<Rightarrow> bytes \<Rightarrow> bytes
    \<Rightarrow> bytes \<Rightarrow> bool go" where
  "halo2_check lib cs_buf vk_buf params_buf pub_input proof =
     if_let (deserialize_cs lib cs_buf) (\<lambda>cs.
     if_let (read_vk lib vk_buf cs) (\<lambda>vk.
     if_let (read_params lib params_buf) (\<lambda>params.
     gbind (read_fr (fr_from_bytes lib) pub_input) (\<lambda>instances.
     verify_proof lib params vk instances proof))))"

subsection \<open>The length fields\<close>

text \<open>The two lengths the offsets are computed from.\<close>

definition cs_length :: "bytes \<Rightarrow> nat" where
  "cs_length b = unat (le32 (take 4 b))"

definition vk_length :: "bytes \<Rightarrow> nat" where
  "vk_length b = unat (le32 (take 4 (drop 4 b)))"

lemma read_len_Ret:
  "lo + 4 \<le> length (backing s) \<Longrightarrow> read_len s lo = Ret (le32 (take 4 (drop lo (backing s))))"
  by (simp add: read_len_def slice_range_def go_copy_exact)

lemma read_len_Panic: "length (backing s) < lo + 4 \<Longrightarrow> read_len s lo = Panic"
  by (simp add: read_len_def slice_range_def)

lemma read_len_not_Fatal [simp]: "read_len s lo \<noteq> Fatal m"
  by (cases "lo + 4 \<le> length (backing s)") (simp_all add: read_len_Ret read_len_Panic)

lemma to_array_exact [simp]: "length b = n \<Longrightarrow> to_array n b = Ret b"
  by (simp add: to_array_def)

lemma unat_plus_le: "unat ((a :: u32) + b) = unat a + unat b \<or> unat (a + b) < unat a"
  using no_olen_add_nat [of a b] unat_plus_simple [of a b] word_le_nat_alt [of a "a + b"] by linarith

lemma unat_plus_fits: "unat (a :: u32) + unat b < 2 ^ 32 \<Longrightarrow> unat (a + b) = unat a + unat b"
  by (simp add: unat_word_ariths)

lemma unat_plus_wraps: "2 ^ 32 \<le> unat (a :: u32) + unat b \<Longrightarrow> unat (a + b) < unat a"
proof -
  assume "2 ^ 32 \<le> unat a + unat b"
  moreover have "unat (a + b) < 2 ^ 32" using unsigned_less [of "a + b"] by simp
  ultimately show ?thesis using unat_plus_le [of a b] by linarith
qed

subsection \<open>When the key can be taken apart\<close>

text \<open>The key holds its three length fields and the first two parts they announce.\<close>

definition key_fits :: "gslice \<Rightarrow> bool" where
  "key_fits key \<longleftrightarrow>
     12 \<le> slen key \<and> 12 + cs_length (contents key) + vk_length (contents key) \<le> slen key
     \<and> 12 + cs_length (contents key) + vk_length (contents key) < 2 ^ 32"

text \<open>The call the operator makes for a key that fits.\<close>

definition key_call :: "halo2_sizes \<Rightarrow> VerificationData \<Rightarrow> halo2_call" where
  "key_call sz data =
     (let b = contents (vd_VerificationKey data); cs = cs_length b; vk = vk_length b in
      \<lparr>proofBuffer = go_copy (make_bytes (MaxProofSize sz)) (contents (vd_Proof data)),
       proofLen = len32 (vd_Proof data),
       csBuffer = go_copy (make_bytes (MaxConstraintSystemSize sz)) (take cs (drop 12 b)),
       csLen = le32 (take 4 b),
       vkBuffer = go_copy (make_bytes (MaxVerifierKeySize sz)) (take vk (drop (12 + cs) b)),
       vkLen = le32 (take 4 (drop 4 b)),
       paramBuffer = go_copy (make_bytes (MaxSetupParamsSize sz)) (drop (12 + cs + vk) b),
       paramLen = le32 (take 4 (drop 8 b)),
       publicInputBuffer = go_copy (make_bytes (MaxPublicInputSize sz)) (contents (vd_PubInput data)),
       publicInputLen = len32 (vd_PubInput data)\<rparr>)"

lemma take_drop_contents:
  "lo + n \<le> slen s \<Longrightarrow> take n (drop lo (backing s)) = take n (drop lo (contents s))"
  by (simp add: contents_def drop_take min_absorb1)

lemma unat_12_plus: "12 + unat c < 2 ^ 32 \<Longrightarrow> unat (12 + (c :: u32)) = 12 + unat c"
  using unat_plus_fits [of 12 c] by simp

lemma halo2_args_fits:
  assumes ok: "slice_ok (vd_VerificationKey data)" and fits: "key_fits (vd_VerificationKey data)"
  shows "halo2_args sz data = Ret (key_call sz data)"
proof -
  let ?s = "vd_VerificationKey data"
  let ?b = "contents ?s"
  let ?c = "le32 (take 4 ?b)" and ?v = "le32 (take 4 (drop 4 ?b))"
  have len: "12 \<le> slen ?s" "slen ?s \<le> length (backing ?s)" "12 + unat ?c + unat ?v \<le> slen ?s"
    "12 + unat ?c + unat ?v < 2 ^ 32"
    using fits ok by (simp_all add: key_fits_def cs_length_def vk_length_def slice_ok_def)
  have r: "read_len ?s 0 = Ret ?c" "read_len ?s 4 = Ret ?v"
    "read_len ?s 8 = Ret (le32 (take 4 (drop 8 ?b)))"
    using len take_drop_contents [of 0 4 ?s] take_drop_contents [of 4 4 ?s]
      take_drop_contents [of 8 4 ?s] by (simp_all add: read_len_Ret)
  have o1: "unat (12 + ?c) = 12 + unat ?c" using len by (intro unat_12_plus) simp
  have o2: "unat (12 + ?c + ?v) = 12 + unat ?c + unat ?v"
    using o1 len unat_plus_fits [of "12 + ?c" ?v] by simp
  have s1: "slice_range ?s 12 (12 + unat ?c) = Ret (take (unat ?c) (drop 12 ?b))"
    using len take_drop_contents [of 12 "unat ?c" ?s] by (simp add: slice_range_Ret_iff)
  have s2: "slice_range ?s (12 + unat ?c) (12 + unat ?c + unat ?v)
      = Ret (take (unat ?v) (drop (12 + unat ?c) ?b))"
    using len take_drop_contents [of "12 + unat ?c" "unat ?v" ?s] by (simp add: slice_range_Ret_iff)
  have s3: "slice_from ?s (12 + unat ?c + unat ?v) = Ret (drop (12 + unat ?c + unat ?v) ?b)"
    using len by (simp add: slice_from_Ret_iff)
  show ?thesis
    by (simp add: halo2_args_def Let_def r o1 o2 s1 s2 s3 key_call_def cs_length_def vk_length_def)
qed

text \<open>A slice expression with offsets of 32 bits panics when its end wraps.\<close>

lemma slice_range_u32:
  "slice_range s (unat lo) (unat (lo + n :: u32)) =
     (if unat lo + unat n < 2 ^ 32 \<and> unat lo + unat n \<le> length (backing s)
      then Ret (take (unat n) (drop (unat lo) (backing s))) else Panic)"
proof (cases "unat lo + unat n < 2 ^ 32")
  case True
  then show ?thesis using unat_plus_fits [of lo n] by (auto simp: slice_range_def)
next
  case False
  then show ?thesis using unat_plus_wraps [of lo n] by (simp add: slice_range_def)
qed

lemma halo2_args_panics:
  assumes ok: "slice_ok (vd_VerificationKey data)" and not: "\<not> key_fits (vd_VerificationKey data)"
  shows "halo2_args sz data = Panic"
proof (cases "12 \<le> length (backing (vd_VerificationKey data))")
  case False
  then consider "length (backing (vd_VerificationKey data)) < 4"
    | "4 \<le> length (backing (vd_VerificationKey data))" "length (backing (vd_VerificationKey data)) < 8"
    | "8 \<le> length (backing (vd_VerificationKey data))" "length (backing (vd_VerificationKey data)) < 12"
    by linarith
  then show ?thesis
    by cases (simp_all add: halo2_args_def Let_def read_len_Ret read_len_Panic)
next
  case True
  let ?s = "vd_VerificationKey data"
  let ?c = "le32 (take 4 (backing ?s))" and ?v = "le32 (take 4 (drop 4 (backing ?s)))"
  have r: "read_len ?s 0 = Ret ?c" "read_len ?s 4 = Ret ?v"
    "read_len ?s 8 = Ret (le32 (take 4 (drop 8 (backing ?s))))"
    using True by (simp_all add: read_len_Ret)
  have bad: "slen ?s < 12 + unat ?c + unat ?v \<or> 2 ^ 32 \<le> 12 + unat ?c + unat ?v"
  proof (cases "12 \<le> slen ?s")
    case True
    then show ?thesis using not take_drop_contents [of 0 4 ?s] take_drop_contents [of 4 4 ?s]
      by (auto simp: key_fits_def cs_length_def vk_length_def)
  qed simp
  have s1: "slice_range ?s 12 (unat (12 + ?c)) =
      (if 12 + unat ?c < 2 ^ 32 \<and> 12 + unat ?c \<le> length (backing ?s)
       then Ret (take (unat ?c) (drop 12 (backing ?s))) else Panic)"
    using slice_range_u32 [of ?s 12 ?c] by simp
  show ?thesis
  proof (cases "12 + unat ?c < 2 ^ 32 \<and> 12 + unat ?c \<le> length (backing ?s)
      \<and> unat (12 + ?c) + unat ?v < 2 ^ 32 \<and> unat (12 + ?c) + unat ?v \<le> length (backing ?s)")
    case False
    then show ?thesis
      by (auto simp: halo2_args_def Let_def r s1 slice_range_u32 [of ?s "12 + ?c" ?v]
          split del: if_split split: if_splits)
  next
    case v: True
    then have "unat (12 + ?c + ?v) = 12 + unat ?c + unat ?v"
      using unat_12_plus [of ?c] unat_plus_fits [of "12 + ?c" ?v] by simp
    then have "slice_from ?s (unat (12 + ?c + ?v)) = Panic"
      using v bad unat_12_plus [of ?c] by (auto simp: slice_from_def)
    then show ?thesis
      using v by (simp add: halo2_args_def Let_def r s1 slice_range_u32 [of ?s "12 + ?c" ?v])
  qed
qed

lemma halo2_args_iff:
  "slice_ok (vd_VerificationKey data) \<Longrightarrow>
   halo2_args sz data = (if key_fits (vd_VerificationKey data) then Ret (key_call sz data) else Panic)"
  by (simp add: halo2_args_fits halo2_args_panics)

lemma key_call_buffers:
  "length (proofBuffer (key_call sz data)) = MaxProofSize sz"
  "length (csBuffer (key_call sz data)) = MaxConstraintSystemSize sz"
  "length (vkBuffer (key_call sz data)) = MaxVerifierKeySize sz"
  "length (paramBuffer (key_call sz data)) = MaxSetupParamsSize sz"
  "length (publicInputBuffer (key_call sz data)) = MaxPublicInputSize sz"
  by (simp_all add: key_call_def Let_def)

subsection \<open>The Rust side on buffers that hold what is claimed\<close>

text \<open>A library whose verifier crashes, to say where a long proof ends.\<close>

abbreviation crashing :: "('cs, 'vk, 'p, 'fr) halo2_lib \<Rightarrow> ('cs, 'vk, 'p, 'fr) halo2_lib" where
  "crashing lib \<equiv> lib\<lparr>verify_proof := \<lambda>_ _ _ _. Panic\<rparr>"

lemma rust_ffi_check:
  assumes "unat (csLen c) \<le> MaxConstraintSystemSize sz" "unat (vkLen c) \<le> MaxVerifierKeySize sz"
    "unat (paramLen c) \<le> MaxSetupParamsSize sz" "unat (publicInputLen c) \<le> MaxPublicInputSize sz"
  shows "halo2_rust_ffi sz lib c =
    halo2_check (if unat (proofLen c) \<le> MaxProofSize sz then lib else crashing lib)
      (take (unat (csLen c)) (csBuffer c)) (take (unat (vkLen c)) (vkBuffer c))
      (take (unat (paramLen c)) (paramBuffer c)) (take (unat (publicInputLen c)) (publicInputBuffer c))
      (take (unat (proofLen c)) (proofBuffer c))"
  using assms by (simp add: halo2_rust_ffi_def halo2_check_def rust_prefix_def)

lemma unat_u32 [simp]: "n < 2 ^ 32 \<Longrightarrow> unat (word_of_nat n :: u32) = n"
  by (simp add: unat_of_nat)

lemma write_params_lengths:
  assumes "length cs_buf < 2 ^ 32" "length vk_buf < 2 ^ 32" "length params_buf < 2 ^ 32"
  shows "cs_length (write_params cs_buf vk_buf params_buf) = length cs_buf"
    and "vk_length (write_params cs_buf vk_buf params_buf) = length vk_buf"
    and "unat (le32 (take 4 (drop 8 (write_params cs_buf vk_buf params_buf)))) = length params_buf"
  using assms
  by (simp_all add: write_params_def cs_length_def vk_length_def)

lemma write_params_parts:
  shows "take (length cs_buf) (drop 12 (write_params cs_buf vk_buf params_buf)) = cs_buf"
    and "take (length vk_buf) (drop (12 + length cs_buf) (write_params cs_buf vk_buf params_buf)) = vk_buf"
    and "drop (12 + length cs_buf + length vk_buf) (write_params cs_buf vk_buf params_buf) = params_buf"
  by (simp_all add: write_params_def)

lemma length_write_params [simp]:
  "length (write_params cs_buf vk_buf params_buf)
     = 12 + length cs_buf + length vk_buf + length params_buf"
  by (simp add: write_params_def)

text \<open>The sizes at which the submitter's byte strings reach the library whole.\<close>

definition halo2_sizes_ok :: "halo2_sizes \<Rightarrow> bytes \<Rightarrow> bytes \<Rightarrow> bytes \<Rightarrow> gslice \<Rightarrow> bool" where
  "halo2_sizes_ok sz cs_buf vk_buf params_buf pub \<longleftrightarrow>
     length cs_buf \<le> MaxConstraintSystemSize sz \<and> length vk_buf \<le> MaxVerifierKeySize sz
     \<and> length params_buf \<le> MaxSetupParamsSize sz \<and> slen pub \<le> MaxPublicInputSize sz"

lemma ffi_on_written_key:
  assumes key: "contents (vd_VerificationKey data) = write_params cs_buf vk_buf params_buf"
    and ok: "slice_ok (vd_VerificationKey data)" "slice_ok (vd_PubInput data)" "slice_ok (vd_Proof data)"
    and fit: "halo2_sizes_ok sz cs_buf vk_buf params_buf (vd_PubInput data)"
    and sz: "sz = rsz\<lparr>MaxProofSize := mp\<rparr>" "MaxProofSize rsz \<le> mp"
    and small: "MaxConstraintSystemSize sz \<le> 2 ^ 16" "MaxVerifierKeySize sz \<le> 2 ^ 16"
      "MaxSetupParamsSize sz \<le> 2 ^ 16" "MaxPublicInputSize sz \<le> 2 ^ 16"
    and proof_len: "slen (vd_Proof data) < 2 ^ 32"
  shows "key_fits (vd_VerificationKey data)"
    and "halo2_rust_ffi rsz lib (key_call sz data) =
      halo2_check (if slen (vd_Proof data) \<le> MaxProofSize rsz then lib else crashing lib)
        cs_buf vk_buf params_buf (contents (vd_PubInput data))
        (take (slen (vd_Proof data)) (go_copy (make_bytes mp) (contents (vd_Proof data))))"
proof -
  let ?w = "write_params cs_buf vk_buf params_buf"
  have small': "length cs_buf \<le> 2 ^ 16" "length vk_buf \<le> 2 ^ 16" "length params_buf \<le> 2 ^ 16"
    "slen (vd_PubInput data) \<le> 2 ^ 16"
    using fit small by (auto simp: halo2_sizes_ok_def)
  have l: "cs_length ?w = length cs_buf" "vk_length ?w = length vk_buf"
    "unat (le32 (take 4 (drop 8 ?w))) = length params_buf"
    using small' by (auto intro!: write_params_lengths)
  have u: "unat (le32 (take 4 ?w)) = length cs_buf" "unat (le32 (take 4 (drop 4 ?w))) = length vk_buf"
    using l by (simp_all add: cs_length_def vk_length_def)
  have "slen (vd_VerificationKey data) = length ?w"
    using key length_contents [OF ok(1)] by simp
  then show "key_fits (vd_VerificationKey data)"
    using key l small' by (simp add: key_fits_def)
  have p: "unat (len32 (vd_Proof data)) = slen (vd_Proof data)"
    "unat (len32 (vd_PubInput data)) = slen (vd_PubInput data)"
    using proof_len small' by (simp_all add: len32_def)
  have pub: "take (slen (vd_PubInput data)) (go_copy (make_bytes (MaxPublicInputSize rsz))
      (contents (vd_PubInput data))) = contents (vd_PubInput data)"
    using go_copy_whole [of "contents (vd_PubInput data)" "make_bytes (MaxPublicInputSize rsz)"]
      ok fit sz by (simp add: halo2_sizes_ok_def)
  have params: "take (length params_buf) (go_copy (make_bytes (MaxSetupParamsSize rsz)) params_buf)
      = params_buf"
    using fit sz by (intro go_copy_whole) (simp add: halo2_sizes_ok_def)
  have vk: "take (length vk_buf) (go_copy (make_bytes (MaxVerifierKeySize rsz)) vk_buf) = vk_buf"
    using fit sz by (intro go_copy_whole) (simp add: halo2_sizes_ok_def)
  have cs: "take (length cs_buf) (go_copy (make_bytes (MaxConstraintSystemSize rsz)) cs_buf) = cs_buf"
    using fit sz by (intro go_copy_whole) (simp add: halo2_sizes_ok_def)
  show "halo2_rust_ffi rsz lib (key_call sz data) =
      halo2_check (if slen (vd_Proof data) \<le> MaxProofSize rsz then lib else crashing lib)
        cs_buf vk_buf params_buf (contents (vd_PubInput data))
        (take (slen (vd_Proof data)) (go_copy (make_bytes mp) (contents (vd_Proof data))))"
    using fit sz
    by (subst rust_ffi_check)
      (simp_all add: key_call_def Let_def key u l p halo2_sizes_ok_def write_params_parts pub params vk cs)
qed

subsection \<open>Properties\<close>

text \<open>A library that accepts a proof equal to its one public input, and reads anything.\<close>

definition echo_lib :: "(bytes, bytes, bytes, bytes) halo2_lib" where
  "echo_lib = \<lparr>deserialize_cs = \<lambda>b. Ret (Some b), read_vk = \<lambda>b cs. Ret (Some b),
     read_params = \<lambda>b. Ret (Some b), fr_from_bytes = Some,
     verify_proof = \<lambda>p vk xs proof. Ret (xs = [proof])\<rparr>"

definition halo2_entry :: "bytes \<Rightarrow> bytes \<Rightarrow> bytes \<Rightarrow> VerificationData" where
  "halo2_entry proof pub key =
     \<lparr>vd_ProvingSystemId = Halo2IPA, vd_Proof = gs_of proof, vd_PubInput = gs_of pub,
      vd_VerificationKey = gs_of key, vd_VmProgramCode = gs_of []\<rparr>"

lemmas halo2_entry_simps = halo2_entry_def gs_of_def slice_ok_def contents_def

lemma halo2_max [simp]:
  "MaxProofSize halo2ipa_sizes = 8192" "MaxProofSize halo2kzg_sizes = 8192"
  "halo2ipa_sizes = rust_ipa_sizes\<lparr>MaxProofSize := 8192\<rparr>"
  "halo2kzg_sizes = rust_kzg_sizes\<lparr>MaxProofSize := 8192\<rparr>"
  "MaxProofSize rust_ipa_sizes = 4096" "MaxProofSize rust_kzg_sizes = 4096"
  by (simp_all add: halo2ipa_sizes_def halo2kzg_sizes_def rust_ipa_sizes_def rust_kzg_sizes_def)

lemma halo2_fit_sizes:
  "halo2_sizes_ok rust_ipa_sizes = halo2_sizes_ok halo2ipa_sizes"
  "halo2_sizes_ok rust_kzg_sizes = halo2_sizes_ok halo2ipa_sizes"
  by (simp_all add: fun_eq_iff halo2_sizes_ok_def halo2ipa_sizes_def rust_ipa_sizes_def rust_kzg_sizes_def)

text \<open>What both verifiers compute on a key in the writer's format.\<close>

lemma verify_written_key:
  assumes "contents (vd_VerificationKey data) = write_params cs_buf vk_buf params_buf"
    and "slice_ok (vd_VerificationKey data)" "slice_ok (vd_PubInput data)" "slice_ok (vd_Proof data)"
    and fit: "halo2_sizes_ok rust_ipa_sizes cs_buf vk_buf params_buf (vd_PubInput data)"
    and "slen (vd_Proof data) < 2 ^ 32"
  shows "verify_Halo2IPA (verify_halo2_ipa_proof_ffi lib) data =
      halo2_check (if slen (vd_Proof data) \<le> 4096 then lib else crashing lib)
        cs_buf vk_buf params_buf (contents (vd_PubInput data))
        (take (slen (vd_Proof data)) (go_copy (make_bytes 8192) (contents (vd_Proof data))))" (is ?ipa)
    and "verify_Halo2KZG (verify_halo2_kzg_proof_ffi lib) data =
      halo2_check (if slen (vd_Proof data) \<le> 4096 then lib else crashing lib)
        cs_buf vk_buf params_buf (contents (vd_PubInput data))
        (take (slen (vd_Proof data)) (go_copy (make_bytes 8192) (contents (vd_Proof data))))" (is ?kzg)
proof -
  have m: "halo2_sizes_ok (rust_ipa_sizes\<lparr>MaxProofSize := 8192\<rparr>) cs_buf vk_buf params_buf (vd_PubInput data)"
    "halo2_sizes_ok (rust_kzg_sizes\<lparr>MaxProofSize := 8192\<rparr>) cs_buf vk_buf params_buf (vd_PubInput data)"
    using fit by (simp_all add: halo2_sizes_ok_def rust_ipa_sizes_def rust_kzg_sizes_def)
  note ipa = ffi_on_written_key(2) [where rsz = rust_ipa_sizes and lib = lib, OF assms(1-4) m(1) refl]
    ffi_on_written_key(1) [where rsz = rust_ipa_sizes, OF assms(1-4) m(1) refl]
  note kzg = ffi_on_written_key(2) [where rsz = rust_kzg_sizes and lib = lib, OF assms(1-4) m(2) refl]
    ffi_on_written_key(1) [where rsz = rust_kzg_sizes, OF assms(1-4) m(2) refl]
  show ?ipa using ipa assms
    by (simp add: verify_Halo2IPA_def VerifyHalo2IpaProof_def verify_halo2_ipa_proof_ffi_def
        halo2_args_iff rust_ipa_sizes_def)
  show ?kzg using kzg assms
    by (simp add: verify_Halo2KZG_def VerifyHalo2KzgProof_def verify_halo2_kzg_proof_ffi_def
        halo2_args_iff rust_kzg_sizes_def)
qed

text \<open>On such a key the buffers and lengths leave no trace, up to the size the Rust side has.\<close>

lemma halo2_short_verdict:
  assumes "contents (vd_VerificationKey data) = write_params cs_buf vk_buf params_buf"
    and "slice_ok (vd_VerificationKey data)" "slice_ok (vd_PubInput data)" "slice_ok (vd_Proof data)"
    and "halo2_sizes_ok halo2ipa_sizes cs_buf vk_buf params_buf (vd_PubInput data)"
    and "slen (vd_Proof data) \<le> 4096"
  shows "verify_Halo2IPA (verify_halo2_ipa_proof_ffi lib) data =
      halo2_check lib cs_buf vk_buf params_buf (contents (vd_PubInput data)) (contents (vd_Proof data))
    \<and> verify_Halo2KZG (verify_halo2_kzg_proof_ffi lib) data =
      halo2_check lib cs_buf vk_buf params_buf (contents (vd_PubInput data)) (contents (vd_Proof data))"
proof -
  have f: "halo2_sizes_ok rust_ipa_sizes cs_buf vk_buf params_buf (vd_PubInput data)"
    using assms(5) by (simp add: halo2_fit_sizes)
  have "take (slen (vd_Proof data)) (go_copy (make_bytes 8192) (contents (vd_Proof data)))
      = contents (vd_Proof data)"
    using go_copy_whole [of "contents (vd_Proof data)" "make_bytes 8192"] assms by simp
  then show ?thesis
    using verify_written_key [OF assms(1-4) f, of lib] assms(6) by simp
qed

text \<open>C25: The whole path of a Halo2 proof is a round trip: when the verification key is what the
  parameters' writer produces from a constraint system, a key and setup parameters, and every
  part fits its buffer (2048, 1024, 4096 bytes, 4096 of public input, 4096 of proof), both
  Halo2 verifiers return exactly the library's verdict on the submitter's five byte strings:
  the length fields, the offsets, the zero-filled buffers and the Rust slices leave no trace.\<close>

theorem halo2_path_is_library_verdict:
  assumes "vd_VerificationKey data = gs_of (write_params cs_buf vk_buf params_buf)"
    and "slice_ok (vd_PubInput data)" "slice_ok (vd_Proof data)"
    and "halo2_sizes_ok halo2ipa_sizes cs_buf vk_buf params_buf (vd_PubInput data)"
    and "slen (vd_Proof data) \<le> 4096"
  shows "verify_Halo2IPA (verify_halo2_ipa_proof_ffi lib) data =
      halo2_check lib cs_buf vk_buf params_buf (contents (vd_PubInput data)) (contents (vd_Proof data))
    \<and> verify_Halo2KZG (verify_halo2_kzg_proof_ffi lib) data =
      halo2_check lib cs_buf vk_buf params_buf (contents (vd_PubInput data)) (contents (vd_Proof data))"
  using halo2_short_verdict [OF _ _ assms(2-5), of lib] assms(1) by simp

theorem halo2_path_is_library_verdict_witness:
  "verify_Halo2IPA (verify_halo2_ipa_proof_ffi echo_lib)
     (halo2_entry (replicate 32 7) (replicate 32 7) (write_params [1] [2, 3] [4])) = Ret True
   \<and> verify_Halo2KZG (verify_halo2_kzg_proof_ffi echo_lib)
     (halo2_entry (replicate 31 7) (replicate 32 7) (write_params [1] [2, 3] [4])) = Ret False"
  using halo2_path_is_library_verdict [of "halo2_entry (replicate 32 7) (replicate 32 7)
      (write_params [1] [2, 3] [4])" "[1]" "[2, 3]" "[4]" echo_lib]
    halo2_path_is_library_verdict [of "halo2_entry (replicate 31 7) (replicate 32 7)
      (write_params [1] [2, 3] [4])" "[1]" "[2, 3]" "[4]" echo_lib]
  by (simp add: halo2_entry_simps halo2_sizes_ok_def rust_ipa_sizes_def halo2_check_def if_let_def
      echo_lib_def read_fr.simps)

text \<open>The operator takes a Halo2 verification key apart without any check of its own, and
  the conditions under which that crashes are these exactly: the key is shorter than its twelve
  bytes of length fields, or shorter than the offsets they announce, or the offsets reach
  \<open>2^32\<close>. The panic is not recovered and does not depend on the proof, so any submitter can
  cause it.\<close>

theorem halo2_key_panics_iff:
  assumes "slice_ok (vd_VerificationKey data)"
  shows "(halo2_args sz data = Panic \<longleftrightarrow>
      slen (vd_VerificationKey data) < 12
      \<or> slen (vd_VerificationKey data) < 12 + cs_length (contents (vd_VerificationKey data))
            + vk_length (contents (vd_VerificationKey data))
      \<or> 2 ^ 32 \<le> 12 + cs_length (contents (vd_VerificationKey data))
            + vk_length (contents (vd_VerificationKey data)))
    \<and> is_ret (halo2_args sz data) = (halo2_args sz data \<noteq> Panic)"
  using assms by (auto simp: halo2_args_iff key_fits_def)

theorem halo2_key_panics_iff_witness:
  "halo2_args halo2ipa_sizes (halo2_entry [] [] (replicate 11 0)) = Panic
   \<and> halo2_args halo2ipa_sizes (halo2_entry [] [] (replicate 12 0)) \<noteq> Panic
   \<and> halo2_args halo2ipa_sizes (halo2_entry [] [] (replicate 12 255)) = Panic"
  using halo2_key_panics_iff [of "halo2_entry [] [] (replicate 11 0)" halo2ipa_sizes]
    halo2_key_panics_iff [of "halo2_entry [] [] (replicate 12 0)" halo2ipa_sizes]
    halo2_key_panics_iff [of "halo2_entry [] [] (replicate 12 255)" halo2ipa_sizes]
  by (simp add: halo2_entry_simps cs_length_def vk_length_def le32_def)

text \<open>
  A Halo2 proof of 4097 bytes or more is never accepted, and when the library reads
  everything else it crashes the operator instead of being refused: the Go wrapper hands over
  up to 8192 bytes and the length of the slice, and the Rust side, built for 4096, slices its
  shorter array by that length.
\<close>

lemma halo2_long_proof_crashes:
  assumes "contents (vd_VerificationKey data) = write_params cs_buf vk_buf params_buf"
    and "slice_ok (vd_VerificationKey data)" "slice_ok (vd_PubInput data)" "slice_ok (vd_Proof data)"
    and "halo2_sizes_ok halo2ipa_sizes cs_buf vk_buf params_buf (vd_PubInput data)"
    and "4096 < slen (vd_Proof data)" "slen (vd_Proof data) < 2 ^ 32"
    and "deserialize_cs lib cs_buf = Ret (Some cs)" "read_vk lib vk_buf cs = Ret (Some vk)"
      "read_params lib params_buf = Ret (Some params)"
  shows "verify_Halo2IPA (verify_halo2_ipa_proof_ffi lib) data = Panic
    \<and> verify_Halo2KZG (verify_halo2_kzg_proof_ffi lib) data = Panic"
proof -
  have f: "halo2_sizes_ok rust_ipa_sizes cs_buf vk_buf params_buf (vd_PubInput data)"
    using assms(5) by (simp add: halo2_fit_sizes)
  have "read_fr h b \<noteq> Fatal m" for h :: "bytes \<Rightarrow> 'd option" and b m
    by (induction h b rule: read_fr.induct)
      (subst read_fr.simps, auto split: option.splits simp: gbind.simps elim!: gbind.elims)
  then have "gbind (read_fr (fr_from_bytes lib) (contents (vd_PubInput data))) (\<lambda>_. Panic) = Panic"
    by (cases "read_fr (fr_from_bytes lib) (contents (vd_PubInput data))") auto
  then show ?thesis
    using verify_written_key [OF assms(1-4) f, of lib] assms(6-)
    by (simp add: halo2_check_def if_let_def)
qed

end
