(* ===== verification/Operator_Verify.thy ===== *)
theory Operator_Verify
  imports Gnark Halo2
begin

text \<open>
  The operator's dispatch over the proving systems (\<open>verify\<close> in
  \<open>operator/pkg/operator.go\<close>) and the cgo wrappers that are not Halo2's: SP1 with the Rust
  function behind it, and the two that nothing calls (RISC Zero, and the Merkle root of a
  batch). The verifiers are the arguments collected in \<open>verifiers\<close>.
\<close>

subsection \<open>SP1\<close>

type_synonym sp1_ffi = "bytes \<Rightarrow> u32 \<Rightarrow> bytes \<Rightarrow> u32 \<Rightarrow> bool go"

text \<open>\<open>&buf[0]\<close> panics on an empty slice; the pointer reaches the backing array.\<close>

definition first_addr :: "gslice \<Rightarrow> bytes go" where
  "first_addr s = (if slen s = 0 then Panic else Ret (backing s))"

definition VerifySp1Proof :: "sp1_ffi \<Rightarrow> gslice \<Rightarrow> u32 \<Rightarrow> gslice \<Rightarrow> u32 \<Rightarrow> bool go" where
  "VerifySp1Proof verify_sp1_proof_ffi proof proof_len elf elf_len =
     gbind (first_addr proof) (\<lambda>proofPtr.
     gbind (first_addr elf) (\<lambda>elfPtr.
     verify_sp1_proof_ffi proofPtr proof_len elfPtr elf_len))"

record ('proof, 'vk) sp1_lib =
  sp1_deserialize :: "bytes \<Rightarrow> 'proof option go"
  sp1_setup :: "bytes \<Rightarrow> 'vk go"
  verify_compressed :: "'proof \<Rightarrow> 'vk \<Rightarrow> bool go"

definition verify_sp1_proof_ffi :: "('proof, 'vk) sp1_lib \<Rightarrow> sp1_ffi" where
  "verify_sp1_proof_ffi lib proof_ptr proof_len elf_ptr elf_len =
     (let proof_bytes = take (unat proof_len) proof_ptr;
          elf_bytes = take (unat elf_len) elf_ptr in
      if_let (sp1_deserialize lib proof_bytes) (\<lambda>proof.
      gbind (sp1_setup lib elf_bytes) (\<lambda>vk. verify_compressed lib proof vk)))"

subsection \<open>The wrappers nothing calls\<close>

definition VerifyRiscZeroReceipt ::
  "(bytes \<Rightarrow> u32 \<Rightarrow> u32 list \<Rightarrow> bool go) \<Rightarrow> bytes \<Rightarrow> u32 \<Rightarrow> u32 list \<Rightarrow> bool go" where
  "VerifyRiscZeroReceipt verify_risc_zero_receipt_ffi receiptBuffer receiptLen imageIdBuffer =
     verify_risc_zero_receipt_ffi receiptBuffer receiptLen imageIdBuffer"

text \<open>The length is converted from Go's \<open>uint\<close> (64 bits) to C's \<open>uint\<close> (32 bits).\<close>

definition VerifyMerkleTreeBatch ::
  "(bytes \<Rightarrow> u32 \<Rightarrow> bytes32 \<Rightarrow> bool go) \<Rightarrow> bytes \<Rightarrow> u64 \<Rightarrow> bytes32 \<Rightarrow> bool go" where
  "VerifyMerkleTreeBatch verify_merkle_tree_batch_ffi batchBuffer batchLen merkleRootBuffer =
     verify_merkle_tree_batch_ffi batchBuffer (ucast batchLen) merkleRootBuffer"

subsection \<open>The dispatch\<close>

record ('p, 'w, 'k) verifiers =
  plonk_backend :: "('p, 'w, 'k) gnark_backend"
  groth16_backend :: "('p, 'w, 'k) gnark_backend"
  sp1_verifier :: sp1_ffi
  halo2ipa_verifier :: halo2_ffi
  halo2kzg_verifier :: halo2_ffi

text \<open>What is sent on the channel of results: one value, unless the goroutine panics before.\<close>

definition verify :: "('p, 'w, 'k) verifiers \<Rightarrow> VerificationData \<Rightarrow> bool go" where
  "verify V data =
     (let proof = vd_Proof data; pub = vd_PubInput data; vk = vd_VerificationKey data;
          elf = vd_VmProgramCode data; t = vd_ProvingSystemId data in
      if t = GnarkPlonkBls12_381 then
        verifyPlonkProofBLS12_381 (plonk_backend V) (contents proof) (contents pub) (contents vk)
      else if t = GnarkPlonkBn254 then
        verifyPlonkProofBN254 (plonk_backend V) (contents proof) (contents pub) (contents vk)
      else if t = Groth16Bn254 then
        verifyGroth16ProofBN254 (groth16_backend V) (contents proof) (contents pub) (contents vk)
      else if t = SP1 then VerifySp1Proof (sp1_verifier V) proof (len32 proof) elf (len32 elf)
      else if t = Halo2IPA then verify_Halo2IPA (halo2ipa_verifier V) data
      else if t = Halo2KZG then verify_Halo2KZG (halo2kzg_verifier V) data
      else Ret False)"

subsection \<open>What the dispatch accepts and where it crashes\<close>

lemma verify_known:
  "vd_ProvingSystemId data \<notin> set known_systems \<Longrightarrow> verify V data = Ret False"
  by (simp add: verify_def known_systems_def Let_def)

text \<open>The verifiers answer: no gnark call, no foreign call panics.\<close>

definition backend_answers :: "('p, 'w, 'k) gnark_backend \<Rightarrow> bool" where
  "backend_answers g \<longleftrightarrow>
     (\<forall>p i k. is_ret (verifyPlonkProofBLS12_381 g p i k) \<and> is_ret (verifyPlonkProofBN254 g p i k)
       \<and> is_ret (verifyGroth16ProofBN254 g p i k))"

definition verifiers_answer :: "('p, 'w, 'k) verifiers \<Rightarrow> bool" where
  "verifiers_answer V \<longleftrightarrow> backend_answers (plonk_backend V) \<and> backend_answers (groth16_backend V)
     \<and> (\<forall>p n e m. is_ret (sp1_verifier V p n e m)) \<and> (\<forall>c. is_ret (halo2ipa_verifier V c)) \<and> (\<forall>c. is_ret (halo2kzg_verifier V c))"

text \<open>The entries that crash the process through the operator's own code.\<close>

definition crashing_entry :: "VerificationData \<Rightarrow> bool" where
  "crashing_entry data \<longleftrightarrow>
     vd_ProvingSystemId data = SP1 \<and> (slen (vd_Proof data) = 0 \<or> slen (vd_VmProgramCode data) = 0)
     \<or> vd_ProvingSystemId data \<in> {Halo2IPA, Halo2KZG} \<and> \<not> key_fits (vd_VerificationKey data)"

lemma is_ret_gbind: "is_ret x \<Longrightarrow> (\<And>a. is_ret (f a)) \<Longrightarrow> is_ret (gbind x f)"
  by (cases x) auto

lemma sp1_answers:
  "(\<And>p n e m. is_ret (ffi p n e m)) \<Longrightarrow>
   is_ret (VerifySp1Proof ffi p n e m) \<longleftrightarrow> slen p \<noteq> 0 \<and> slen e \<noteq> 0"
  by (simp add: VerifySp1Proof_def first_addr_def)

lemma halo2_answers:
  assumes "slice_ok (vd_VerificationKey data)" "\<And>c. is_ret (ffi c)"
  shows "is_ret (verify_Halo2IPA ffi data) \<longleftrightarrow> key_fits (vd_VerificationKey data)"
    and "is_ret (verify_Halo2KZG ffi data) \<longleftrightarrow> key_fits (vd_VerificationKey data)"
  using assms
  by (simp_all add: verify_Halo2IPA_def verify_Halo2KZG_def halo2_args_iff VerifyHalo2IpaProof_def
      VerifyHalo2KzgProof_def)

lemma verify_answers_iff:
  assumes V: "verifiers_answer V" and ok: "slice_ok (vd_VerificationKey data)"
  shows "is_ret (verify V data) \<longleftrightarrow> \<not> crashing_entry data"
proof -
  have g: "is_ret (verifyPlonkProofBLS12_381 (plonk_backend V) p i k)"
    "is_ret (verifyPlonkProofBN254 (plonk_backend V) p i k)" "is_ret (verifyGroth16ProofBN254 (groth16_backend V) p i k)"
    for p i k
    using V by (simp_all add: verifiers_answer_def backend_answers_def)
  have s: "is_ret (VerifySp1Proof (sp1_verifier V) p n e m) \<longleftrightarrow> slen p \<noteq> 0 \<and> slen e \<noteq> 0" for p n e m
    using V by (intro sp1_answers) (simp add: verifiers_answer_def)
  have h: "is_ret (verify_Halo2IPA (halo2ipa_verifier V) data) \<longleftrightarrow> key_fits (vd_VerificationKey data)"
    "is_ret (verify_Halo2KZG (halo2kzg_verifier V) data) \<longleftrightarrow> key_fits (vd_VerificationKey data)"
    using V ok by (simp_all add: verifiers_answer_def halo2_answers)
  show ?thesis
    by (simp add: verify_def Let_def g s h crashing_entry_def ps_defs)
qed

subsection \<open>Properties\<close>

text \<open>Verifiers for the witnesses.\<close>

definition example_verifiers :: "(bytes, bytes, unit) verifiers" where
  "example_verifiers = \<lparr>plonk_backend = echo_gnark, groth16_backend = echo_gnark,
     sp1_verifier = \<lambda>p n e m. Ret (take (unat n) p = take (unat m) e),
     halo2ipa_verifier = \<lambda>c. Ret True, halo2kzg_verifier = \<lambda>c. Ret True\<rparr>"

definition gnark_entry :: "bytes \<Rightarrow> bytes \<Rightarrow> VerificationData" where
  "gnark_entry proof pub =
     \<lparr>vd_ProvingSystemId = Groth16Bn254, vd_Proof = gs_of proof, vd_PubInput = gs_of pub,
      vd_VerificationKey = gs_of [], vd_VmProgramCode = gs_of []\<rparr>"

definition sp1_entry :: "bytes \<Rightarrow> bytes \<Rightarrow> VerificationData" where
  "sp1_entry proof elf =
     \<lparr>vd_ProvingSystemId = SP1, vd_Proof = gs_of proof, vd_PubInput = gs_of [],
      vd_VerificationKey = gs_of [], vd_VmProgramCode = gs_of elf\<rparr>"

lemma example_verifiers_answer: "verifiers_answer example_verifiers"
  by (auto simp: verifiers_answer_def backend_answers_def example_verifiers_def echo_gnark_def
      verifyPlonkProofBLS12_381_def verifyPlonkProofBN254_def verifyPlonkProof_def or_false_def
      verifyGroth16ProofBN254_def verifyGroth16Proof_def)

lemma verify_gnark_entry [simp]:
  "pub \<noteq> [] \<Longrightarrow> verify example_verifiers (gnark_entry proof pub) = Ret (proof = pub)"
  by (simp add: verify_def gnark_entry_def ps_defs Let_def example_verifiers_def
      verifyGroth16ProofBN254_def verifyGroth16Proof_def or_false_def echo_gnark_def)

lemma verify_sp1_empty [simp]: "verify V (sp1_entry [] elf) = Panic"
  by (simp add: verify_def sp1_entry_def ps_defs Let_def VerifySp1Proof_def first_addr_def gs_of_def)



end
