(* ===== verification/Operator_Batch.thy ===== *)
theory Operator_Batch
  imports Operator_Verify
begin

text \<open>
  How the operator judges one batch: it fetches the batch (\<open>getBatchFromS3\<close> in
  \<open>operator/pkg/s3.go\<close>) and verifies its entries in parallel (\<open>ProcessNewBatchLog\<close> in
  \<open>operator/pkg/operator.go\<close>).

  The parallel part is a step relation: one goroutine per entry verifies, sends its verdict on
  the buffered channel \<open>results\<close>, counts itself in the metrics and is done; one goroutine
  closes the channel when all are done; the caller receives verdicts until one is negative or
  the channel is closed and empty. Goroutines go on after the caller has returned. A panic in
  any of them ends the process.
\<close>

subsection \<open>Fetching a batch\<close>

record http_response =
  StatusCode :: nat
  Status :: string
  ContentLength :: int
  Body :: "bytes result"

text \<open>\<open>net/http\<close> seen from here: what a request of each method returns for a URL.\<close>

record http_server =
  http_Head :: "string \<Rightarrow> http_response result"
  http_Get :: "string \<Rightarrow> http_response result"

definition StatusOK :: nat where "StatusOK = 200"

definition getBatchFromS3 ::
  "http_server \<Rightarrow> (bytes \<Rightarrow> 'b result) \<Rightarrow> int \<Rightarrow> string \<Rightarrow> 'b result" where
  "getBatchFromS3 http Unmarshal MaxBatchSize proofUrl =
     rbind (http_Head http proofUrl) (\<lambda>resp.
     if StatusCode resp \<noteq> StatusOK then Inl (''error getting Proof Head from S3: '' @ Status resp)
     else if ContentLength resp > MaxBatchSize then
       Inl (''proof size '' @ show_int (ContentLength resp) @ '' exceeds max batch size ''
            @ show_int MaxBatchSize)
     else rbind (http_Get http proofUrl) (\<lambda>resp.
          rbind (Body resp) (\<lambda>proof.
          rbind (Unmarshal proof) (\<lambda>batch. Inr batch))))"

lemma getBatchFromS3_Inr_iff:
  "getBatchFromS3 http um m url = Inr batch \<longleftrightarrow>
     (\<exists>h g body. http_Head http url = Inr h \<and> StatusCode h = 200 \<and> ContentLength h \<le> m \<and>
        http_Get http url = Inr g \<and> Body g = Inr body \<and> um body = Inr batch)"
  by (cases "http_Head http url"; cases "http_Get http url")
    (auto simp: getBatchFromS3_def go_simps StatusOK_def)

subsection \<open>Verifying in parallel\<close>

datatype worker = Verifying VerificationData | Counting | Finished

datatype verdict = Running | Returned "string option" | Crashed

record batch_run =
  workers :: "worker list"
  results :: "bool list"
  results_closed :: bool
  verdict :: verdict
  taskResponses :: nat

text \<open>The state after the loop that starts the goroutines.\<close>

definition batch_start :: "VerificationData list \<Rightarrow> batch_run" where
  "batch_start batch = \<lparr>workers = map Verifying batch, results = [], results_closed = False,
     verdict = Running, taskResponses = 0\<rparr>"

inductive batch_step :: "('p, 'w, 'k) verifiers \<Rightarrow> nat \<Rightarrow> batch_run \<Rightarrow> batch_run \<Rightarrow> bool"
  for V verificationDataBatchLen where
  send: "verdict s \<noteq> Crashed \<Longrightarrow> i < length (workers s) \<Longrightarrow> workers s ! i = Verifying data \<Longrightarrow>
    verify V data = Ret b \<Longrightarrow> length (results s) < verificationDataBatchLen \<Longrightarrow>
    batch_step V verificationDataBatchLen s
      (s\<lparr>workers := (workers s)[i := Counting], results := results s @ [b]\<rparr>)"
| panic: "verdict s \<noteq> Crashed \<Longrightarrow> i < length (workers s) \<Longrightarrow> workers s ! i = Verifying data \<Longrightarrow>
    \<not> is_ret (verify V data) \<Longrightarrow>
    batch_step V verificationDataBatchLen s (s\<lparr>verdict := Crashed\<rparr>)"
| count: "verdict s \<noteq> Crashed \<Longrightarrow> i < length (workers s) \<Longrightarrow> workers s ! i = Counting \<Longrightarrow>
    batch_step V verificationDataBatchLen s
      (s\<lparr>workers := (workers s)[i := Finished], taskResponses := Suc (taskResponses s)\<rparr>)"
| close: "verdict s \<noteq> Crashed \<Longrightarrow> set (workers s) \<subseteq> {Finished} \<Longrightarrow> \<not> results_closed s \<Longrightarrow>
    batch_step V verificationDataBatchLen s (s\<lparr>results_closed := True\<rparr>)"
| receive: "verdict s = Running \<Longrightarrow> results s = b # rest \<Longrightarrow>
    batch_step V verificationDataBatchLen s
      (s\<lparr>results := rest, verdict := (if b then Running else Returned (Some ''invalid proof''))\<rparr>)"
| all_received: "verdict s = Running \<Longrightarrow> results s = [] \<Longrightarrow> results_closed s \<Longrightarrow>
    batch_step V verificationDataBatchLen s (s\<lparr>verdict := Returned None\<rparr>)"

inductive_cases batch_stepE: "batch_step V n s s'"

abbreviation batch_reaches :: "('p, 'w, 'k) verifiers \<Rightarrow> VerificationData list \<Rightarrow> batch_run \<Rightarrow> bool" where
  "batch_reaches V batch s \<equiv> (batch_step V (length batch))\<^sup>*\<^sup>* (batch_start batch) s"

text \<open>The method: its possible results under all schedules.\<close>

inductive ProcessNewBatchLog ::
  "('p, 'w, 'k) verifiers \<Rightarrow> (string \<Rightarrow> VerificationData list result) \<Rightarrow> string \<Rightarrow>
     string option go \<Rightarrow> bool" for V getBatch where
  fetch_error: "getBatch pointer = Inl e \<Longrightarrow> ProcessNewBatchLog V getBatch pointer (Ret (Some e))"
| returned: "getBatch pointer = Inr batch \<Longrightarrow> batch_reaches V batch s \<Longrightarrow> verdict s = Returned r \<Longrightarrow>
    ProcessNewBatchLog V getBatch pointer (Ret r)"
| crashed: "getBatch pointer = Inr batch \<Longrightarrow> batch_reaches V batch s \<Longrightarrow> verdict s = Crashed \<Longrightarrow>
    ProcessNewBatchLog V getBatch pointer Panic"

inductive_cases ProcessNewBatchLogE: "ProcessNewBatchLog V getBatch pointer r"

subsection \<open>The invariant of a run\<close>

definition is_verifying :: "worker \<Rightarrow> bool" where
  "is_verifying w \<longleftrightarrow> (\<exists>d. w = Verifying d)"

lemma is_verifying_simps [simp]:
  "is_verifying (Verifying d)" "\<not> is_verifying Counting" "\<not> is_verifying Finished"
  by (auto simp: is_verifying_def)

definition sent_by :: "batch_run \<Rightarrow> nat \<Rightarrow> bool" where
  "sent_by s i \<longleftrightarrow> i < length (workers s) \<and> \<not> is_verifying (workers s ! i)"

definition count_sent :: "batch_run \<Rightarrow> nat" where
  "count_sent s = length (filter (\<lambda>w. \<not> is_verifying w) (workers s))"

definition batch_inv :: "('p, 'w, 'k) verifiers \<Rightarrow> VerificationData list \<Rightarrow> batch_run \<Rightarrow> bool" where
  "batch_inv V batch s \<longleftrightarrow>
     length (workers s) = length batch
     \<and> (\<forall>i<length batch. is_verifying (workers s ! i) \<longrightarrow> workers s ! i = Verifying (batch ! i))
     \<and> (\<forall>i. sent_by s i \<longrightarrow> is_ret (verify V (batch ! i)))
     \<and> (verdict s \<in> {Running, Returned None} \<longrightarrow>
          (\<forall>i. sent_by s i \<longrightarrow> verify V (batch ! i) = Ret True \<or> False \<in> set (results s)))
     \<and> (False \<in> set (results s) \<longrightarrow> (\<exists>i. sent_by s i \<and> verify V (batch ! i) = Ret False))
     \<and> (\<forall>e. verdict s = Returned (Some e) \<longrightarrow> e = ''invalid proof''
          \<and> (\<exists>i. sent_by s i \<and> verify V (batch ! i) = Ret False))
     \<and> (verdict s = Returned None \<longrightarrow> results s = [] \<and> results_closed s)
     \<and> (results_closed s \<longrightarrow> set (workers s) \<subseteq> {Finished})
     \<and> (verdict s = Crashed \<longrightarrow> (\<exists>d \<in> set batch. \<not> is_ret (verify V d)))
     \<and> length (results s) \<le> count_sent s
     \<and> taskResponses s = length (filter (\<lambda>w. w = Finished) (workers s))"

lemma batch_inv_start: "batch_inv V batch (batch_start batch)"
  by (auto simp: batch_inv_def batch_start_def sent_by_def count_sent_def)

lemma sent_by_update:
  assumes "i < length (workers s)" "workers s' = (workers s)[i := w]" "\<not> is_verifying w"
  shows "sent_by s' j \<longleftrightarrow> j = i \<or> sent_by s j"
  using assms by (auto simp: sent_by_def nth_list_update)

lemma sent_by_same: "workers s' = workers s \<Longrightarrow> sent_by s' j = sent_by s j"
  by (simp add: sent_by_def)

lemma count_sent_update:
  "i < length (workers s) \<Longrightarrow> workers s' = (workers s)[i := w] \<Longrightarrow> \<not> is_verifying w \<Longrightarrow>
   count_sent s' = count_sent s + (if is_verifying (workers s ! i) then 1 else 0)"
  using length_filter_update [of i "workers s" "\<lambda>w. \<not> is_verifying w" w]
  by (auto simp: count_sent_def split: if_splits)

lemma count_sent_same: "workers s' = workers s \<Longrightarrow> count_sent s' = count_sent s"
  by (simp add: count_sent_def)

lemma finished_update:
  "i < length ws \<Longrightarrow> length (filter (\<lambda>w. w = Finished) (ws[i := w]))
     = length (filter (\<lambda>w. w = Finished) ws) + (if w = Finished then 1 else 0)
        - (if ws ! i = Finished then 1 else 0)"
  using length_filter_update [of i ws "\<lambda>w. w = Finished" w] by (simp split: if_splits)

lemma finished_sent: "set (workers s) \<subseteq> {Finished} \<Longrightarrow> i < length (workers s) \<Longrightarrow> workers s ! i = Finished"
  using nth_mem [of i "workers s"] by blast

lemma batch_inv_send:
  assumes inv: "batch_inv V batch s" and c: "verdict s \<noteq> Crashed" and i: "i < length (workers s)"
    and w: "workers s ! i = Verifying data" and v: "verify V data = Ret b"
  shows "batch_inv V batch (s\<lparr>workers := (workers s)[i := Counting], results := results s @ [b]\<rparr>)"
    (is "batch_inv V batch ?s")
proof -
  have up: "workers ?s = (workers s)[i := Counting]" by simp
  note sent = sent_by_update [OF i up is_verifying_simps(2)]
  note cnt = count_sent_update [OF i up is_verifying_simps(2)]
  have d: "batch ! i = data" using inv i w by (auto simp: batch_inv_def)
  have "\<not> results_closed s" using inv i w finished_sent [of s i] by (auto simp: batch_inv_def)
  moreover have "verdict s \<noteq> Returned None" using inv \<open>\<not> results_closed s\<close> by (auto simp: batch_inv_def)
  ultimately show ?thesis
    using inv i w v c
    unfolding batch_inv_def sent cnt
    by (auto simp: d nth_list_update finished_update)
qed

lemma batch_inv_step:
  assumes inv: "batch_inv V batch s" and step: "batch_step V (length batch) s s'"
  shows "batch_inv V batch s'"
  using step
proof cases
  case (send i data b)
  then show ?thesis using batch_inv_send [OF inv] by simp
next
  case (panic i data)
  then have "batch ! i = data" "i < length batch" using inv by (auto simp: batch_inv_def)
  then have "\<exists>d \<in> set batch. \<not> is_ret (verify V d)" using panic by auto
  then show ?thesis using inv panic
    by (auto simp: batch_inv_def sent_by_def count_sent_def)
next
  case (count i)
  have up: "workers s' = (workers s)[i := Finished]" using count by simp
  have i: "i < length (workers s)" by fact
  note sent = sent_by_update [OF i up is_verifying_simps(3)]
  note cnt = count_sent_update [OF i up is_verifying_simps(3)]
  have "sent_by s i" using count by (simp add: sent_by_def)
  then have sent': "sent_by s' j = sent_by s j" for j using sent by auto
  have "\<not> results_closed s" using inv i count(4) finished_sent [of s i] by (auto simp: batch_inv_def)
  then show ?thesis
    using inv count
    unfolding batch_inv_def sent' cnt
    by (auto simp: nth_list_update finished_update)
next
  case close
  then show ?thesis using inv by (auto simp: batch_inv_def sent_by_def count_sent_def)
next
  case (receive b rest)
  then show ?thesis using inv
    by (auto simp: batch_inv_def sent_by_def count_sent_def)
next
  case all_received
  then show ?thesis using inv by (auto simp: batch_inv_def sent_by_def count_sent_def)
qed

lemma batch_reaches_inv: "batch_reaches V batch s \<Longrightarrow> batch_inv V batch s"
  by (induction rule: rtranclp_induct) (auto intro: batch_inv_start batch_inv_step)

subsection \<open>Every run decides\<close>

text \<open>A goroutine that is not finished can always move: the channel has room for its verdict.\<close>

lemma worker_can_move:
  assumes inv: "batch_inv V batch s" and quiet: "verdict s \<noteq> Crashed"
    and i: "i < length (workers s)" "workers s ! i \<noteq> Finished"
  shows "\<exists>s'. batch_step V (length batch) s s'"
proof (cases "workers s ! i")
  case (Verifying data)
  have "workers s ! i \<in> set (workers s)" using i by simp
  then have "count_sent s < length (workers s)"
    unfolding count_sent_def by (rule length_filter_less) (simp add: Verifying)
  then have room: "length (results s) < length batch" using inv by (auto simp: batch_inv_def)
  show ?thesis
  proof (cases "is_ret (verify V data)")
    case True
    then obtain b where "verify V data = Ret b" by (auto simp: is_ret_iff)
    from batch_step.send [OF quiet i(1) Verifying this room] show ?thesis by blast
  next
    case False
    from batch_step.panic [OF quiet i(1) Verifying False] show ?thesis by blast
  qed
next
  case Counting
  then show ?thesis using batch_step.count [OF quiet i(1)] by blast
qed (use i in simp)

text \<open>Nobody waits for ever: while the caller waits, some goroutine can move.\<close>

lemma batch_progress:
  assumes inv: "batch_inv V batch s" and run: "verdict s = Running"
  shows "\<exists>s'. batch_step V (length batch) s s'"
proof (cases "set (workers s) \<subseteq> {Finished}")
  case True
  have quiet: "verdict s \<noteq> Crashed" using run by simp
  show ?thesis
  proof (cases "results s")
    case Nil
    show ?thesis
      by (cases "results_closed s")
        (blast intro: batch_step.close [OF quiet True] batch_step.all_received [OF run Nil])+
  next
    case (Cons b rest)
    from batch_step.receive [OF run this] show ?thesis by blast
  qed
next
  case False
  then obtain i where "i < length (workers s)" "workers s ! i \<noteq> Finished"
    by (metis in_set_conv_nth insert_iff subsetI)
  then show ?thesis using worker_can_move [OF inv] run by simp
qed

text \<open>What is left to do; every step makes it smaller.\<close>

fun worker_work :: "worker \<Rightarrow> nat" where
  "worker_work (Verifying d) = 3"
| "worker_work Counting = 1"
| "worker_work Finished = 0"

fun verdict_work :: "verdict \<Rightarrow> nat" where
  "verdict_work Running = 2"
| "verdict_work (Returned r) = 1"
| "verdict_work Crashed = 0"

definition batch_work :: "batch_run \<Rightarrow> nat" where
  "batch_work s = sum_list (map worker_work (workers s)) + length (results s)
     + (if results_closed s then 0 else 1) + verdict_work (verdict s)"

lemma batch_step_work: "batch_step V n s s' \<Longrightarrow> batch_work s' < batch_work s"
proof (induction rule: batch_step.induct)
  case (send s i data b)
  then show ?case using sum_list_update_nat [of i "workers s" worker_work Counting]
    by (simp add: batch_work_def)
next
  case (panic s i data)
  then show ?case by (cases "verdict s") (simp_all add: batch_work_def)
next
  case (count s i)
  then show ?case using sum_list_update_nat [of i "workers s" worker_work Finished]
    by (simp add: batch_work_def)
qed (auto simp: batch_work_def)

lemma batch_steps_bounded: "(batch_step V n ^^ k) s s' \<Longrightarrow> k + batch_work s' \<le> batch_work s"
  by (induction k arbitrary: s') (auto dest!: batch_step_work, fastforce)

lemma batch_work_start: "batch_work (batch_start batch) = 3 * length batch + 3"
  by (simp add: batch_work_def batch_start_def comp_def sum_list_triv)

text \<open>A run that has come to rest has decided, and if nothing crashed everything is done.\<close>

lemma batch_rest:
  assumes inv: "batch_inv V batch s" and rest: "\<And>s'. \<not> batch_step V (length batch) s s'"
    and quiet: "verdict s \<noteq> Crashed"
  shows "set (workers s) \<subseteq> {Finished}" "verdict s \<noteq> Running"
proof -
  show "verdict s \<noteq> Running" using batch_progress [OF inv] rest by blast
  show "set (workers s) \<subseteq> {Finished}"
    using worker_can_move [OF inv quiet] rest by (metis in_set_conv_nth insert_iff subsetI)
qed

lemma batch_inv_accept:
  assumes inv: "batch_inv V batch s" and r: "verdict s = Returned None" and d: "d \<in> set batch"
  shows "verify V d = Ret True"
proof -
  obtain i where i: "i < length batch" "batch ! i = d" using d by (auto simp: in_set_conv_nth)
  have c: "results_closed s" "results s = []" "length (workers s) = length batch"
    using inv r by (auto simp: batch_inv_def)
  then have "sent_by s i"
    using inv i finished_sent [of s i] by (auto simp: batch_inv_def sent_by_def)
  then have "verify V (batch ! i) = Ret True \<or> False \<in> set (results s)"
    using inv r unfolding batch_inv_def by blast
  then show ?thesis using i c by simp
qed

lemma batch_inv_reject:
  assumes "batch_inv V batch s" "verdict s = Returned (Some e)"
  shows "e = ''invalid proof'' \<and> (\<exists>d \<in> set batch. verify V d = Ret False)"
  using assms by (auto simp: batch_inv_def sent_by_def)

lemma batch_inv_crash:
  "batch_inv V batch s \<Longrightarrow> verdict s = Crashed \<Longrightarrow> \<exists>d \<in> set batch. \<not> is_ret (verify V d)"
  by (auto simp: batch_inv_def)

subsection \<open>Results of the method\<close>

lemma batch_can_finish:
  "\<exists>s'. (batch_step V (length batch))\<^sup>*\<^sup>* s s' \<and> verdict s' \<noteq> Running" if "batch_inv V batch s"
  using that
proof (induction "batch_work s" arbitrary: s rule: less_induct)
  case less
  show ?case
  proof (cases "verdict s = Running")
    case True
    obtain t where t: "batch_step V (length batch) s t" using batch_progress [OF less.prems True] by blast
    then obtain s' where "(batch_step V (length batch))\<^sup>*\<^sup>* t s'" "verdict s' \<noteq> Running"
      using less.hyps [OF batch_step_work [OF t] batch_inv_step [OF less.prems t]] by blast
    with t show ?thesis by (meson converse_rtranclp_into_rtranclp)
  qed blast
qed

lemma ProcessNewBatchLog_total: "\<exists>r. ProcessNewBatchLog V getBatch pointer r"
proof (cases "getBatch pointer")
  case (Inl e)
  then show ?thesis by (blast intro: fetch_error)
next
  case (Inr batch)
  obtain s where "batch_reaches V batch s" "verdict s \<noteq> Running"
    using batch_can_finish [OF batch_inv_start] by blast
  with Inr show ?thesis by (cases "verdict s") (auto intro: returned crashed)
qed

text \<open>A run to rest, for the witnesses: one entry that verifies.\<close>

lemma one_entry_run:
  assumes "verify V d = Ret True"
  shows "batch_reaches V [d] \<lparr>workers = [Finished], results = [], results_closed = True,
      verdict = Returned None, taskResponses = 1\<rparr>"
proof -
  let ?st = "\<lambda>w r c v n. \<lparr>workers = [w], results = r, results_closed = c, verdict = v, taskResponses = n\<rparr>"
  have "batch_step V 1 (?st (Verifying d) [] False Running 0) (?st Counting [True] False Running 0)"
    using batch_step.send [of "?st (Verifying d) [] False Running 0" 0 d V True 1] assms by simp
  moreover have "batch_step V 1 (?st Counting [True] False Running 0) (?st Counting [] False Running 0)"
    using batch_step.receive [of "?st Counting [True] False Running 0" True "[]" V 1] by simp
  moreover have "batch_step V 1 (?st Counting [] False Running 0) (?st Finished [] False Running 1)"
    using batch_step.count [of "?st Counting [] False Running 0" 0 V 1] by simp
  moreover have "batch_step V 1 (?st Finished [] False Running 1) (?st Finished [] True Running 1)"
    using batch_step.close [of "?st Finished [] False Running 1" V 1] by simp
  moreover have "batch_step V 1 (?st Finished [] True Running 1) (?st Finished [] True (Returned None) 1)"
    using batch_step.all_received [of "?st Finished [] True Running 1" V 1] by simp
  ultimately show ?thesis
    by (simp add: batch_start_def)
qed

lemma finished_at_rest: "\<not> batch_step V n \<lparr>workers = [Finished], results = [], results_closed = True,
    verdict = Returned None, taskResponses = k\<rparr> s'"
  by (auto elim!: batch_stepE)

subsection \<open>Properties\<close>



text \<open>C27: The verdict does not depend on the schedule: if no entry crashes, every run of the
  goroutines that has come to rest has returned "invalid proof" if some entry was refused and no
  error otherwise (an empty batch has no entry to refuse), and has counted every entry in the
  metrics, also those that were verified after the verdict.\<close>

theorem batch_verdict_schedule_independent:
  assumes "\<And>d. d \<in> set batch \<Longrightarrow> is_ret (verify V d)"
    and "batch_reaches V batch s" and "\<And>s'. \<not> batch_step V (length batch) s s'"
  shows "verdict s = Returned (if \<forall>d\<in>set batch. verify V d = Ret True then None
      else Some ''invalid proof'') \<and> taskResponses s = length batch"
proof -
  have inv: "batch_inv V batch s" by (rule batch_reaches_inv) fact
  have quiet: "verdict s \<noteq> Crashed" using batch_inv_crash [OF inv] assms(1) by blast
  note rest = batch_rest [OF inv assms(3) quiet]
  obtain r where r: "verdict s = Returned r" using quiet rest(2) by (cases "verdict s") auto
  have "taskResponses s = length (filter (\<lambda>w. w = Finished) (workers s))"
    and len: "length (workers s) = length batch" using inv by (auto simp: batch_inv_def)
  moreover have "filter (\<lambda>w. w = Finished) (workers s) = workers s"
    using rest(1) by (auto simp: filter_id_conv)
  ultimately have "taskResponses s = length batch" by simp
  moreover have "r = (if \<forall>d\<in>set batch. verify V d = Ret True then None else Some ''invalid proof'')"
  proof (cases r)
    case None
    then show ?thesis using r batch_inv_accept [OF inv] by simp
  next
    case (Some e)
    then have e: "e = ''invalid proof''" "\<exists>d\<in>set batch. verify V d = Ret False"
      using r batch_inv_reject [OF inv] by blast+
    then have "\<not> (\<forall>d\<in>set batch. verify V d = Ret True)" by force
    then show ?thesis using Some e(1) by simp
  qed
  ultimately show ?thesis using r by simp
qed

theorem batch_verdict_schedule_independent_witness:
  "verdict \<lparr>workers = [Finished], results = [], results_closed = True,
      verdict = Returned None, taskResponses = 1\<rparr> = Returned None"
  using batch_verdict_schedule_independent [of "[gnark_entry [7] [7]]" example_verifiers,
      OF _ one_entry_run finished_at_rest] by simp

text \<open>C35: Every batch is decided: whatever the verifiers do, a run of the goroutines for
  \<open>n\<close> entries has at most \<open>3 n + 3\<close> steps, and as long as the caller has not returned and nothing
  crashed some step is possible (no send blocks: the channel has room for all the verdicts; the
  channel is closed when all are in), so the method returns or the process crashes.\<close>

theorem batch_is_decided:
  assumes "(batch_step V (length batch) ^^ k) (batch_start batch) s"
  shows "k \<le> 3 * length batch + 3
    \<and> (verdict s = Running \<longrightarrow> (\<exists>s'. batch_step V (length batch) s s'))
    \<and> (\<exists>s'. (batch_step V (length batch))\<^sup>*\<^sup>* s s' \<and> verdict s' \<noteq> Running)"
proof -
  have inv: "batch_inv V batch s"
    using assms by (intro batch_reaches_inv) (rule relpowp_imp_rtranclp)
  show ?thesis
    using batch_steps_bounded [OF assms] batch_progress [OF inv] batch_can_finish [OF inv]
    by (simp add: batch_work_start)
qed

theorem batch_is_decided_witness:
  "\<exists>s'. (batch_step example_verifiers 2)\<^sup>*\<^sup>*
     (batch_start [gnark_entry [7] [7], gnark_entry [8] [7]]) s' \<and> verdict s' \<noteq> Running"
  using batch_is_decided [where k = 0, of example_verifiers "[gnark_entry [7] [7], gnark_entry [8] [7]]"]
  by (simp add: numeral_2_eq_2)

text \<open>The limit on the size of a batch is not enforced on what is read: when the server
  answers the HEAD request without a length (-1), a GET body of any size is read whole and
  decoded, whatever non-negative limit is configured.\<close>

theorem unknown_length_passes_limit:
  assumes "http_Head http url = Inr h" "StatusCode h = 200" "ContentLength h = -1"
    and "http_Get http url = Inr g" "Body g = Inr body" and "0 \<le> m"
  shows "getBatchFromS3 http Unmarshal m url = Unmarshal body"
  using assms by (cases "Unmarshal body") (simp_all add: getBatchFromS3_def StatusOK_def)

theorem unknown_length_passes_limit_witness:
  "getBatchFromS3 \<lparr>http_Head = \<lambda>u. Inr \<lparr>StatusCode = 200, Status = ''200 OK'', ContentLength = -1,
       Body = Inr []\<rparr>,
     http_Get = \<lambda>u. Inr \<lparr>StatusCode = 200, Status = ''200 OK'', ContentLength = -1,
       Body = Inr (replicate 9 0)\<rparr>\<rparr> (\<lambda>b. Inr (length b)) 4 ''u'' = Inr 9"
  using unknown_length_passes_limit [of "\<lparr>http_Head = \<lambda>u. Inr \<lparr>StatusCode = 200, Status = ''200 OK'',
       ContentLength = -1, Body = Inr []\<rparr>,
     http_Get = \<lambda>u. Inr \<lparr>StatusCode = 200, Status = ''200 OK'', ContentLength = -1,
       Body = Inr (replicate 9 0)\<rparr>\<rparr>" "''u''" _ _ "replicate 9 0" 4 "\<lambda>b. Inr (length b)"] by simp

end
