(* ===== verification/Base64.thy ===== *)
theory Base64
  imports Go_Base
begin

text \<open>
  \<open>encoding/base64.StdEncoding\<close> of the Go library, as \<open>encoding/json\<close> uses it for byte
  slices: the encoder pads, the decoder skips line breaks, wants the padding, and ignores the
  unused bits of the last character.
\<close>

definition b64_char :: "nat \<Rightarrow> byte" where
  "b64_char n =
     (if n < 26 then word_of_nat (65 + n) else if n < 52 then word_of_nat (71 + n)
      else if n < 62 then word_of_nat (n - 4) else if n = 62 then 43 else 47)"

definition b64_value :: "byte \<Rightarrow> nat option" where
  "b64_value c =
     (let n = unat c in
      if 65 \<le> n \<and> n \<le> 90 then Some (n - 65)
      else if 97 \<le> n \<and> n \<le> 122 then Some (n - 71)
      else if 48 \<le> n \<and> n \<le> 57 then Some (n + 4)
      else if n = 43 then Some 62 else if n = 47 then Some 63 else None)"

definition pad :: byte where "pad = 61"

fun b64_encode :: "bytes \<Rightarrow> bytes" where
  "b64_encode [] = []"
| "b64_encode [a] = [b64_char (unat a div 4), b64_char (unat a mod 4 * 16), pad, pad]"
| "b64_encode [a, b] =
     [b64_char (unat a div 4), b64_char (unat a mod 4 * 16 + unat b div 16),
      b64_char (unat b mod 16 * 4), pad]"
| "b64_encode (a # b # c # bs) =
     [b64_char (unat a div 4), b64_char (unat a mod 4 * 16 + unat b div 16),
      b64_char (unat b mod 16 * 4 + unat c div 64), b64_char (unat c mod 64)] @ b64_encode bs"

text \<open>The three bytes of four characters' values.\<close>

definition quad_bytes :: "nat \<Rightarrow> nat \<Rightarrow> nat \<Rightarrow> nat \<Rightarrow> bytes" where
  "quad_bytes v w x y =
     [word_of_nat (v * 4 + w div 16), word_of_nat (w mod 16 * 16 + x div 4),
      word_of_nat (x mod 4 * 64 + y)]"

fun b64_quads :: "bytes \<Rightarrow> bytes option" where
  "b64_quads [] = Some []"
| "b64_quads (c0 # c1 # c2 # c3 # cs) =
     (case (b64_value c0, b64_value c1) of
        (Some v, Some w) \<Rightarrow>
          if c2 = pad then (if c3 = pad \<and> cs = [] then Some (take 1 (quad_bytes v w 0 0)) else None)
          else (case b64_value c2 of None \<Rightarrow> None | Some x \<Rightarrow>
            if c3 = pad then (if cs = [] then Some (take 2 (quad_bytes v w x 0)) else None)
            else (case b64_value c3 of None \<Rightarrow> None | Some y \<Rightarrow>
              (case b64_quads cs of None \<Rightarrow> None | Some bs \<Rightarrow> Some (quad_bytes v w x y @ bs))))
      | _ \<Rightarrow> None)"
| "b64_quads _ = None"

definition b64_decode :: "bytes \<Rightarrow> bytes option" where
  "b64_decode s = b64_quads (filter (\<lambda>c. c \<noteq> 10 \<and> c \<noteq> 13) s)"

definition DecodedLen :: "nat \<Rightarrow> nat" where
  "DecodedLen n = n div 4 * 3"

text \<open>
  What \<open>encoding/json\<close> makes of a string for a byte slice: a buffer of \<open>DecodedLen\<close> bytes,
  cut down to the bytes that were decoded.
\<close>

definition b64_slice :: "bytes \<Rightarrow> gslice option" where
  "b64_slice s = map_option (\<lambda>bs. \<lparr>backing = bs @ make_bytes (DecodedLen (length s) - length bs),
     slen = length bs\<rparr>) (b64_decode s)"

subsection \<open>Round trip\<close>

lemma unat_byte: "n < 256 \<Longrightarrow> unat (word_of_nat n :: byte) = n"
  by (simp add: unat_of_nat)

lemma unat_byte_less: "unat (b :: byte) < 256"
  using unsigned_less [of b] by simp

lemma unat_b64_char:
  "n < 64 \<Longrightarrow> unat (b64_char n) = (if n < 26 then 65 + n else if n < 52 then 71 + n
     else if n < 62 then n - 4 else if n = 62 then 43 else 47)"
  unfolding b64_char_def by (simp add: unat_byte del: of_nat_add of_nat_diff)

lemma b64_value_char [simp]: "n < 64 \<Longrightarrow> b64_value (b64_char n) = Some n"
  unfolding b64_value_def Let_def by (simp add: unat_b64_char) linarith

text \<open>The characters the encoder writes.\<close>

definition b64_plain :: "byte \<Rightarrow> bool" where
  "b64_plain c \<longleftrightarrow> c = pad \<or> b64_value c \<noteq> None"

lemma b64_plain_char [simp]: "n < 64 \<Longrightarrow> b64_plain (b64_char n)"
  by (simp add: b64_plain_def)

lemma b64_value_pad [simp]: "b64_value pad = None"
  by (simp add: b64_value_def pad_def)

lemma b64_char_not_pad [simp]: "n < 64 \<Longrightarrow> b64_char n \<noteq> pad"
  using b64_value_char [of n] b64_value_pad by fastforce

lemma b64_indices [simp]:
  "unat (a :: byte) div 4 < 64" "unat (a :: byte) mod 4 * 16 < 64"
  "unat (a :: byte) mod 4 * 16 + unat (b :: byte) div 16 < 64"
  "unat (b :: byte) mod 16 * 4 < 64" "unat (b :: byte) mod 16 * 4 + unat (c :: byte) div 64 < 64"
  "unat (c :: byte) mod 64 < 64"
  using unat_byte_less [of a] unat_byte_less [of b] unat_byte_less [of c] by auto

lemma b64_encode_plain: "c \<in> set (b64_encode bs) \<Longrightarrow> b64_plain c"
  by (induction bs rule: b64_encode.induct) (auto simp: b64_plain_def)

lemma split_byte: "v * 4 + (unat (a :: byte) mod 4 * 16 + k) div 16 = v * 4 + unat a mod 4"
  if "k < 16"
  using that by simp

lemma quad_bytes_encode:
  "quad_bytes (unat a div 4) (unat a mod 4 * 16 + unat b div 16) (unat b mod 16 * 4 + unat c div 64)
     (unat c mod 64) = [a, b, c]"
proof -
  have "unat b div 16 < 16" "unat c div 64 < 4"
    using unat_byte_less [of b] unat_byte_less [of c] by auto
  then show ?thesis by (simp add: quad_bytes_def)
qed

lemma quad_bytes_encode2:
  "take 2 (quad_bytes (unat a div 4) (unat a mod 4 * 16 + unat b div 16) (unat b mod 16 * 4) 0) = [a, b]"
proof -
  have "unat b div 16 < 16" using unat_byte_less [of b] by auto
  then show ?thesis by (simp add: quad_bytes_def)
qed

lemma quad_bytes_encode1: "take 1 (quad_bytes (unat a div 4) (unat a mod 4 * 16) 0 0) = [a]"
  by (simp add: quad_bytes_def)

lemma b64_quads_encode: "b64_quads (b64_encode bs) = Some bs"
  by (induction bs rule: b64_encode.induct)
    (simp_all add: quad_bytes_encode quad_bytes_encode2 quad_bytes_encode1 del: One_nat_def)

lemma b64_plain_not_break: "b64_plain c \<Longrightarrow> c \<noteq> 10 \<and> c \<noteq> 13"
  by (auto simp: b64_plain_def b64_value_def pad_def)

lemma b64_decode_encode [simp]: "b64_decode (b64_encode bs) = Some bs"
proof -
  have "filter (\<lambda>c. c \<noteq> 10 \<and> c \<noteq> 13) (b64_encode bs) = b64_encode bs"
    using b64_encode_plain b64_plain_not_break by (auto simp: filter_id_conv)
  then show ?thesis by (simp add: b64_decode_def b64_quads_encode)
qed

lemma b64_slice_encode:
  "b64_slice (b64_encode bs) = Some \<lparr>backing = bs @ make_bytes (DecodedLen (length (b64_encode bs)) - length bs),
     slen = length bs\<rparr>"
  by (simp add: b64_slice_def)

end
