(* ===== verification/Json.thy ===== *)
theory Json
  imports Base64
begin

text \<open>
  The reader of \<open>encoding/json\<close>, as far as \<open>json.Unmarshal\<close> decides what a text says: the
  grammar its scanner accepts (with the limit of 10000 on the nesting), strings with escapes,
  surrogate pairs and the replacement of invalid UTF-8, numbers kept as written, and the
  compact writer. Bytes stand for themselves; \<open>None\<close> is a syntax error.
\<close>

subsection \<open>Text\<close>

definition bytes_of :: "string \<Rightarrow> bytes" where
  "bytes_of s = map (\<lambda>c. word_of_nat (of_char c)) s"

definition string_of :: "bytes \<Rightarrow> string" where
  "string_of bs = map (\<lambda>b. char_of (unat b)) bs"

lemma string_of_bytes_of [simp]: "string_of (bytes_of s) = s"
proof -
  have "unat (word_of_nat (of_char c) :: byte) = of_char c" for c
    by (simp add: unat_byte)
  then show ?thesis by (simp add: string_of_def bytes_of_def comp_def)
qed

lemma length_bytes_of [simp]: "length (bytes_of s) = length s"
  by (simp add: bytes_of_def)

lemma bytes_of_append: "bytes_of (s @ t) = bytes_of s @ bytes_of t"
  by (simp add: bytes_of_def)

datatype json = JNull | JBool bool | JNum bytes | JStr bytes | JArr "json list"
  | JObj "(bytes \<times> json) list"

subsection \<open>Strings\<close>

definition is_hex :: "byte \<Rightarrow> bool" where
  "is_hex c \<longleftrightarrow> 48 \<le> unat c \<and> unat c \<le> 57 \<or> 65 \<le> unat c \<and> unat c \<le> 70 \<or> 97 \<le> unat c \<and> unat c \<le> 102"

definition hex_value :: "byte \<Rightarrow> nat" where
  "hex_value c = (if unat c \<le> 57 then unat c - 48 else if unat c \<le> 70 then unat c - 55 else unat c - 87)"

definition hex4 :: "bytes \<Rightarrow> nat" where
  "hex4 h = fold (\<lambda>c n. n * 16 + hex_value c) (take 4 h) 0"

text \<open>The body of a string up to its closing quote, escapes unread but checked.\<close>

fun lex_string :: "bytes \<Rightarrow> (bytes \<times> bytes) option" where
  "lex_string [] = None"
| "lex_string (c # cs) =
     (if c = 34 then Some ([], cs)
      else if c = 92 then
        (case cs of
           [] \<Rightarrow> None
         | e # cs1 \<Rightarrow>
             if e = 117 then
               (case cs1 of
                  h1 # h2 # h3 # h4 # cs2 \<Rightarrow>
                    if is_hex h1 \<and> is_hex h2 \<and> is_hex h3 \<and> is_hex h4 then
                      map_option (\<lambda>(b, r). (c # e # h1 # h2 # h3 # h4 # b, r)) (lex_string cs2)
                    else None
                | _ \<Rightarrow> None)
             else if e \<in> {34, 92, 47, 98, 102, 110, 114, 116} then
               map_option (\<lambda>(b, r). (c # e # b, r)) (lex_string cs1)
             else None)
      else if c < 32 then None
      else map_option (\<lambda>(b, r). (c # b, r)) (lex_string cs))"

definition in_range :: "nat \<Rightarrow> nat \<Rightarrow> byte \<Rightarrow> bool" where
  "in_range lo hi c \<longleftrightarrow> lo \<le> unat c \<and> unat c \<le> hi"

text \<open>\<open>utf8.DecodeRune\<close>: the length of the encoded rune at the front, 0 when there is none.\<close>

definition utf8_len :: "bytes \<Rightarrow> nat" where
  "utf8_len s =
     (let cont = in_range 128 191 in
      case s of
        [] \<Rightarrow> 0
      | a # r \<Rightarrow>
          if unat a < 128 then 1
          else if in_range 194 223 a then (case r of b # _ \<Rightarrow> if cont b then 2 else 0 | _ \<Rightarrow> 0)
          else if in_range 224 239 a then
            (case r of b # c # _ \<Rightarrow>
               if in_range (if a = 224 then 160 else 128) (if a = 237 then 159 else 191) b \<and> cont c
               then 3 else 0
             | _ \<Rightarrow> 0)
          else if in_range 240 244 a then
            (case r of b # c # d # _ \<Rightarrow>
               if in_range (if a = 240 then 144 else 128) (if a = 244 then 143 else 191) b
                  \<and> cont c \<and> cont d then 4 else 0
             | _ \<Rightarrow> 0)
          else 0)"

text \<open>\<open>utf8.EncodeRune\<close>\<close>

definition utf8_encode :: "nat \<Rightarrow> bytes" where
  "utf8_encode n =
     map word_of_nat
      (if n < 128 then [n]
       else if n < 2048 then [192 + n div 64, 128 + n mod 64]
       else if n < 65536 then [224 + n div 4096, 128 + n div 64 mod 64, 128 + n mod 64]
       else [240 + n div 262144, 128 + n div 4096 mod 64, 128 + n div 64 mod 64, 128 + n mod 64])"

definition replacement :: bytes where "replacement = [239, 191, 189]"

definition unescape :: "byte \<Rightarrow> byte" where
  "unescape e = (if e = 98 then 8 else if e = 102 then 12 else if e = 110 then 10
     else if e = 114 then 13 else if e = 116 then 9 else e)"

function unquote :: "bytes \<Rightarrow> bytes" where
  "unquote [] = []"
| "unquote (c # cs) =
     (if c = 92 then
        (if hd cs = 117 then
           let rr = hex4 (tl cs); r = drop 5 cs in
           if 55296 \<le> rr \<and> rr < 57344 then
             let rr1 = hex4 (drop 2 r) in
             if rr < 56320 \<and> take 2 r = [92, 117] \<and> 56320 \<le> rr1 \<and> rr1 < 57344 then
               utf8_encode ((rr - 55296) * 1024 + (rr1 - 56320) + 65536) @ unquote (drop 6 r)
             else replacement @ unquote r
           else utf8_encode rr @ unquote r
         else unescape (hd cs) # unquote (tl cs))
      else
        let n = utf8_len (c # cs) in
        if n = 0 then replacement @ unquote cs
        else take n (c # cs) @ unquote (drop (n - 1) cs))"
  by pat_completeness auto
termination
  by (relation "measure length") auto

declare unquote.simps(2) [simp del]

definition parse_string :: "bytes \<Rightarrow> (bytes \<times> bytes) option" where
  "parse_string s = map_option (\<lambda>(b, r). (unquote b, r)) (lex_string s)"

subsection \<open>Numbers and white space\<close>

definition is_digit :: "byte \<Rightarrow> bool" where
  "is_digit c \<longleftrightarrow> 48 \<le> unat c \<and> unat c \<le> 57"

definition digits :: "bytes \<Rightarrow> (bytes \<times> bytes) option" where
  "digits s = (let d = takeWhile is_digit s in if d = [] then None else Some (d, dropWhile is_digit s))"

definition parse_int_part :: "bytes \<Rightarrow> (bytes \<times> bytes) option" where
  "parse_int_part s = (case s of [] \<Rightarrow> None | c # r \<Rightarrow> if c = 48 then Some ([48], r) else digits s)"

definition parse_fraction :: "bytes \<Rightarrow> (bytes \<times> bytes) option" where
  "parse_fraction s = (case s of
     [] \<Rightarrow> Some ([], [])
   | c # r \<Rightarrow> if c = 46 then map_option (\<lambda>(d, r'). (c # d, r')) (digits r) else Some ([], s))"

definition parse_exponent :: "bytes \<Rightarrow> (bytes \<times> bytes) option" where
  "parse_exponent s = (case s of
     [] \<Rightarrow> Some ([], [])
   | c # r \<Rightarrow>
       if c = 101 \<or> c = 69 then
         (case r of
            [] \<Rightarrow> None
          | g # r' \<Rightarrow>
              if g = 43 \<or> g = 45 then map_option (\<lambda>(d, r''). (c # g # d, r'')) (digits r')
              else map_option (\<lambda>(d, r''). (c # d, r'')) (digits r))
       else Some ([], s))"

definition parse_unsigned :: "bytes \<Rightarrow> (bytes \<times> bytes) option" where
  "parse_unsigned s =
     (case parse_int_part s of None \<Rightarrow> None | Some (a, r) \<Rightarrow>
      (case parse_fraction r of None \<Rightarrow> None | Some (b, r) \<Rightarrow>
       (case parse_exponent r of None \<Rightarrow> None | Some (c, r) \<Rightarrow> Some (a @ b @ c, r))))"

definition parse_number :: "bytes \<Rightarrow> (bytes \<times> bytes) option" where
  "parse_number s =
     (if s \<noteq> [] \<and> hd s = 45 then map_option (\<lambda>(n, r). (45 # n, r)) (parse_unsigned (tl s))
      else parse_unsigned s)"

definition skip_ws :: "bytes \<Rightarrow> bytes" where
  "skip_ws s = dropWhile (\<lambda>c. c \<in> {32, 9, 10, 13}) s"

subsection \<open>Values\<close>

text \<open>
  The elements of an array after its bracket, and the members of an object after its brace; the
  fuel bounds their number, and the length of the text is enough of it.
\<close>

fun parse_elements ::
  "(bytes \<Rightarrow> (json \<times> bytes) option) \<Rightarrow> nat \<Rightarrow> bytes \<Rightarrow> (json list \<times> bytes) option" where
  "parse_elements pv 0 s = None"
| "parse_elements pv (Suc n) s =
     (case pv (skip_ws s) of
        None \<Rightarrow> None
      | Some (v, r) \<Rightarrow>
          (case skip_ws r of
             [] \<Rightarrow> None
           | c # r' \<Rightarrow>
               if c = 93 then Some ([v], r')
               else if c = 44 then map_option (\<lambda>(vs, r''). (v # vs, r'')) (parse_elements pv n r')
               else None))"

definition parse_member ::
  "(bytes \<Rightarrow> (json \<times> bytes) option) \<Rightarrow> bytes \<Rightarrow> ((bytes \<times> json) \<times> bytes) option" where
  "parse_member pv s =
     (case s of
        [] \<Rightarrow> None
      | q # r \<Rightarrow>
          if q \<noteq> 34 then None
          else (case parse_string r of
                  None \<Rightarrow> None
                | Some (key, r) \<Rightarrow>
                    (case skip_ws r of
                       [] \<Rightarrow> None
                     | c # r \<Rightarrow>
                         if c \<noteq> 58 then None
                         else map_option (\<lambda>(v, r). ((key, v), r)) (pv (skip_ws r)))))"

fun parse_members ::
  "(bytes \<Rightarrow> (json \<times> bytes) option) \<Rightarrow> nat \<Rightarrow> bytes \<Rightarrow> ((bytes \<times> json) list \<times> bytes) option" where
  "parse_members pv 0 s = None"
| "parse_members pv (Suc n) s =
     (case parse_member pv (skip_ws s) of
        None \<Rightarrow> None
      | Some (m, r) \<Rightarrow>
          (case skip_ws r of
             [] \<Rightarrow> None
           | c # r' \<Rightarrow>
               if c = 125 then Some ([m], r')
               else if c = 44 then map_option (\<lambda>(ms, r''). (m # ms, r'')) (parse_members pv n r')
               else None))"

definition literal :: "string \<Rightarrow> json \<Rightarrow> bytes \<Rightarrow> (json \<times> bytes) option" where
  "literal w v s =
     (if take (length w) s = bytes_of w then Some (v, drop (length w) s) else None)"

definition parse_scalar :: "bytes \<Rightarrow> (json \<times> bytes) option" where
  "parse_scalar s =
     (case s of
        [] \<Rightarrow> None
      | c # r \<Rightarrow>
          if c = 34 then map_option (\<lambda>(b, r). (JStr b, r)) (parse_string r)
          else if c = 110 then literal ''null'' JNull s
          else if c = 116 then literal ''true'' (JBool True) s
          else if c = 102 then literal ''false'' (JBool False) s
          else map_option (\<lambda>(n, r). (JNum n, r)) (parse_number s))"

text \<open>The first argument is the number of containers that may still be opened.\<close>

fun parse_value :: "nat \<Rightarrow> bytes \<Rightarrow> (json \<times> bytes) option" where
  "parse_value 0 s = (if s \<noteq> [] \<and> hd s \<in> {91, 123} then None else parse_scalar s)"
| "parse_value (Suc d) s =
     (case s of
        [] \<Rightarrow> None
      | c # r \<Rightarrow>
          if c = 91 then
            (case skip_ws r of
               [] \<Rightarrow> None
             | e # r' \<Rightarrow> if e = 93 then Some (JArr [], r')
                 else map_option (\<lambda>(vs, r). (JArr vs, r)) (parse_elements (parse_value d) (length r) r))
          else if c = 123 then
            (case skip_ws r of
               [] \<Rightarrow> None
             | e # r' \<Rightarrow> if e = 125 then Some (JObj [], r')
                 else map_option (\<lambda>(ms, r). (JObj ms, r)) (parse_members (parse_value d) (length r) r))
          else parse_scalar s)"

definition maxNestingDepth :: nat where "maxNestingDepth = 10000"

definition json_parse :: "bytes \<Rightarrow> json option" where
  "json_parse s =
     (case parse_value maxNestingDepth (skip_ws s) of
        None \<Rightarrow> None
      | Some (v, r) \<Rightarrow> if skip_ws r = [] then Some v else None)"

subsection \<open>The compact writer\<close>

fun commas :: "bytes list \<Rightarrow> bytes" where
  "commas [] = []"
| "commas [x] = x"
| "commas (x # xs) = x @ 44 # commas xs"

definition print_string :: "bytes \<Rightarrow> bytes" where
  "print_string s = 34 # s @ [34]"

fun json_print :: "json \<Rightarrow> bytes" where
  "json_print JNull = bytes_of ''null''"
| "json_print (JBool b) = bytes_of (if b then ''true'' else ''false'')"
| "json_print (JNum n) = n"
| "json_print (JStr s) = print_string s"
| "json_print (JArr vs) = 91 # commas (map json_print vs) @ [93]"
| "json_print (JObj ms) = 123 # commas (map (\<lambda>(k, v). print_string k @ 58 # json_print v) ms) @ [125]"

text \<open>
  What it writes as it stands: strings of characters that need no escape (the HTML characters
  are escaped too), decimal numbers, and a nesting the reader accepts.
\<close>

definition plain_char :: "byte \<Rightarrow> bool" where
  "plain_char c \<longleftrightarrow> 32 \<le> unat c \<and> unat c < 128 \<and> c \<notin> {34, 38, 60, 62, 92}"

definition decimal :: "bytes \<Rightarrow> bool" where
  "decimal n \<longleftrightarrow> n \<noteq> [] \<and> (\<forall>c\<in>set n. is_digit c) \<and> (hd n = 48 \<longrightarrow> tl n = [])"

fun printable :: "nat \<Rightarrow> json \<Rightarrow> bool" where
  "printable d JNull = True"
| "printable d (JBool b) = True"
| "printable d (JNum n) = decimal n"
| "printable d (JStr s) = list_all plain_char s"
| "printable d (JArr vs) = (0 < d \<and> list_all (printable (d - 1)) vs)"
| "printable d (JObj ms) = (0 < d \<and> list_all (\<lambda>(k, v). list_all plain_char k \<and> printable (d - 1) v) ms)"

subsection \<open>Reading what was written\<close>

text \<open>What may follow a value inside a container.\<close>

definition value_ends :: "bytes \<Rightarrow> bool" where
  "value_ends rest \<longleftrightarrow> rest = [] \<or> hd rest \<in> {44, 93, 125}"

lemma value_ends_simps [simp]:
  "value_ends []" "value_ends (44 # r)" "value_ends (93 # r)" "value_ends (125 # r)"
  by (simp_all add: value_ends_def)

lemma plain_charD:
  assumes "plain_char c"
  shows "c \<noteq> 34" "c \<noteq> 92" "\<not> c < 32" "utf8_len (c # cs) = 1"
  using assms by (auto simp: plain_char_def word_less_nat_alt utf8_len_def)

lemma lex_string_plain:
  "list_all plain_char s \<Longrightarrow> lex_string (s @ 34 # rest) = Some (s, rest)"
  by (induction s) (simp_all add: plain_charD)

lemma unquote_plain: "list_all plain_char s \<Longrightarrow> unquote s = s"
  by (induction s) (simp_all add: unquote.simps plain_charD Let_def)

lemma parse_string_plain:
  "list_all plain_char s \<Longrightarrow> parse_string (s @ 34 # rest) = Some (s, rest)"
  by (simp add: parse_string_def lex_string_plain unquote_plain)

lemma digit_charD:
  assumes "is_digit c"
  shows "c \<noteq> 34" "c \<noteq> 110" "c \<noteq> 116" "c \<noteq> 102" "c \<noteq> 91" "c \<noteq> 123" "c \<noteq> 45" "c \<noteq> 93"
    "c \<notin> {32, 9, 10, 13}"
  using assms by (auto simp: is_digit_def)

lemma takeWhile_digits:
  "(\<forall>c\<in>set n. is_digit c) \<Longrightarrow> value_ends rest \<Longrightarrow>
   takeWhile is_digit (n @ rest) = n \<and> dropWhile is_digit (n @ rest) = rest"
  by (cases rest) (auto simp: value_ends_def is_digit_def)

lemma parse_number_decimal:
  assumes n: "decimal n" and r: "value_ends rest"
  shows "parse_number (n @ rest) = Some (n, rest)"
proof -
  obtain c m where nm: "n = c # m" using n by (cases n) (auto simp: decimal_def)
  have d: "\<forall>c\<in>set n. is_digit c" using n by (simp add: decimal_def)
  have i: "parse_int_part (n @ rest) = Some (n, rest)"
  proof (cases "c = 48")
    case True
    then have "m = []" using n nm by (simp add: decimal_def)
    then show ?thesis using True nm by (simp add: parse_int_part_def)
  next
    case False
    then have "parse_int_part (n @ rest) = digits (n @ rest)" by (simp add: nm parse_int_part_def)
    then show ?thesis using takeWhile_digits [OF d r] nm by (simp add: digits_def Let_def)
  qed
  have f: "parse_fraction rest = Some ([], rest)" "parse_exponent rest = Some ([], rest)"
    using r by (auto simp: value_ends_def parse_fraction_def parse_exponent_def split: list.splits)
  have "c \<noteq> 45" using d nm digit_charD by auto
  then show ?thesis
    using i f nm by (simp add: parse_number_def parse_unsigned_def)
qed

lemma json_print_first:
  "printable d v \<Longrightarrow> \<exists>c r. json_print v = c # r \<and> c \<notin> {32, 9, 10, 13} \<and> c \<noteq> 93 \<and> c \<noteq> 125"
proof (cases v)
  case (JNum n)
  moreover assume "printable d v"
  ultimately obtain c m where "n = c # m" "is_digit c" by (cases n) (auto simp: decimal_def)
  then show ?thesis using JNum digit_charD by (auto simp: is_digit_def)
qed (auto simp: bytes_of_def print_string_def)

lemma skip_ws_print:
  "printable d v \<Longrightarrow> skip_ws (json_print v @ rest) = json_print v @ rest"
  using json_print_first [of d v] by (auto simp: skip_ws_def)

lemma skip_ws_other [simp]:
  "c \<notin> {32, 9, 10, 13} \<Longrightarrow> skip_ws (c # r) = c # r" "skip_ws [] = []"
  by (auto simp: skip_ws_def)

lemma commas_Cons: "commas (x # xs) = x @ (if xs = [] then [] else 44 # commas xs)"
  by (cases xs) simp_all

lemma parse_elements_print:
  assumes "\<And>v rest. v \<in> set vs \<Longrightarrow> value_ends rest \<Longrightarrow> pv (json_print v @ rest) = Some (v, rest)"
    and "\<And>v. v \<in> set vs \<Longrightarrow> printable d v" and "vs \<noteq> []" "length vs \<le> n"
  shows "parse_elements pv n (commas (map json_print vs) @ 93 # rest) = Some (vs, rest)"
  using assms
proof (induction vs arbitrary: n)
  case (Cons v vs)
  obtain m where n: "n = Suc m" using Cons.prems(4) by (cases n) auto
  have v: "skip_ws (json_print v @ r) = json_print v @ r" for r
    using Cons.prems(2) [of v] by (intro skip_ws_print) simp
  show ?case
  proof (cases "vs = []")
    case True
    then show ?thesis using Cons.prems(1) v by (simp add: n)
  next
    case False
    have "parse_elements pv m (commas (map json_print vs) @ 93 # rest) = Some (vs, rest)"
      using Cons.prems False n by (intro Cons.IH) auto
    then show ?thesis using Cons.prems(1) v False by (simp add: n commas_Cons)
  qed
qed simp

abbreviation print_member :: "bytes \<times> json \<Rightarrow> bytes" where
  "print_member m \<equiv> (\<lambda>(k, v). print_string k @ 58 # json_print v) m"

lemma parse_member_print:
  assumes "\<And>rest. value_ends rest \<Longrightarrow> pv (json_print v @ rest) = Some (v, rest)"
    and "printable d v" "list_all plain_char k" "value_ends rest"
  shows "parse_member pv (print_member (k, v) @ rest) = Some ((k, v), rest)"
  using assms parse_string_plain [of k "58 # json_print v @ rest"] skip_ws_print [of d v rest]
  by (simp add: parse_member_def print_string_def)

lemma parse_members_print:
  assumes "\<And>k v rest. (k, v) \<in> set ms \<Longrightarrow> value_ends rest \<Longrightarrow> pv (json_print v @ rest) = Some (v, rest)"
    and "\<And>k v. (k, v) \<in> set ms \<Longrightarrow> list_all plain_char k \<and> printable d v"
    and "ms \<noteq> []" "length ms \<le> n"
  shows "parse_members pv n (commas (map print_member ms) @ 125 # rest) = Some (ms, rest)"
  using assms
proof (induction ms arbitrary: n)
  case (Cons m ms)
  obtain k v where kv: "m = (k, v)" by (cases m)
  obtain l where n: "n = Suc l" using Cons.prems(4) by (cases n) auto
  have "skip_ws (print_member m @ r) = print_member m @ r" for r
    by (simp add: kv print_string_def)
  moreover have "parse_member pv (print_member (k, v) @ r) = Some ((k, v), r)" if "value_ends r" for r
  proof (rule parse_member_print)
    show "printable d v" "list_all plain_char k" using Cons.prems(2) [of k v] kv by simp_all
    show "pv (json_print v @ rest) = Some (v, rest)" if "value_ends rest" for rest
      using Cons.prems(1) [of k v rest] kv that by simp
  qed fact
  ultimately have m: "value_ends r \<Longrightarrow> parse_member pv (skip_ws (print_member m @ r)) = Some (m, r)" for r
    by (simp add: kv)
  show ?case
  proof (cases "ms = []")
    case True
    then show ?thesis using m by (simp add: n)
  next
    case False
    have "parse_members pv l (commas (map print_member ms) @ 125 # rest) = Some (ms, rest)"
    proof (rule Cons.IH)
      show "pv (json_print v' @ r) = Some (v', r)" if "(k', v') \<in> set ms" "value_ends r" for k' v' r
        using Cons.prems(1) [of k' v' r] that by simp
      show "list_all plain_char k' \<and> printable d v'" if "(k', v') \<in> set ms" for k' v'
        using Cons.prems(2) [of k' v'] that by simp
    qed (use False Cons.prems n in simp_all)
    then show ?thesis using m False by (simp add: n commas_Cons)
  qed
qed simp

lemma length_commas: "(\<And>x. x \<in> set xs \<Longrightarrow> x \<noteq> []) \<Longrightarrow> length xs \<le> length (commas xs)"
  by (induction xs rule: commas.induct) (auto simp: Suc_le_eq length_greater_0_conv [symmetric]
      simp del: length_greater_0_conv intro: add_less_le_mono)

text \<open>The reader gives back every value the writer wrote.\<close>

lemma parse_value_scalar:
  assumes "s \<noteq> []" "hd s \<noteq> 91" "hd s \<noteq> 123"
  shows "parse_value d s = parse_scalar s"
  using assms by (cases d; cases s) auto

lemma parse_print_scalar:
  assumes p: "printable d v" and r: "value_ends rest" and s: "\<forall>vs. v \<noteq> JArr vs" "\<forall>ms. v \<noteq> JObj ms"
  shows "parse_value d (json_print v @ rest) = Some (v, rest)"
proof (cases v)
  case (JNum n)
  then obtain c m where nm: "n = c # m" "is_digit c" using p by (cases n) (auto simp: decimal_def)
  note c = digit_charD [OF nm(2)]
  have "parse_value d (n @ rest) = parse_scalar (n @ rest)"
    using c nm(1) by (intro parse_value_scalar) auto
  also have "\<dots> = map_option (\<lambda>(n, r). (JNum n, r)) (parse_number (n @ rest))"
    using c nm(1) by (simp add: parse_scalar_def)
  also have "\<dots> = Some (JNum n, rest)"
    using p JNum r by (simp add: parse_number_decimal)
  finally show ?thesis using JNum by simp
next
  case (JStr b)
  then show ?thesis using p parse_string_plain [of b rest]
    by (simp add: parse_value_scalar print_string_def parse_scalar_def)
qed (use s in \<open>auto simp: parse_value_scalar parse_scalar_def literal_def bytes_of_def\<close>)

lemma parse_print_container:
  assumes IH: "\<And>v rest. printable d v \<Longrightarrow> value_ends rest \<Longrightarrow> parse_value d (json_print v @ rest) = Some (v, rest)"
  shows "list_all (printable d) vs \<Longrightarrow>
      parse_value (Suc d) (json_print (JArr vs) @ rest) = Some (JArr vs, rest)"
    and "list_all (\<lambda>(k, v). list_all plain_char k \<and> printable d v) ms \<Longrightarrow>
      parse_value (Suc d) (json_print (JObj ms) @ rest) = Some (JObj ms, rest)"
proof -
  assume p: "list_all (printable d) vs"
  show "parse_value (Suc d) (json_print (JArr vs) @ rest) = Some (JArr vs, rest)"
  proof (cases vs)
    case (Cons v vs')
    have pv: "\<And>v. v \<in> set vs \<Longrightarrow> printable d v" using p by (simp add: list_all_iff)
    let ?s = "commas (map json_print vs) @ 93 # rest"
    have ne: "\<And>x. x \<in> set (map json_print vs) \<Longrightarrow> x \<noteq> []"
      using pv json_print_first by fastforce
    have "length vs \<le> length ?s" using length_commas [of "map json_print vs"] ne by simp
    then have e: "parse_elements (parse_value d) (length ?s) ?s = Some (vs, rest)"
      using IH pv Cons by (intro parse_elements_print) auto
    obtain c r where c: "json_print v = c # r" "c \<notin> {32, 9, 10, 13}" "c \<noteq> 93"
      using json_print_first [of d v] pv Cons by auto
    then have "skip_ws ?s = ?s" "hd ?s = c" "?s \<noteq> []" using Cons by (simp_all add: commas_Cons)
    then have "skip_ws ?s = c # tl ?s" by (metis list.collapse)
    then show ?thesis using e c by simp
  qed simp
next
  assume p: "list_all (\<lambda>(k, v). list_all plain_char k \<and> printable d v) ms"
  show "parse_value (Suc d) (json_print (JObj ms) @ rest) = Some (JObj ms, rest)"
  proof (cases ms)
    case (Cons m ms')
    have pm: "\<And>k v. (k, v) \<in> set ms \<Longrightarrow> list_all plain_char k \<and> printable d v"
      using p by (auto simp: list_all_iff)
    let ?s = "commas (map print_member ms) @ 125 # rest"
    have ne: "\<And>x. x \<in> set (map print_member ms) \<Longrightarrow> x \<noteq> []" by (auto simp: print_string_def)
    have "length ms \<le> length ?s" using length_commas [of "map print_member ms"] ne by simp
    then have e: "parse_members (parse_value d) (length ?s) ?s = Some (ms, rest)"
      using IH pm Cons by (intro parse_members_print) auto
    obtain q where q: "?s = 34 # q"
      using Cons by (cases m) (simp add: commas_Cons print_string_def)
    have "json_print (JObj ms) @ rest = 123 # 34 # q" using q by simp
    then show ?thesis using e [unfolded q] by simp
  qed simp
qed

lemma parse_print:
  "printable d v \<Longrightarrow> value_ends rest \<Longrightarrow> parse_value d (json_print v @ rest) = Some (v, rest)"
proof (induction d arbitrary: v rest)
  case 0
  then show ?case by (intro parse_print_scalar) auto
next
  case (Suc d)
  show ?case
  proof (cases "(\<exists>vs. v = JArr vs) \<or> (\<exists>ms. v = JObj ms)")
    case True
    then show ?thesis using Suc.prems parse_print_container [of d, OF Suc.IH] by auto
  next
    case False
    then show ?thesis using Suc.prems by (intro parse_print_scalar) auto
  qed
qed

lemma json_parse_print: "printable maxNestingDepth v \<Longrightarrow> json_parse (json_print v) = Some v"
  using parse_print [of maxNestingDepth v "[]"] skip_ws_print [of maxNestingDepth v "[]"]
  by (simp add: json_parse_def)

end
