(* ===== verification/Batch_Json.thy ===== *)
theory Batch_Json
  imports Json Verification_Data
begin

text \<open>
  The text of a batch. \<open>operator/pkg/verification_data.go\<close> gives the struct its JSON names and
  \<open>common/proving_systems.go\<close> the identifier its own \<open>MarshalJSON\<close> and \<open>UnmarshalJSON\<close>; the
  operator reads a batch with \<open>json.Unmarshal\<close>, the task sender writes one with
  \<open>json.Marshal\<close>, and the batcher writes one in Rust with \<open>serde_json::to_vec\<close>
  (\<open>batcher/aligned-batcher-lib/src/types/mod.rs\<close>).

  The reader follows \<open>encoding/json\<close>: keys match up to Unicode case folding, a repeated key is
  decoded over the earlier value, \<open>null\<close> leaves a struct or a number alone and empties a slice,
  a byte slice is a base64 string or an array of numbers. How far a growing slice's capacity
  grows is left to the argument \<open>growcap\<close>, as the Go specification leaves it to the runtime.
\<close>

subsection \<open>Names\<close>

text \<open>\<open>foldName\<close>: upper case, with the two characters outside ASCII that fold into it.\<close>

fun fold_name :: "bytes \<Rightarrow> bytes" where
  "fold_name [] = []"
| "fold_name (a # s) =
     (if take 2 (a # s) = [197, 191] then 83 # fold_name (drop 1 s)
      else if take 3 (a # s) = [226, 132, 170] then 75 # fold_name (drop 2 s)
      else (if 97 \<le> unat a \<and> unat a \<le> 122 then a - 32 else a) # fold_name s)"

definition is_field :: "string \<Rightarrow> bytes \<Rightarrow> bool" where
  "is_field name key \<longleftrightarrow> key = bytes_of name \<or> fold_name key = fold_name (bytes_of name)"

subsection \<open>Identifiers\<close>

definition ProvingSystemId_UnmarshalJSON :: "json \<Rightarrow> ProvingSystemId \<Rightarrow> ProvingSystemId \<times> string option" where
  "ProvingSystemId_UnmarshalJSON b t =
     (case b of
        JStr s \<Rightarrow> ProvingSystemIdFromString (string_of s)
      | JNull \<Rightarrow> ProvingSystemIdFromString ''''
      | _ \<Rightarrow> (t, Some ''json: cannot unmarshal value into Go value of type string''))"

definition ProvingSystemId_MarshalJSON :: "ProvingSystemId \<Rightarrow> bytes result" where
  "ProvingSystemId_MarshalJSON t =
     (case ProvingSystemIdToString t of
        (str, None) \<Rightarrow> Inr (print_string (bytes_of str))
      | (_, Some _) \<Rightarrow> Inl (''invalid ProvingSystemId value: '' @ show_nat (unat t)))"

subsection \<open>Byte slices\<close>

definition nil_slice :: gslice where "nil_slice = \<lparr>backing = [], slen = 0\<rparr>"

text \<open>\<open>strconv.ParseUint(item, 10, 64)\<close> and the overflow check for eight bits.\<close>

definition decimal_value :: "bytes \<Rightarrow> nat" where
  "decimal_value n = fold (\<lambda>c v. v * 10 + (unat c - 48)) n 0"

definition parse_uint8 :: "bytes \<Rightarrow> byte option" where
  "parse_uint8 n =
     (if (\<forall>c\<in>set n. is_digit c) \<and> n \<noteq> [] \<and> decimal_value n < 256
      then Some (word_of_nat (decimal_value n)) else None)"

definition make_room :: "(nat \<Rightarrow> nat) \<Rightarrow> nat \<Rightarrow> gslice \<Rightarrow> gslice" where
  "make_room growcap i s =
     (let s = (if length (backing s) \<le> i
               then s\<lparr>backing := take (slen s) (backing s)
                        @ make_bytes (growcap (length (backing s)) - slen s)\<rparr>
               else s)
      in if slen s \<le> i then s\<lparr>slen := i + 1\<rparr> else s)"

fun store_elements :: "(nat \<Rightarrow> nat) \<Rightarrow> nat \<Rightarrow> json list \<Rightarrow> gslice \<Rightarrow> gslice result" where
  "store_elements growcap i [] s =
     Inr (if i = 0 then nil_slice else if i < slen s then s\<lparr>slen := i\<rparr> else s)"
| "store_elements growcap i (v # vs) s =
     (let s = make_room growcap i s in
      case v of
        JNull \<Rightarrow> store_elements growcap (i + 1) vs s
      | JNum n \<Rightarrow>
          (case parse_uint8 n of
             None \<Rightarrow> Inl ''json: cannot unmarshal number into Go value of type uint8''
           | Some b \<Rightarrow> store_elements growcap (i + 1) vs (s\<lparr>backing := (backing s)[i := b]\<rparr>))
      | _ \<Rightarrow> Inl ''json: cannot unmarshal value into Go value of type uint8'')"

definition decode_bytes :: "(nat \<Rightarrow> nat) \<Rightarrow> json \<Rightarrow> gslice \<Rightarrow> gslice result" where
  "decode_bytes growcap v s =
     (case v of
        JNull \<Rightarrow> Inr nil_slice
      | JStr b \<Rightarrow> (case b64_slice b of None \<Rightarrow> Inl ''illegal base64 data'' | Some s \<Rightarrow> Inr s)
      | JArr vs \<Rightarrow> store_elements growcap 0 vs s
      | _ \<Rightarrow> Inl ''json: cannot unmarshal value into Go value of type []uint8'')"

subsection \<open>Reading a batch\<close>

definition zero_entry :: VerificationData where
  "zero_entry = \<lparr>vd_ProvingSystemId = 0, vd_Proof = nil_slice, vd_PubInput = nil_slice,
     vd_VerificationKey = nil_slice, vd_VmProgramCode = nil_slice\<rparr>"

definition decode_member :: "(nat \<Rightarrow> nat) \<Rightarrow> bytes \<times> json \<Rightarrow> VerificationData \<Rightarrow> VerificationData result" where
  "decode_member growcap m e =
     (let key = fst m; v = snd m in
      if is_field ''proving_system'' key then
        (case ProvingSystemId_UnmarshalJSON v (vd_ProvingSystemId e) of
           (t, None) \<Rightarrow> Inr (e\<lparr>vd_ProvingSystemId := t\<rparr>)
         | (t, Some err) \<Rightarrow> Inl err)
      else if is_field ''proof'' key then
        rbind (decode_bytes growcap v (vd_Proof e)) (\<lambda>s. Inr (e\<lparr>vd_Proof := s\<rparr>))
      else if is_field ''pub_input'' key then
        rbind (decode_bytes growcap v (vd_PubInput e)) (\<lambda>s. Inr (e\<lparr>vd_PubInput := s\<rparr>))
      else if is_field ''verification_key'' key then
        rbind (decode_bytes growcap v (vd_VerificationKey e)) (\<lambda>s. Inr (e\<lparr>vd_VerificationKey := s\<rparr>))
      else if is_field ''vm_program_code'' key then
        rbind (decode_bytes growcap v (vd_VmProgramCode e)) (\<lambda>s. Inr (e\<lparr>vd_VmProgramCode := s\<rparr>))
      else Inr e)"

fun decode_members :: "(nat \<Rightarrow> nat) \<Rightarrow> (bytes \<times> json) list \<Rightarrow> VerificationData \<Rightarrow> VerificationData result" where
  "decode_members growcap [] e = Inr e"
| "decode_members growcap (m # ms) e = rbind (decode_member growcap m e) (decode_members growcap ms)"

definition decode_entry :: "(nat \<Rightarrow> nat) \<Rightarrow> json \<Rightarrow> VerificationData result" where
  "decode_entry growcap v =
     (case v of
        JNull \<Rightarrow> Inr zero_entry
      | JObj ms \<Rightarrow> decode_members growcap ms zero_entry
      | _ \<Rightarrow> Inl ''json: cannot unmarshal value into Go value of type operator.VerificationData'')"

definition Unmarshal_batch :: "(nat \<Rightarrow> nat) \<Rightarrow> bytes \<Rightarrow> VerificationData list result" where
  "Unmarshal_batch growcap data =
     (case json_parse data of
        None \<Rightarrow> Inl ''invalid JSON''
      | Some JNull \<Rightarrow> Inr []
      | Some (JArr vs) \<Rightarrow> mapR (decode_entry growcap) vs
      | Some _ \<Rightarrow> Inl ''json: cannot unmarshal value into Go value of type []operator.VerificationData'')"

subsection \<open>Writing a batch in Go\<close>

text \<open>The slices written are not nil (a nil slice is written \<open>null\<close>).\<close>

definition print_member_text :: "string \<Rightarrow> bytes \<Rightarrow> bytes" where
  "print_member_text k txt = print_string (bytes_of k) @ 58 # txt"

definition bytes_text :: "gslice \<Rightarrow> bytes" where
  "bytes_text s = print_string (b64_encode (contents s))"

definition Marshal_entry :: "VerificationData \<Rightarrow> bytes result" where
  "Marshal_entry e =
     rbind (ProvingSystemId_MarshalJSON (vd_ProvingSystemId e)) (\<lambda>t.
       Inr (123 # commas
         [print_member_text ''proving_system'' t,
          print_member_text ''proof'' (bytes_text (vd_Proof e)),
          print_member_text ''pub_input'' (bytes_text (vd_PubInput e)),
          print_member_text ''verification_key'' (bytes_text (vd_VerificationKey e)),
          print_member_text ''vm_program_code'' (bytes_text (vd_VmProgramCode e))] @ [125]))"

definition Marshal_batch :: "VerificationData list \<Rightarrow> bytes result" where
  "Marshal_batch data = rbind (mapR Marshal_entry data) (\<lambda>es. Inr (91 # commas es @ [93]))"

subsection \<open>Writing a batch in Rust\<close>

text \<open>The identifier is one of the six of the Rust enumeration, by its number.\<close>

record rust_VerificationData =
  proving_system :: ProvingSystemId
  rs_proof :: bytes
  pub_input :: "bytes option"
  verification_key :: "bytes option"
  vm_program_code :: "bytes option"
  proof_generator_addr :: bytes

definition digit_char :: "nat \<Rightarrow> byte" where
  "digit_char k = word_of_nat (48 + k)"

definition u8_text :: "byte \<Rightarrow> bytes" where
  "u8_text b =
     (let n = unat b in
      if n < 10 then [digit_char n]
      else if n < 100 then [digit_char (n div 10), digit_char (n mod 10)]
      else [digit_char (n div 100), digit_char (n div 10 mod 10), digit_char (n mod 10)])"

definition vec_value :: "bytes \<Rightarrow> json" where
  "vec_value bs = JArr (map (\<lambda>b. JNum (u8_text b)) bs)"

definition option_value :: "bytes option \<Rightarrow> json" where
  "option_value x = (case x of None \<Rightarrow> JNull | Some bs \<Rightarrow> vec_value bs)"

definition rust_entry_value :: "rust_VerificationData \<Rightarrow> json" where
  "rust_entry_value e =
     JObj [(bytes_of ''proving_system'', JStr (bytes_of (fst (ProvingSystemIdToString (proving_system e))))),
           (bytes_of ''proof'', vec_value (rs_proof e)),
           (bytes_of ''pub_input'', option_value (pub_input e)),
           (bytes_of ''verification_key'', option_value (verification_key e)),
           (bytes_of ''vm_program_code'', option_value (vm_program_code e)),
           (bytes_of ''proof_generator_addr'',
              JStr (bytes_of (''0x'' @ hex_encode (proof_generator_addr e))))]"

definition rust_batch_to_vec :: "rust_VerificationData list \<Rightarrow> bytes" where
  "rust_batch_to_vec batch = json_print (JArr (map rust_entry_value batch))"

subsection \<open>The written text as a value\<close>

definition go_entry_value :: "VerificationData \<Rightarrow> json" where
  "go_entry_value e =
     JObj [(bytes_of ''proving_system'', JStr (bytes_of (fst (ProvingSystemIdToString (vd_ProvingSystemId e))))),
           (bytes_of ''proof'', JStr (b64_encode (contents (vd_Proof e)))),
           (bytes_of ''pub_input'', JStr (b64_encode (contents (vd_PubInput e)))),
           (bytes_of ''verification_key'', JStr (b64_encode (contents (vd_VerificationKey e)))),
           (bytes_of ''vm_program_code'', JStr (b64_encode (contents (vd_VmProgramCode e))))]"

lemma Marshal_entry_Inr:
  "Marshal_entry e = Inr txt \<longleftrightarrow>
     vd_ProvingSystemId e \<in> set known_systems \<and> txt = json_print (go_entry_value e)"
proof (cases "ProvingSystemIdToString (vd_ProvingSystemId e)")
  case (Pair str err)
  have k: "(err = None) = (vd_ProvingSystemId e \<in> set known_systems)"
    using ToString_known [of "vd_ProvingSystemId e"] Pair by simp
  show ?thesis
    by (cases err)
      (use k Pair in \<open>auto simp: Marshal_entry_def ProvingSystemId_MarshalJSON_def go_entry_value_def
        print_member_text_def bytes_text_def\<close>)
qed

lemma Marshal_batch_Inr:
  "Marshal_batch batch = Inr txt \<Longrightarrow>
     (\<forall>e\<in>set batch. vd_ProvingSystemId e \<in> set known_systems)
     \<and> txt = json_print (JArr (map go_entry_value batch))"
proof -
  assume "Marshal_batch batch = Inr txt"
  then obtain es where es: "mapR Marshal_entry batch = Inr es" "txt = 91 # commas es @ [93]"
    by (auto simp: Marshal_batch_def go_simps)
  have "(\<forall>e\<in>set batch. vd_ProvingSystemId e \<in> set known_systems)
      \<and> es = map (json_print \<circ> go_entry_value) batch"
    using es(1) by (induction batch arbitrary: es) (auto simp: go_simps Marshal_entry_Inr)
  then show ?thesis using es(2) by simp
qed

subsection \<open>Everything written can be read as it stands\<close>

lemma plain_names [simp]:
  "list_all plain_char (bytes_of ''proving_system'')" "list_all plain_char (bytes_of ''proof'')"
  "list_all plain_char (bytes_of ''pub_input'')" "list_all plain_char (bytes_of ''verification_key'')"
  "list_all plain_char (bytes_of ''vm_program_code'')"
  "list_all plain_char (bytes_of ''proof_generator_addr'')"
  by (simp_all add: bytes_of_def plain_char_def)

lemma plain_system_names:
  "list_all plain_char (bytes_of (fst (ProvingSystemIdToString t)))"
  by (simp add: ProvingSystemIdToString_def bytes_of_def plain_char_def)

lemma plain_b64: "list_all plain_char (b64_encode bs)"
proof -
  have "plain_char c" if "b64_plain c" for c
    using that
    by (auto simp: b64_plain_def b64_value_def Let_def plain_char_def pad_def split: if_splits)
  then show ?thesis using b64_encode_plain by (auto simp: list_all_iff)
qed

lemma printable_go_entry: "2 \<le> d \<Longrightarrow> printable d (go_entry_value e)"
  by (simp add: go_entry_value_def plain_system_names plain_b64)

subsection \<open>Field names\<close>

lemma is_field_self [simp]: "is_field name (bytes_of name)"
  by (simp add: is_field_def)

lemma is_field_other [simp]:
  "\<not> is_field ''proving_system'' (bytes_of ''proof'')"
  "\<not> is_field ''proving_system'' (bytes_of ''pub_input'')"
  "\<not> is_field ''proving_system'' (bytes_of ''verification_key'')"
  "\<not> is_field ''proving_system'' (bytes_of ''vm_program_code'')"
  "\<not> is_field ''proving_system'' (bytes_of ''proof_generator_addr'')"
  "\<not> is_field ''proof'' (bytes_of ''pub_input'')"
  "\<not> is_field ''proof'' (bytes_of ''verification_key'')"
  "\<not> is_field ''proof'' (bytes_of ''vm_program_code'')"
  "\<not> is_field ''proof'' (bytes_of ''proof_generator_addr'')"
  "\<not> is_field ''pub_input'' (bytes_of ''verification_key'')"
  "\<not> is_field ''pub_input'' (bytes_of ''vm_program_code'')"
  "\<not> is_field ''pub_input'' (bytes_of ''proof_generator_addr'')"
  "\<not> is_field ''verification_key'' (bytes_of ''vm_program_code'')"
  "\<not> is_field ''verification_key'' (bytes_of ''proof_generator_addr'')"
  "\<not> is_field ''vm_program_code'' (bytes_of ''proof_generator_addr'')"
  by (simp_all add: is_field_def bytes_of_def)

subsection \<open>Reading what Go wrote\<close>

lemma unmarshal_known:
  "t \<in> set known_systems \<Longrightarrow>
   ProvingSystemId_UnmarshalJSON (JStr (bytes_of (fst (ProvingSystemIdToString t)))) t' = (t, None)"
  using From_To [of t "fst (ProvingSystemIdToString t)"] ToString_known [of t]
  by (simp add: ProvingSystemId_UnmarshalJSON_def result_of_Inr_iff prod_eq_iff)

definition same_entry :: "VerificationData \<Rightarrow> VerificationData \<Rightarrow> bool" where
  "same_entry e e' \<longleftrightarrow>
     vd_ProvingSystemId e' = vd_ProvingSystemId e
     \<and> contents (vd_Proof e') = contents (vd_Proof e)
     \<and> contents (vd_PubInput e') = contents (vd_PubInput e)
     \<and> contents (vd_VerificationKey e') = contents (vd_VerificationKey e)
     \<and> contents (vd_VmProgramCode e') = contents (vd_VmProgramCode e)
     \<and> slice_ok (vd_Proof e') \<and> slice_ok (vd_PubInput e') \<and> slice_ok (vd_VerificationKey e')
     \<and> slice_ok (vd_VmProgramCode e')"

lemma decode_b64_string:
  "\<exists>s'. decode_bytes growcap (JStr (b64_encode bs)) s = Inr s' \<and> contents s' = bs \<and> slice_ok s'"
  by (simp add: decode_bytes_def b64_slice_encode contents_def slice_ok_def)

lemma decode_go_entry:
  assumes "vd_ProvingSystemId e \<in> set known_systems"
  shows "\<exists>e'. decode_entry growcap (go_entry_value e) = Inr e' \<and> same_entry e e'"
proof -
  obtain p i k c where
    "decode_bytes growcap (JStr (b64_encode (contents (vd_Proof e)))) nil_slice = Inr p"
    "contents p = contents (vd_Proof e)" "slice_ok p"
    "decode_bytes growcap (JStr (b64_encode (contents (vd_PubInput e)))) nil_slice = Inr i"
    "contents i = contents (vd_PubInput e)" "slice_ok i"
    "decode_bytes growcap (JStr (b64_encode (contents (vd_VerificationKey e)))) nil_slice = Inr k"
    "contents k = contents (vd_VerificationKey e)" "slice_ok k"
    "decode_bytes growcap (JStr (b64_encode (contents (vd_VmProgramCode e)))) nil_slice = Inr c"
    "contents c = contents (vd_VmProgramCode e)" "slice_ok c"
    using decode_b64_string by metis
  then show ?thesis
    by (simp add: decode_entry_def go_entry_value_def decode_member_def unmarshal_known [OF assms]
        zero_entry_def same_entry_def)
qed

lemma mapR_all2:
  assumes "\<And>x. x \<in> set xs \<Longrightarrow> \<exists>y. f (g x) = Inr y \<and> R x y"
  shows "\<exists>ys. mapR f (map g xs) = Inr ys \<and> list_all2 R xs ys"
  using assms
proof (induction xs)
  case (Cons x xs)
  then obtain y ys where "f (g x) = Inr y" "R x y" "mapR f (map g xs) = Inr ys" "list_all2 R xs ys"
    by (meson list.set_intros)
  then show ?case by simp
qed simp

lemma Unmarshal_printed:
  "printable maxNestingDepth (JArr vs) \<Longrightarrow>
   Unmarshal_batch growcap (json_print (JArr vs)) = mapR (decode_entry growcap) vs"
  by (simp only: Unmarshal_batch_def json_parse_print) simp

subsection \<open>Reading what Rust wrote\<close>

lemma digit_char_simps [simp]:
  "k < 10 \<Longrightarrow> unat (digit_char k) = 48 + k" "k < 10 \<Longrightarrow> is_digit (digit_char k)"
proof -
  assume k: "k < 10"
  show u: "unat (digit_char k) = 48 + k" using k unat_byte [of "48 + k"] by (simp add: digit_char_def)
  show "is_digit (digit_char k)" using k by (simp add: is_digit_def u)
qed

lemma digit_char_48: "k < 10 \<Longrightarrow> digit_char k = 48 \<longleftrightarrow> k = 0"
proof -
  assume k: "k < 10"
  have "k = 0" if "digit_char k = 48"
    using digit_char_simps(1) [OF k] that by simp
  then show ?thesis by (auto simp: digit_char_def)
qed

lemma three_digits: "(n div 100 * 10 + n div 10 mod 10) * 10 + n mod 10 = (n :: nat)"
proof -
  have "n div 100 = n div 10 div 10" by (simp add: div_mult2_eq [symmetric])
  then show ?thesis by simp
qed

lemma u8_text_cases:
  obtains (one) "unat b < 10" "u8_text b = [digit_char (unat b)]"
  | (two) "unat b div 10 < 10" "unat b div 10 \<noteq> 0"
      "u8_text b = [digit_char (unat b div 10), digit_char (unat b mod 10)]"
  | (three) "unat b div 100 < 10" "unat b div 100 \<noteq> 0"
      "u8_text b = [digit_char (unat b div 100), digit_char (unat b div 10 mod 10),
         digit_char (unat b mod 10)]"
proof -
  consider "unat b < 10" | "10 \<le> unat b" "unat b < 100" | "100 \<le> unat b" "unat b < 256"
    using unat_byte_less [of b] by linarith
  then show thesis
  proof cases
    case 1
    then show thesis by (intro one) (simp_all add: u8_text_def Let_def)
  next
    case 2
    then show thesis by (intro two) (simp_all add: u8_text_def Let_def)
  next
    case 3
    then show thesis by (intro three) (simp_all add: u8_text_def Let_def)
  qed
qed

lemma parse_uint8_text [simp]: "parse_uint8 (u8_text b) = Some b"
proof (cases b rule: u8_text_cases)
  case three
  have "decimal_value (u8_text b) = unat b"
    using three three_digits [of "unat b"] by (simp add: decimal_value_def)
  then show ?thesis using three unat_byte_less [of b] by (simp add: parse_uint8_def)
qed (use unat_byte_less [of b] in \<open>simp_all add: parse_uint8_def decimal_value_def\<close>)

lemma decimal_u8_text: "decimal (u8_text b)"
  by (cases b rule: u8_text_cases) (simp_all add: decimal_def digit_char_48)

lemma make_room_next:
  assumes "\<And>n. n < growcap n" "slice_ok s" "slen s = i"
  shows "slen (make_room growcap i s) = i + 1" "slice_ok (make_room growcap i s)"
    "take i (backing (make_room growcap i s)) = contents s"
  using assms(2,3) assms(1) [of "length (backing s)"]
  by (auto simp: make_room_def Let_def slice_ok_def contents_def)

lemma store_numbers:
  assumes "\<And>n. n < growcap n"
  shows "slice_ok s \<Longrightarrow> slen s = i \<Longrightarrow>
    \<exists>s'. store_elements growcap i (map (\<lambda>b. JNum (u8_text b)) bs) s = Inr s'
      \<and> slice_ok s' \<and> contents s' = contents s @ bs"
proof (induction bs arbitrary: s i)
  case Nil
  then show ?case by (auto simp: nil_slice_def slice_ok_def contents_def)
next
  case (Cons b bs)
  let ?m = "make_room growcap i s"
  let ?s = "?m\<lparr>backing := (backing ?m)[i := b]\<rparr>"
  note m = make_room_next [OF assms Cons.prems]
  have ok: "slice_ok ?s" "slen ?s = i + 1" using m by (simp_all add: slice_ok_def)
  have "i < length (backing ?m)" using m(1,2) by (simp add: slice_ok_def)
  then have "contents ?s = contents s @ [b]"
    using m by (simp add: contents_def take_Suc_conv_app_nth)
  with Cons.IH [OF ok] show ?case by (simp add: Let_def)
qed

definition opt_bytes :: "bytes option \<Rightarrow> bytes" where
  "opt_bytes x = (case x of None \<Rightarrow> [] | Some bs \<Rightarrow> bs)"

lemma slice_ok_nil [simp]: "slice_ok nil_slice" "contents nil_slice = []" "slen nil_slice = 0"
  by (simp_all add: nil_slice_def slice_ok_def contents_def)

lemma decode_vec:
  assumes "\<And>n. n < growcap n"
  shows "\<exists>s. decode_bytes growcap (vec_value bs) nil_slice = Inr s \<and> slice_ok s \<and> contents s = bs"
  using store_numbers [where growcap = growcap and s = nil_slice and i = 0 and bs = bs, OF assms]
  by (simp add: decode_bytes_def vec_value_def)

lemma decode_option:
  assumes "\<And>n. n < growcap n"
  shows "\<exists>s. decode_bytes growcap (option_value x) nil_slice = Inr s \<and> slice_ok s \<and> contents s = opt_bytes x"
proof (cases x)
  case None
  then show ?thesis by (simp add: option_value_def decode_bytes_def opt_bytes_def)
next
  case (Some bs)
  then show ?thesis using decode_vec [where bs = bs, OF assms] by (simp add: option_value_def opt_bytes_def)
qed

definition rust_entry_read :: "rust_VerificationData \<Rightarrow> VerificationData \<Rightarrow> bool" where
  "rust_entry_read e e' \<longleftrightarrow>
     vd_ProvingSystemId e' = proving_system e
     \<and> contents (vd_Proof e') = rs_proof e
     \<and> contents (vd_PubInput e') = opt_bytes (pub_input e)
     \<and> contents (vd_VerificationKey e') = opt_bytes (verification_key e)
     \<and> contents (vd_VmProgramCode e') = opt_bytes (vm_program_code e)
     \<and> slice_ok (vd_Proof e') \<and> slice_ok (vd_PubInput e') \<and> slice_ok (vd_VerificationKey e')
     \<and> slice_ok (vd_VmProgramCode e')"

lemma decode_rust_entry:
  assumes g: "\<And>n. n < growcap n" and t: "proving_system e \<in> set known_systems"
  shows "\<exists>e'. decode_entry growcap (rust_entry_value e) = Inr e' \<and> rust_entry_read e e'"
proof -
  obtain p where p: "decode_bytes growcap (vec_value (rs_proof e)) nil_slice = Inr p"
    "contents p = rs_proof e" "slice_ok p"
    using decode_vec [where bs = "rs_proof e", OF g] by blast
  obtain i where i: "decode_bytes growcap (option_value (pub_input e)) nil_slice = Inr i"
    "contents i = opt_bytes (pub_input e)" "slice_ok i"
    using decode_option [where x = "pub_input e", OF g] by blast
  obtain k where k: "decode_bytes growcap (option_value (verification_key e)) nil_slice = Inr k"
    "contents k = opt_bytes (verification_key e)" "slice_ok k"
    using decode_option [where x = "verification_key e", OF g] by blast
  obtain c where c: "decode_bytes growcap (option_value (vm_program_code e)) nil_slice = Inr c"
    "contents c = opt_bytes (vm_program_code e)" "slice_ok c"
    using decode_option [where x = "vm_program_code e", OF g] by blast
  show ?thesis
    using p i k c
    by (simp add: decode_entry_def rust_entry_value_def decode_member_def unmarshal_known [OF t]
        zero_entry_def rust_entry_read_def)
qed

lemma plain_hex: "list_all plain_char (bytes_of (''0x'' @ hex_encode bs))"
proof -
  have d: "plain_char (word_of_nat (of_char (hex_digit n)))" if "n < 16" for n
  proof -
    have "n \<in> set [0..<16]" using that by simp
    then show ?thesis by (auto simp: hex_digit_def plain_char_def upt_rec)
  qed
  have "unat (a :: byte) div 16 < 16" for a using unat_byte_less [of a] by simp
  then have "list_all plain_char (bytes_of (hex_encode bs))"
    by (induction bs) (simp_all add: hex_encode_def hex_byte_def bytes_of_def d)
  then show ?thesis by (simp add: bytes_of_def plain_char_def)
qed

lemma printable_vec: "0 < d \<Longrightarrow> printable d (vec_value bs)"
  by (simp add: vec_value_def list_all_iff decimal_u8_text)

lemma printable_option: "0 < d \<Longrightarrow> printable d (option_value x)"
  by (cases x) (simp_all add: option_value_def printable_vec)

lemma printable_rust_entry: "2 \<le> d \<Longrightarrow> printable d (rust_entry_value e)"
  using plain_hex [of "proof_generator_addr e"]
  by (simp add: rust_entry_value_def plain_system_names printable_vec printable_option)

subsection \<open>The identifier's own codec\<close>

definition unmarshal_id :: "bytes \<Rightarrow> ProvingSystemId result" where
  "unmarshal_id b =
     (case json_parse b of
        None \<Rightarrow> Inl ''invalid JSON''
      | Some v \<Rightarrow> result_of (ProvingSystemId_UnmarshalJSON v 0))"

lemma MarshalJSON_Inr:
  "ProvingSystemId_MarshalJSON t = Inr b \<longleftrightarrow>
     t \<in> set known_systems \<and> b = json_print (JStr (bytes_of (fst (ProvingSystemIdToString t))))"
proof (cases "ProvingSystemIdToString t")
  case (Pair str err)
  have k: "(err = None) = (t \<in> set known_systems)"
    using ToString_known [of t] Pair by simp
  show ?thesis by (cases err) (use k Pair in \<open>auto simp: ProvingSystemId_MarshalJSON_def\<close>)
qed

interpretation ps_json: codec ProvingSystemId_MarshalJSON unmarshal_id
proof
  fix t b
  assume "ProvingSystemId_MarshalJSON t = Inr b"
  then have t: "t \<in> set known_systems"
    and b: "b = json_print (JStr (bytes_of (fst (ProvingSystemIdToString t))))"
    by (auto simp: MarshalJSON_Inr)
  have "json_parse b = Some (JStr (bytes_of (fst (ProvingSystemIdToString t))))"
    unfolding b by (rule json_parse_print) (simp add: plain_system_names)
  then show "unmarshal_id b = Inr t" by (simp add: unmarshal_id_def unmarshal_known [OF t])
qed

subsection \<open>Whole batches\<close>

lemma Unmarshal_Marshal:
  assumes "Marshal_batch batch = Inr txt"
  shows "\<exists>batch'. Unmarshal_batch growcap txt = Inr batch' \<and> list_all2 same_entry batch batch'"
proof -
  have known: "\<forall>e\<in>set batch. vd_ProvingSystemId e \<in> set known_systems"
    and written: "txt = json_print (JArr (map go_entry_value batch))"
    using Marshal_batch_Inr [OF assms] by simp_all
  have "printable maxNestingDepth (JArr (map go_entry_value batch))"
    by (auto simp: list_all_iff maxNestingDepth_def intro: printable_go_entry)
  then have "Unmarshal_batch growcap txt = mapR (decode_entry growcap) (map go_entry_value batch)"
    unfolding written by (rule Unmarshal_printed)
  then show ?thesis
    using mapR_all2 [of batch "decode_entry growcap" go_entry_value same_entry] decode_go_entry known
    by simp
qed

text \<open>The operator also reads what the batcher uploads, which is written by another language
  in another form (byte vectors as arrays of numbers, absent parts as \<open>null\<close>, a field more than
  the operator knows): every entry is decoded with the batcher's proving system, proof and parts,
  absent parts as empty ones.\<close>

lemma rust_batch_read_back:
  assumes "\<And>n. n < growcap n" and "\<forall>e\<in>set batch. proving_system e \<in> set known_systems"
  shows "\<exists>batch'. Unmarshal_batch growcap (rust_batch_to_vec batch) = Inr batch'
    \<and> list_all2 rust_entry_read batch batch'"
proof -
  have "printable maxNestingDepth (JArr (map rust_entry_value batch))"
    by (auto simp: list_all_iff maxNestingDepth_def intro: printable_rust_entry)
  then have "Unmarshal_batch growcap (rust_batch_to_vec batch)
      = mapR (decode_entry growcap) (map rust_entry_value batch)"
    unfolding rust_batch_to_vec_def by (rule Unmarshal_printed)
  then show ?thesis
    using mapR_all2 [of batch "decode_entry growcap" rust_entry_value rust_entry_read]
      decode_rust_entry [of growcap, OF assms(1)] assms(2)
    by simp
qed

subsection \<open>Properties\<close>

definition example_batch :: "VerificationData list" where
  "example_batch = [\<lparr>vd_ProvingSystemId = SP1, vd_Proof = gs_of [0, 255, 7], vd_PubInput = gs_of [],
     vd_VerificationKey = gs_of [], vd_VmProgramCode = gs_of [1, 2]\<rparr>]"

lemma example_batch_text: "\<exists>txt. Marshal_batch example_batch = Inr txt"
  by (simp add: Marshal_batch_def example_batch_def Marshal_entry_def ProvingSystemId_MarshalJSON_def
      ProvingSystemIdToString_def ps_defs)

text \<open>C24: A batch survives its file: what the task sender marshals is what the operator
  unmarshals, entry for entry, with the same proving systems and the same bytes in all four
  slices, whatever the bytes are (base64, quotes and commas, and the reader's whole grammar lie
  in between); only spare capacity of the slices may differ.\<close>

theorem uploaded_batch_read_back:
  assumes "Marshal_batch batch = Inr txt"
  shows "\<exists>batch'. Unmarshal_batch growcap txt = Inr batch' \<and> list_all2 same_entry batch batch'"
  using assms by (rule Unmarshal_Marshal)

theorem uploaded_batch_read_back_witness:
  "\<exists>txt batch'. Marshal_batch example_batch = Inr txt \<and> Unmarshal_batch Suc txt = Inr batch'
     \<and> list_all2 same_entry example_batch batch'"
  using example_batch_text uploaded_batch_read_back by blast

lemma rust_batch_example:
  "\<exists>batch'. Unmarshal_batch Suc (rust_batch_to_vec
     [\<lparr>proving_system = SP1, rs_proof = [0, 255, 7], pub_input = None, verification_key = None,
       vm_program_code = Some [1, 2], proof_generator_addr = replicate 20 9\<rparr>]) = Inr batch'
     \<and> length batch' = 1"
  using rust_batch_read_back [of Suc "[\<lparr>proving_system = SP1, rs_proof = [0, 255, 7], pub_input = None,
      verification_key = None, vm_program_code = Some [1, 2], proof_generator_addr = replicate 20 9\<rparr>]"]
  by (auto simp: known_systems_def dest: list_all2_lengthD)

end
