(* ===== verification/Operator.thy ===== *)
theory Operator
  imports Chain_Clients Rpc_Client Operator_Batch Batch_Json
begin

text \<open>
  The operator (\<open>operator/pkg/operator.go\<close>, \<open>operator/pkg/register.go\<close>; its commands are in theory
  \<open>Operator_Commands\<close>): how it is built and registered, and its main loop, which waits for
  errors and new batches, judges each batch (theory \<open>Operator_Batch\<close>), signs the root of a
  batch that verified and hands the signed response to a goroutine of the RPC client.

  The loop is a relation labelled with what woke it up: the world's part of a step (how the
  server of batches or the SDK behaves at that time) is in the label. Goroutines that still
  verify entries of a batch that was already refused go on in the background.
\<close>

subsection \<open>Building an operator\<close>

record ('h, 's) bls_lib =
  Keccak256 :: "bytes \<Rightarrow> bytes"
  PrivKey_String :: "'h \<Rightarrow> string"
  OperatorIdFromKeyPair :: "'h \<Rightarrow> bytes32"
  SignMessage :: "'h \<Rightarrow> bytes32 \<Rightarrow> 's"

record ('h, 'c) operator =
  op_Config :: "'h OperatorConfig"
  op_Address :: address
  op_avsSubscriber :: "'h AvsSubscriber"
  op_aggRpcClient :: "'c AggregatorRpcClient"
  op_OperatorId :: bytes32
  op_metrics :: Metrics

definition RegisterOperator ::
  "'h sdk \<Rightarrow> 'h OperatorConfig \<Rightarrow> bytes32 \<Rightarrow> int \<Rightarrow> string option" where
  "RegisterOperator S configuration operatorToAvsRegistrationSigSalt now =
     (case NewAvsWriterFromConfig S (op_BaseConfig configuration) (op_EcdsaConfig configuration) of
        Inl err \<Rightarrow> Some err
      | Inr writer \<Rightarrow>
          let operatorToAvsRegistrationSigExpiry = now + 10 * 60; socket = ''Not Needed'';
              quorumNumbers = [0]
          in registry_RegisterOperator S (AvsRegistryWriter writer)
               (PrivateKey (op_EcdsaConfig configuration)) operatorToAvsRegistrationSigSalt
               operatorToAvsRegistrationSigExpiry (KeyPair (op_BlsConfig configuration))
               quorumNumbers socket)"

text \<open>The salt of a registration, from the time and the key.\<close>

definition registration_salt :: "('h, 's) bls_lib \<Rightarrow> 'h OperatorConfig \<Rightarrow> string \<Rightarrow> bytes32" where
  "registration_salt L configuration now =
     (let quorumNumbers = [0];
          privateKeyBytes = bytes_of (PrivKey_String L (KeyPair (op_BlsConfig configuration)))
      in go_copy (make_bytes 32)
           (Keccak256 L (bytes_of ''churn'' @ bytes_of now @ quorumNumbers @ privateKeyBytes)))"

text \<open>\<open>if err != nil { log.Fatalf(m) }\<close>\<close>

fun or_die :: "string \<Rightarrow> 'a result \<Rightarrow> 'a go" where
  "or_die m (Inl err) = Fatal m"
| "or_die m (Inr x) = Ret x"

definition NewOperatorFromConfig ::
  "'h sdk \<Rightarrow> ('h, 's) bls_lib \<Rightarrow> ('c, 's, 'w) rpc_net \<Rightarrow> 'h OperatorConfig \<Rightarrow> string \<Rightarrow> int \<Rightarrow> 'w \<Rightarrow>
     'w \<times> ('h, 'c) operator result go" where
  "NewOperatorFromConfig S L net configuration now_text now w =
     (let section = op_Section configuration in
      case
        gbind (or_die ''Could not create AVS reader''
          (NewAvsReaderFromConfig S (op_BaseConfig configuration) (op_EcdsaConfig configuration)))
          (\<lambda>avsReader.
        gbind (or_die ''Could not check if operator is registered''
          (IsOperatorRegistered S avsReader (Address section))) (\<lambda>registered.
        gbind (if registered then Ret ()
               else (case RegisterOperator S configuration
                             (registration_salt L configuration now_text) now of
                       None \<Rightarrow> Ret () | Some err \<Rightarrow> Fatal ''Could not register operator'')) (\<lambda>_.
        or_die ''Could not create AVS subscriber''
          (NewAvsSubscriberFromConfig S (op_BaseConfig configuration)))))
      of
        Panic \<Rightarrow> (w, Panic)
      | Fatal m \<Rightarrow> (w, Fatal m)
      | Ret avsSubscriber \<Rightarrow>
          (case NewAggregatorRpcClient net (AggregatorServerIpPortAddress section) w of
             (w, Inl err) \<Rightarrow>
               (w, Ret (Inl (''Could not create RPC client: '' @ err @ ''. Is aggregator running?'')))
           | (w, Inr client) \<Rightarrow>
               (w, Ret (Inr \<lparr>op_Config = configuration, op_Address = Address section,
                  op_avsSubscriber = avsSubscriber, op_aggRpcClient = client,
                  op_OperatorId = OperatorIdFromKeyPair L (KeyPair (op_BlsConfig configuration)),
                  op_metrics = NewMetrics (MetricsIpPortAddress section)\<rparr>))))"

subsection \<open>Signing\<close>

definition SignTaskResponse :: "('h, 's) bls_lib \<Rightarrow> ('h, 'c) operator \<Rightarrow> bytes32 \<Rightarrow> 's" where
  "SignTaskResponse L oper batchMerkleRoot =
     SignMessage L (KeyPair (op_BlsConfig (op_Config oper))) batchMerkleRoot"

definition signed_response ::
  "('h, 's) bls_lib \<Rightarrow> ('h, 'c) operator \<Rightarrow> bytes32 \<Rightarrow> 's SignedTaskResponse" where
  "signed_response L oper batchMerkleRoot =
     \<lparr>BatchMerkleRoot = batchMerkleRoot, BlsSignature = SignTaskResponse L oper batchMerkleRoot,
      OperatorId = op_OperatorId oper\<rparr>"

subsection \<open>The main loop\<close>

text \<open>
  What wakes the loop up: the metrics server ended, the subscription failed (with the SDK as it
  is when the loop subscribes again), or a batch was created (with the server of batches as it
  is when the batch is fetched).
\<close>

datatype 'h op_event =
    MetricsError "string option"
  | SubscriptionError string "'h sdk"
  | NewBatchEvent http_server bytes32 string

datatype op_status = OpRunning | OpPanicked | OpFatal string

record ('h, 's) operator_run =
  op_status :: op_status
  op_sub :: "'h option"
  dispatched :: "'s SignedTaskResponse list"
  background :: "(VerificationData list \<times> batch_run) list"

definition operator_getBatch ::
  "(nat \<Rightarrow> nat) \<Rightarrow> ('h, 'c) operator \<Rightarrow> http_server \<Rightarrow> string \<Rightarrow> VerificationData list result" where
  "operator_getBatch growcap oper http pointer =
     getBatchFromS3 http (Unmarshal_batch growcap) (MaxBatchSize (op_Section (op_Config oper))) pointer"

definition operator_start :: "'h sdk \<Rightarrow> ('h, 'c) operator \<Rightarrow> ('h, 's) operator_run" where
  "operator_start S oper =
     \<lparr>op_status = OpRunning, op_sub = AvsSubscriber_SubscribeToNewTasks S (op_avsSubscriber oper),
      dispatched = [], background = []\<rparr>"

inductive op_step ::
  "(nat \<Rightarrow> nat) \<Rightarrow> ('p, 'w, 'k) verifiers \<Rightarrow> ('h, 's) bls_lib \<Rightarrow> ('h, 'c) operator \<Rightarrow>
   ('h, 's) operator_run \<Rightarrow> 'h op_event option \<Rightarrow> ('h, 's) operator_run \<Rightarrow> bool"
  for growcap V L oper where
  nil_subscription: "op_status s = OpRunning \<Longrightarrow> op_sub s = None \<Longrightarrow>
    op_step growcap V L oper s None (s\<lparr>op_status := OpPanicked\<rparr>)"
| metrics_failed: "op_status s = OpRunning \<Longrightarrow> op_sub s = Some sub \<Longrightarrow>
    EnableMetrics (op_Section (op_Config oper)) \<Longrightarrow>
    op_step growcap V L oper s (Some (MetricsError err)) (s\<lparr>op_status := OpFatal ''Metrics server failed''\<rparr>)"
| resubscribe: "op_status s = OpRunning \<Longrightarrow> op_sub s = Some sub \<Longrightarrow>
    op_step growcap V L oper s (Some (SubscriptionError err S))
      (s\<lparr>op_sub := AvsSubscriber_SubscribeToNewTasks S (op_avsSubscriber oper)\<rparr>)"
| fetch_failed: "op_status s = OpRunning \<Longrightarrow> op_sub s = Some sub \<Longrightarrow>
    operator_getBatch growcap oper http pointer = Inl err \<Longrightarrow>
    op_step growcap V L oper s (Some (NewBatchEvent http root pointer)) s"
| batch_refused: "op_status s = OpRunning \<Longrightarrow> op_sub s = Some sub \<Longrightarrow>
    operator_getBatch growcap oper http pointer = Inr batch \<Longrightarrow>
    batch_reaches V batch b \<Longrightarrow> verdict b = Returned (Some err) \<Longrightarrow>
    op_step growcap V L oper s (Some (NewBatchEvent http root pointer))
      (s\<lparr>background := (batch, b) # background s\<rparr>)"
| batch_signed: "op_status s = OpRunning \<Longrightarrow> op_sub s = Some sub \<Longrightarrow>
    operator_getBatch growcap oper http pointer = Inr batch \<Longrightarrow>
    batch_reaches V batch b \<Longrightarrow> verdict b = Returned None \<Longrightarrow>
    op_step growcap V L oper s (Some (NewBatchEvent http root pointer))
      (s\<lparr>dispatched := dispatched s @ [signed_response L oper root],
         background := (batch, b) # background s\<rparr>)"
| batch_crashed: "op_status s = OpRunning \<Longrightarrow> op_sub s = Some sub \<Longrightarrow>
    operator_getBatch growcap oper http pointer = Inr batch \<Longrightarrow>
    batch_reaches V batch b \<Longrightarrow> verdict b = Crashed \<Longrightarrow>
    op_step growcap V L oper s (Some (NewBatchEvent http root pointer)) (s\<lparr>op_status := OpPanicked\<rparr>)"
| goroutine: "op_status s = OpRunning \<Longrightarrow> i < length (background s) \<Longrightarrow>
    background s ! i = (batch, b) \<Longrightarrow> batch_step V (length batch) b b' \<Longrightarrow>
    op_step growcap V L oper s None
      (s\<lparr>background := (background s)[i := (batch, b')],
         op_status := (if verdict b' = Crashed then OpPanicked else OpRunning)\<rparr>)"

inductive_cases op_stepE: "op_step growcap V L oper s e s'"

text \<open>The runs of \<open>Start\<close>, with the events they handled.\<close>

inductive op_run ::
  "(nat \<Rightarrow> nat) \<Rightarrow> ('p, 'w, 'k) verifiers \<Rightarrow> ('h, 's) bls_lib \<Rightarrow> ('h, 'c) operator \<Rightarrow> 'h sdk \<Rightarrow>
   'h op_event list \<Rightarrow> ('h, 's) operator_run \<Rightarrow> bool"
  for growcap V L oper S where
  started: "op_run growcap V L oper S [] (operator_start S oper)"
| event: "op_run growcap V L oper S es s \<Longrightarrow> op_step growcap V L oper s (Some e) s' \<Longrightarrow>
    op_run growcap V L oper S (es @ [e]) s'"
| quiet: "op_run growcap V L oper S es s \<Longrightarrow> op_step growcap V L oper s None s' \<Longrightarrow>
    op_run growcap V L oper S es s'"

subsection \<open>What every run keeps\<close>

text \<open>The batches the operator got for its events.\<close>

definition fetched ::
  "(nat \<Rightarrow> nat) \<Rightarrow> ('h, 'c) operator \<Rightarrow> 'h op_event list \<Rightarrow> bytes32 \<Rightarrow> VerificationData list \<Rightarrow> bool" where
  "fetched growcap oper es root batch \<longleftrightarrow>
     (\<exists>http pointer. NewBatchEvent http root pointer \<in> set es \<and>
        operator_getBatch growcap oper http pointer = Inr batch)"

text \<open>A subscription that failed, at the start or later.\<close>

definition subscription_failed :: "('h, 'c) operator \<Rightarrow> 'h sdk \<Rightarrow> 'h op_event list \<Rightarrow> bool" where
  "subscription_failed oper S es \<longleftrightarrow>
     AvsSubscriber_SubscribeToNewTasks S (op_avsSubscriber oper) = None
     \<or> (\<exists>err S'. SubscriptionError err S' \<in> set es \<and>
          AvsSubscriber_SubscribeToNewTasks S' (op_avsSubscriber oper) = None)"

definition crash_fetched ::
  "(nat \<Rightarrow> nat) \<Rightarrow> ('p, 'w, 'k) verifiers \<Rightarrow> ('h, 'c) operator \<Rightarrow> 'h op_event list \<Rightarrow> bool" where
  "crash_fetched growcap V oper es \<longleftrightarrow>
     (\<exists>root batch d. fetched growcap oper es root batch \<and> d \<in> set batch \<and> \<not> is_ret (verify V d))"

definition op_inv ::
  "(nat \<Rightarrow> nat) \<Rightarrow> ('p, 'w, 'k) verifiers \<Rightarrow> ('h, 's) bls_lib \<Rightarrow> ('h, 'c) operator \<Rightarrow> 'h sdk \<Rightarrow>
   'h op_event list \<Rightarrow> ('h, 's) operator_run \<Rightarrow> bool" where
  "op_inv growcap V L oper S es s \<longleftrightarrow>
     (\<forall>r \<in> set (dispatched s). \<exists>root batch. fetched growcap oper es root batch
        \<and> (\<forall>d\<in>set batch. verify V d = Ret True) \<and> r = signed_response L oper root)
     \<and> (\<forall>batch b. (batch, b) \<in> set (background s) \<longrightarrow>
          batch_inv V batch b \<and> (\<exists>root. fetched growcap oper es root batch))
     \<and> (op_sub s = None \<longrightarrow> subscription_failed oper S es)
     \<and> (op_status s = OpPanicked \<longrightarrow> subscription_failed oper S es \<or> crash_fetched growcap V oper es)"

lemma fetched_mono: "fetched growcap oper es root batch \<Longrightarrow> fetched growcap oper (es @ es') root batch"
  by (auto simp: fetched_def)

lemma fetched_last:
  "operator_getBatch growcap oper http pointer = Inr batch \<Longrightarrow>
   fetched growcap oper (es @ [NewBatchEvent http root pointer]) root batch"
  by (auto simp: fetched_def)

lemma failed_mono: "subscription_failed oper S es \<Longrightarrow> subscription_failed oper S (es @ es')"
  by (auto simp: subscription_failed_def)

lemma crash_mono: "crash_fetched growcap V oper es \<Longrightarrow> crash_fetched growcap V oper (es @ es')"
  unfolding crash_fetched_def using fetched_mono by blast

lemma op_inv_mono: "op_inv growcap V L oper S es s \<Longrightarrow> op_inv growcap V L oper S (es @ es') s"
  by (auto simp: op_inv_def intro!: fetched_mono failed_mono crash_mono; meson fetched_mono)

lemma op_inv_start: "op_inv growcap V L oper S [] (operator_start S oper)"
  by (simp add: op_inv_def operator_start_def subscription_failed_def)

lemma op_inv_event:
  assumes inv: "op_inv growcap V L oper S es s" and step: "op_step growcap V L oper s (Some e) s'"
  shows "op_inv growcap V L oper S (es @ [e]) s'"
  using step
proof cases
  case (metrics_failed sub err)
  then show ?thesis using op_inv_mono [OF inv, of "[e]"] by (simp add: op_inv_def)
next
  case (resubscribe sub err S')
  then show ?thesis using op_inv_mono [OF inv, of "[e]"]
    by (auto simp: op_inv_def subscription_failed_def)
next
  case (fetch_failed sub http pointer err root)
  then show ?thesis using op_inv_mono [OF inv, of "[e]"] by simp
next
  case (batch_refused sub http pointer batch b err root)
  then have "fetched growcap oper (es @ [e]) root batch" "batch_inv V batch b"
    using fetched_last batch_reaches_inv by auto
  then show ?thesis using op_inv_mono [OF inv, of "[e]"] batch_refused by (auto simp: op_inv_def)
next
  case (batch_signed sub http pointer batch b root)
  then have f: "fetched growcap oper (es @ [e]) root batch" and b: "batch_inv V batch b"
    using fetched_last batch_reaches_inv by auto
  have "\<forall>d\<in>set batch. verify V d = Ret True" using batch_inv_accept [OF b] batch_signed by blast
  then show ?thesis using op_inv_mono [OF inv, of "[e]"] batch_signed f b by (auto simp: op_inv_def)
next
  case (batch_crashed sub http pointer batch b root)
  then have f: "fetched growcap oper (es @ [e]) root batch" and b: "batch_inv V batch b"
    using fetched_last batch_reaches_inv by auto
  then have "crash_fetched growcap V oper (es @ [e])"
    using batch_inv_crash [OF b] batch_crashed by (auto simp: crash_fetched_def)
  then show ?thesis using op_inv_mono [OF inv, of "[e]"] batch_crashed by (auto simp: op_inv_def)
qed

lemma op_inv_quiet:
  assumes inv: "op_inv growcap V L oper S es s" and step: "op_step growcap V L oper s None s'"
  shows "op_inv growcap V L oper S es s'"
  using step
proof cases
  case nil_subscription
  then show ?thesis using inv by (simp add: op_inv_def)
next
  case (goroutine i batch b b')
  have mem: "(batch, b) \<in> set (background s)" using goroutine nth_mem by metis
  then have "batch_inv V batch b" and f: "\<exists>root. fetched growcap oper es root batch"
    using inv by (auto simp: op_inv_def)
  then have b': "batch_inv V batch b'" using goroutine batch_inv_step by blast
  have "verdict b' = Crashed \<Longrightarrow> crash_fetched growcap V oper es"
    using batch_inv_crash [OF b'] f by (auto simp: crash_fetched_def)
  moreover have "batch_inv V c d \<and> (\<exists>root. fetched growcap oper es root c)"
    if "(c, d) \<in> set ((background s)[i := (batch, b')])" for c d
    using set_update_subset_insert [THEN subsetD, OF that] inv b' f by (auto simp: op_inv_def)
  ultimately show ?thesis using inv goroutine by (auto simp: op_inv_def)
qed

lemma op_run_inv: "op_run growcap V L oper S es s \<Longrightarrow> op_inv growcap V L oper S es s"
  by (induction rule: op_run.induct) (auto intro: op_inv_start op_inv_event op_inv_quiet)

subsection \<open>An example of a run\<close>

text \<open>The verdict on a gnark proof depends on the bytes only, so it survives the batch's file.\<close>

lemma same_gnark_verdict:
  "same_entry e e' \<Longrightarrow> vd_ProvingSystemId e = Groth16Bn254 \<Longrightarrow> verify V e' = verify V e"
  by (simp add: verify_def same_entry_def ps_defs Let_def)

text \<open>A server that does not declare the length of its one file.\<close>

definition file_server :: "bytes \<Rightarrow> http_server" where
  "file_server body =
     (let resp = \<lparr>StatusCode = 200, Status = ''200 OK'', ContentLength = -1, Body = Inr body\<rparr>
      in \<lparr>http_Head = \<lambda>u. Inr (resp\<lparr>Body := Inr []\<rparr>), http_Get = \<lambda>u. Inr resp\<rparr>)"

lemma fetch_file:
  "0 \<le> MaxBatchSize (op_Section (op_Config oper)) \<Longrightarrow>
   operator_getBatch growcap oper (file_server body) pointer = Unmarshal_batch growcap body"
  by (cases "Unmarshal_batch growcap body")
    (simp_all add: operator_getBatch_def getBatchFromS3_def file_server_def StatusOK_def)

lemma example_op_step:
  assumes sub: "AvsSubscriber_SubscribeToNewTasks S (op_avsSubscriber oper) = Some x"
    and max: "0 \<le> MaxBatchSize (op_Section (op_Config oper))"
  shows "\<exists>s body. op_step growcap example_verifiers L oper (operator_start S oper)
      (Some (NewBatchEvent (file_server body) [9] ''u'')) s
    \<and> dispatched s = [signed_response L oper [9]]"
proof -
  obtain body where "Marshal_batch [gnark_entry [7] [7]] = Inr body"
    by (auto simp: Marshal_batch_def gnark_entry_def Marshal_entry_def ProvingSystemId_MarshalJSON_def
        ProvingSystemIdToString_def ps_defs)
  then obtain e where e: "Unmarshal_batch growcap body = Inr [e]" "same_entry (gnark_entry [7] [7]) e"
    using Unmarshal_Marshal by (fastforce simp: list_all2_Cons1)
  have "vd_ProvingSystemId (gnark_entry [7] [7]) = Groth16Bn254" by (simp add: gnark_entry_def)
  then have v: "verify example_verifiers e = Ret True"
    using same_gnark_verdict [OF e(2), of example_verifiers] by simp
  have got: "operator_getBatch growcap oper (file_server body) ''u'' = Inr [e]"
    using e max by (simp add: fetch_file)
  have start: "op_status (operator_start S oper) = OpRunning" "op_sub (operator_start S oper) = Some x"
    using sub by (simp_all add: operator_start_def)
  from batch_signed [OF start got one_entry_run [OF v]]
  show ?thesis by (force simp: operator_start_def)
qed

lemma example_run:
  assumes "AvsSubscriber_SubscribeToNewTasks S (op_avsSubscriber oper) = Some x"
    and "0 \<le> MaxBatchSize (op_Section (op_Config oper))"
  shows "\<exists>s body. op_run growcap example_verifiers L oper S [NewBatchEvent (file_server body) [9] ''u''] s
    \<and> dispatched s = [signed_response L oper [9]]"
proof -
  obtain s body where "op_step growcap example_verifiers L oper (operator_start S oper)
      (Some (NewBatchEvent (file_server body) [9] ''u'')) s" and
    s: "dispatched s = [signed_response L oper [9]]"
    using example_op_step [OF assms, of growcap L] by blast
  from op_run.event [OF op_run.started this(1)] s show ?thesis by auto
qed

definition example_bls :: "(nat, bytes32) bls_lib" where
  "example_bls = \<lparr>Keccak256 = \<lambda>b. b, PrivKey_String = show_nat, OperatorIdFromKeyPair = \<lambda>k. [1],
     SignMessage = \<lambda>k r. r\<rparr>"

definition example_base :: "nat BaseConfig" where
  "example_base = \<lparr>Base_AlignedLayerDeploymentConfig = \<lparr>AlignedLayerServiceManagerAddr = [1],
       AlignedLayerRegistryCoordinatorAddr = [2], AlignedLayerOperatorStateRetrieverAddr = [3]\<rparr>,
     Base_EigenLayerDeploymentConfig = \<lparr>DelegationManagerAddr = [4], AVSDirectoryAddr = [5],
       SlasherAddr = [6]\<rparr>,
     Logger = 0, EthRpcUrl = ''h'', EthWsUrl = ''w'', EthRpcClient = 1, EthWsClient = 2,
     EigenMetricsIpPortAddress = ''m'', ChainId = 1\<rparr>"

definition example_operator :: "(nat, nat) operator" where
  "example_operator = \<lparr>op_Config = \<lparr>op_BaseConfig = example_base,
       op_EcdsaConfig = \<lparr>PrivateKey = 7, Signer = 8\<rparr>, op_BlsConfig = \<lparr>KeyPair = 9\<rparr>,
       op_AlignedLayerDeploymentConfig = Base_AlignedLayerDeploymentConfig example_base,
       op_Section = \<lparr>AggregatorServerIpPortAddress = ''a'', Address = [7], EarningsReceiverAddress = [7],
         DelegationApproverAddress = [7], StakerOptOutWindowBlocks = 0, MetadataUrl = [],
         RegisterOperatorOnStartup = True, EnableMetrics = False, MetricsIpPortAddress = ''m'',
         MaxBatchSize = 1000\<rparr>\<rparr>,
     op_Address = [7],
     op_avsSubscriber = \<lparr>subscriber_AvsContractBindings =
       \<lparr>ServiceManager = 5, ethClient = 2, bindings_logger = 0\<rparr>, subscriber_logger = 0\<rparr>,
     op_aggRpcClient = \<lparr>rpcClient = 0, aggregatorIpPortAddr = ''a''\<rparr>, op_OperatorId = [1],
     op_metrics = NewMetrics ''m''\<rparr>"

lemma example_subscribes:
  "AvsSubscriber_SubscribeToNewTasks example_sdk (op_avsSubscriber example_operator) = Some 5"
  by (simp add: AvsSubscriber_SubscribeToNewTasks_def example_sdk_def example_operator_def)

lemmas example_operator_run =
  example_run [where S = example_sdk and oper = example_operator and L = example_bls
    and growcap = Suc, OF example_subscribes]

text \<open>A batch that verifies in full ends with the answer that lets the operator sign.\<close>

lemma verified_accepts:
  assumes "batch_reaches V batch b" "verdict b \<noteq> Running"
    and "\<And>d. d \<in> set batch \<Longrightarrow> verify V d = Ret True"
  shows "verdict b = Returned None"
proof (cases "verdict b")
  case Crashed
  from batch_inv_crash [OF batch_reaches_inv [OF assms(1)] this] assms(3) show ?thesis by auto
next
  case (Returned e)
  show ?thesis
  proof (cases e)
    case (Some err)
    with Returned have "verdict b = Returned (Some err)" by simp
    from batch_inv_reject [OF batch_reaches_inv [OF assms(1)] this] assms(3) show ?thesis by auto
  qed (simp add: Returned)
qed (simp add: assms(2))

subsection \<open>Properties\<close>

text \<open>C3: An operator vouches only for batches it verified: every response it ever hands to its
  RPC client, in any run and under any schedule of its goroutines, is the signature with its own
  key of the root of a batch that was announced to it, that it fetched, and in which every entry
  verified.\<close>

theorem operator_signs_only_verified_batches:
  assumes "op_run growcap V L oper S es s" and "r \<in> set (dispatched s)"
  shows "\<exists>http root pointer batch. NewBatchEvent http root pointer \<in> set es
    \<and> operator_getBatch growcap oper http pointer = Inr batch
    \<and> (\<forall>d\<in>set batch. verify V d = Ret True)
    \<and> r = \<lparr>BatchMerkleRoot = root,
           BlsSignature = SignMessage L (KeyPair (op_BlsConfig (op_Config oper))) root,
           OperatorId = op_OperatorId oper\<rparr>"
  using op_run_inv [OF assms(1)] assms(2)
  by (fastforce simp: op_inv_def fetched_def signed_response_def SignTaskResponse_def)

theorem operator_signs_only_verified_batches_witness:
  "\<exists>s http batch. op_run Suc example_verifiers example_bls example_operator example_sdk
       [NewBatchEvent http [9] ''u''] s
     \<and> signed_response example_bls example_operator [9] \<in> set (dispatched s)
     \<and> operator_getBatch Suc example_operator http ''u'' = Inr batch
     \<and> (\<forall>d\<in>set batch. verify example_verifiers d = Ret True)"
proof -
  obtain s body where s: "op_run Suc example_verifiers example_bls example_operator example_sdk
      [NewBatchEvent (file_server body) [9] ''u''] s"
    "dispatched s = [signed_response example_bls example_operator [9]]"
    using example_operator_run by (auto simp: example_operator_def)
  have r: "signed_response example_bls example_operator [9] \<in> set (dispatched s)" using s(2) by simp
  from operator_signs_only_verified_batches [OF s(1) r]
  have "\<exists>batch. operator_getBatch Suc example_operator (file_server body) ''u'' = Inr batch
      \<and> (\<forall>d\<in>set batch. verify example_verifiers d = Ret True)" by (simp, elim exE conjE, intro exI conjI)
  with s(1) r show ?thesis by blast
qed

text \<open>C16: The operator does sign what it verifies: when the loop is running and subscribed and
  the announced batch is fetched and every entry of it verifies, the step for that announcement
  is possible, and any such step ends running with exactly one more response dispatched, the one
  for the announced root.\<close>

theorem verified_batch_is_signed:
  assumes "op_status s = OpRunning" "op_sub s = Some sub"
    and "operator_getBatch growcap oper http pointer = Inr batch"
    and "\<And>d. d \<in> set batch \<Longrightarrow> verify V d = Ret True"
  shows "(\<exists>s'. op_step growcap V L oper s (Some (NewBatchEvent http root pointer)) s')
    \<and> (\<forall>s'. op_step growcap V L oper s (Some (NewBatchEvent http root pointer)) s' \<longrightarrow>
         op_status s' = OpRunning \<and> dispatched s' = dispatched s @ [signed_response L oper root])"
proof (intro conjI allI impI)
  obtain b where b: "batch_reaches V batch b" "verdict b \<noteq> Running"
    using batch_can_finish [OF batch_inv_start] by blast
  have "verdict b = Returned None" by (rule verified_accepts [OF b assms(4)])
  then show "\<exists>s'. op_step growcap V L oper s (Some (NewBatchEvent http root pointer)) s'"
    using batch_signed [OF assms(1-3) b(1)] by blast
next
  fix s' assume "op_step growcap V L oper s (Some (NewBatchEvent http root pointer)) s'"
  then have "op_status s' = OpRunning \<and> dispatched s' = dispatched s @ [signed_response L oper root]"
  proof cases
    case (batch_refused sub batch' b err)
    from batch_refused(4) assms(3) have "batch' = batch" by simp
    with verified_accepts [of V batch b] batch_refused assms(4) show ?thesis by simp
  next
    case (batch_crashed sub batch' b)
    from batch_crashed(4) assms(3) have "batch' = batch" by simp
    with verified_accepts [of V batch b] batch_crashed assms(4) show ?thesis by simp
  next
    case (batch_signed sub batch' b)
    then show ?thesis by simp
  qed (use assms(1,3) in auto)
  then show "op_status s' = OpRunning" "dispatched s' = dispatched s @ [signed_response L oper root]"
    by simp_all
qed

theorem verified_batch_is_signed_witness:
  "\<exists>s'. op_step Suc example_verifiers example_bls example_operator
     (operator_start example_sdk example_operator)
     (Some (NewBatchEvent (file_server [91, 93]) [9] ''u'')) s'"
proof -
  have parse: "Unmarshal_batch Suc (json_print (JArr [])) = Inr []"
    by (subst Unmarshal_printed) (simp_all add: maxNestingDepth_def)
  have "operator_getBatch Suc example_operator (file_server [91, 93]) ''u'' = Inr []"
    using parse by (subst fetch_file) (simp_all add: example_operator_def)
  from verified_batch_is_signed [OF _ _ this, of "operator_start example_sdk example_operator" 5
      example_verifiers example_bls "[9]"]
  show ?thesis using example_subscribes by (simp add: operator_start_def)
qed

text \<open>C33: The operator never looks at the Merkle root it signs: a step that signs the root of an
  announcement is a step for any other root announced with the same data, and signs that root
  then. The documentation says that operators check the root of the batch they download.\<close>

theorem merkle_root_is_not_checked:
  assumes "op_step growcap V L oper s (Some (NewBatchEvent http root pointer)) s'"
    and "dispatched s' = dispatched s @ [signed_response L oper root]"
  shows "op_step growcap V L oper s (Some (NewBatchEvent http root' pointer))
    (s'\<lparr>dispatched := dispatched s @ [signed_response L oper root']\<rparr>)"
  using assms(1)
proof cases
  case (batch_signed sub batch b)
  have "s'\<lparr>dispatched := dispatched s @ [signed_response L oper root']\<rparr>
      = s\<lparr>dispatched := dispatched s @ [signed_response L oper root'],
          background := (batch, b) # background s\<rparr>"
    using batch_signed(1) by (cases s) simp
  then show ?thesis
    using op_step.batch_signed [OF batch_signed(2-6), where root = root' and L = L] by simp
qed (use assms(2) in auto)

theorem merkle_root_is_not_checked_witness:
  "\<exists>s' s''. op_step Suc example_verifiers example_bls example_operator
       (operator_start example_sdk example_operator)
       (Some (NewBatchEvent (file_server [91, 93]) [8] ''u'')) s''
     \<and> dispatched s'' = [signed_response example_bls example_operator [8]]"
proof -
  have parse: "Unmarshal_batch Suc (json_print (JArr [])) = Inr []"
    by (subst Unmarshal_printed) (simp_all add: maxNestingDepth_def)
  have got: "operator_getBatch Suc example_operator (file_server [91, 93]) ''u'' = Inr []"
    using parse by (subst fetch_file) (simp_all add: example_operator_def)
  obtain b where b: "batch_reaches example_verifiers [] b" "verdict b \<noteq> Running"
    using batch_can_finish [OF batch_inv_start] by blast
  have "verdict b = Returned None" by (rule verified_accepts [OF b]) simp
  from batch_signed [OF _ _ got b(1) this, of "operator_start example_sdk example_operator" 5
      example_bls "[9]"]
  have "op_step Suc example_verifiers example_bls example_operator
      (operator_start example_sdk example_operator)
      (Some (NewBatchEvent (file_server [91, 93]) [9] ''u''))
      ((operator_start example_sdk example_operator)\<lparr>
        dispatched := dispatched (operator_start example_sdk example_operator)
          @ [signed_response example_bls example_operator [9]],
        background := ([], b) # background (operator_start example_sdk example_operator)\<rparr>)"
    using example_subscribes by (simp add: operator_start_def)
  from merkle_root_is_not_checked [OF this, of "[8]"] show ?thesis
    by (auto simp: operator_start_def intro!: exI)
qed

text \<open>C29: An operator panics for two reasons only: a subscription that failed (at the start or
  when the loop subscribed again; the nil subscription is then asked for its error channel), or
  an entry of a batch it fetched whose verification panics.\<close>

theorem operator_panic_causes:
  assumes "op_run growcap V L oper S es s" and "op_status s = OpPanicked"
  shows "AvsSubscriber_SubscribeToNewTasks S (op_avsSubscriber oper) = None
    \<or> (\<exists>err S'. SubscriptionError err S' \<in> set es
         \<and> AvsSubscriber_SubscribeToNewTasks S' (op_avsSubscriber oper) = None)
    \<or> (\<exists>http root pointer batch d. NewBatchEvent http root pointer \<in> set es
         \<and> operator_getBatch growcap oper http pointer = Inr batch
         \<and> d \<in> set batch \<and> \<not> is_ret (verify V d))"
  using op_run_inv [OF assms(1)] assms(2)
  unfolding op_inv_def subscription_failed_def crash_fetched_def fetched_def by blast

theorem operator_panic_causes_witness:
  "\<exists>s. op_run Suc example_verifiers example_bls example_operator
       (example_sdk\<lparr>WatchNewBatch := \<lambda>m. Inl ''down''\<rparr>) [] s
     \<and> op_status s = OpPanicked
     \<and> AvsSubscriber_SubscribeToNewTasks (example_sdk\<lparr>WatchNewBatch := \<lambda>m. Inl ''down''\<rparr>)
         (op_avsSubscriber example_operator) = None"
proof -
  let ?S = "example_sdk\<lparr>WatchNewBatch := \<lambda>m. Inl ''down''\<rparr>"
  let ?s = "operator_start ?S example_operator"
  have "op_sub ?s = None" by (simp add: operator_start_def AvsSubscriber_SubscribeToNewTasks_def)
  then have "op_step Suc example_verifiers example_bls example_operator ?s None
      (?s\<lparr>op_status := OpPanicked\<rparr>)"
    by (intro nil_subscription) (simp_all add: operator_start_def)
  from op_run.quiet [OF op_run.started this]
  have r: "op_run Suc example_verifiers example_bls example_operator ?S [] (?s\<lparr>op_status := OpPanicked\<rparr>)" .
  from operator_panic_causes [OF r] r show ?thesis by auto
qed

end
