(* ===== verification/Go_Script.thy ===== *)
theory Go_Script
  imports Go_Base
begin

text \<open>
  Programs that change the world step by step: a script takes the state of the world and
  returns the new state with what the code did (a value, a panic, or the end of the process).
  A script that returns a Go pair \<open>(T, error)\<close> has values of type \<open>'a result\<close>. The loops of
  the command-line programs, which go on until a round fails, are here too.
\<close>

type_synonym ('w, 'a) script = "'w \<Rightarrow> 'w \<times> 'a go"

definition sbind :: "('w, 'a) script \<Rightarrow> ('a \<Rightarrow> ('w, 'b) script) \<Rightarrow> ('w, 'b) script" where
  "sbind m f w =
     (case m w of
        (w, Ret x) \<Rightarrow> f x w
      | (w, Panic) \<Rightarrow> (w, Panic)
      | (w, Fatal e) \<Rightarrow> (w, Fatal e))"

definition sret :: "'a \<Rightarrow> ('w, 'a) script" where
  "sret x w = (w, Ret x)"

text \<open>A computation that does not touch the world.\<close>

definition pure_go :: "'a go \<Rightarrow> ('w, 'a) script" where
  "pure_go x w = (w, x)"

text \<open>\<open>x, err := m; if err != nil { return ..., err }; k\<close>\<close>

definition or_return ::
  "('w, 'a result) script \<Rightarrow> ('a \<Rightarrow> ('w, 'b result) script) \<Rightarrow> ('w, 'b result) script" where
  "or_return m k = sbind m (\<lambda>r. case r of Inl err \<Rightarrow> sret (Inl err) | Inr x \<Rightarrow> k x)"

text \<open>\<open>if err := m; err != nil { panic(...) }\<close>\<close>

definition or_panic :: "('w \<Rightarrow> 'w \<times> string option) \<Rightarrow> ('w, unit) script" where
  "or_panic m w = (case m w of (w, None) \<Rightarrow> (w, Ret ()) | (w, Some err) \<Rightarrow> (w, Panic))"

lemma sbind_Ret_iff [go_simps]:
  "sbind m f w = (w', Ret y) \<longleftrightarrow> (\<exists>w1 x. m w = (w1, Ret x) \<and> f x w1 = (w', Ret y))"
  by (auto simp: sbind_def split: prod.splits go.splits)

lemma sret_iff [go_simps]: "sret x w = (w', r) \<longleftrightarrow> w = w' \<and> Ret x = r"
  by (auto simp: sret_def)

lemma pure_go_iff [go_simps]: "pure_go x w = (w', r) \<longleftrightarrow> w = w' \<and> x = r"
  by (auto simp: pure_go_def)

lemma or_return_Inr_iff [go_simps]:
  "or_return m k w = (w', Ret (Inr y)) \<longleftrightarrow>
     (\<exists>w1 x. m w = (w1, Ret (Inr x)) \<and> k x w1 = (w', Ret (Inr y)))"
proof
  assume "or_return m k w = (w', Ret (Inr y))"
  then obtain w1 r where m: "m w = (w1, Ret r)"
    and k: "(case r of Inl err \<Rightarrow> sret (Inl err) | Inr x \<Rightarrow> k x) w1 = (w', Ret (Inr y))"
    by (auto simp: or_return_def go_simps)
  from m k show "\<exists>w1 x. m w = (w1, Ret (Inr x)) \<and> k x w1 = (w', Ret (Inr y))"
    by (cases r) (auto simp: go_simps)
qed (auto simp: or_return_def sbind_def)

lemma or_panic_Ret_iff [go_simps]:
  "or_panic m w = (w', Ret u) \<longleftrightarrow> m w = (w', None)"
  by (auto simp: or_panic_def split: prod.splits option.splits)

subsection \<open>Loops that end with the first failing round\<close>

text \<open>
  The first argument bounds how many rounds are looked at; \<open>Looping\<close> is a loop that has not
  ended within them. A round that returns nil is followed by a pause.
\<close>

datatype loop_end = Looping | Ended "string option go"

fun round_loop ::
  "nat \<Rightarrow> (nat \<Rightarrow> ('w, string option) script) \<Rightarrow> ('w \<Rightarrow> 'w) \<Rightarrow> nat \<Rightarrow> 'w \<Rightarrow> 'w \<times> loop_end" where
  "round_loop 0 body pause x w = (w, Looping)"
| "round_loop (Suc n) body pause x w =
     (case body x w of
        (w, Ret None) \<Rightarrow> round_loop n body pause (Suc x) (pause w)
      | (w, r) \<Rightarrow> (w, Ended r))"

text \<open>The world before round \<open>x + k\<close>, when the earlier rounds returned nil.\<close>

fun before_round ::
  "(nat \<Rightarrow> ('w, string option) script) \<Rightarrow> ('w \<Rightarrow> 'w) \<Rightarrow> nat \<Rightarrow> nat \<Rightarrow> 'w \<Rightarrow> 'w" where
  "before_round body pause x 0 w = w"
| "before_round body pause x (Suc k) w =
     before_round body pause (Suc x) k (pause (fst (body x w)))"

lemma round_loop_Looping:
  "snd (round_loop n body pause x w) = Looping \<longleftrightarrow>
     (\<forall>k<n. snd (body (x + k) (before_round body pause x k w)) = Ret None)"
proof (induction n arbitrary: x w)
  case (Suc n)
  obtain w1 r where b: "body x w = (w1, r)" by fastforce
  show ?case
  proof (cases "r = Ret None")
    case True
    then show ?thesis using b Suc.IH [of "Suc x" "pause w1"] by (auto simp: All_less_Suc2)
  next
    case False
    then have "snd (round_loop (Suc n) body pause x w) \<noteq> Looping"
      using b by (auto split: go.splits option.splits)
    then show ?thesis using b False by (auto simp: All_less_Suc2)
  qed
qed simp

lemma round_loop_Ended:
  "round_loop n body pause x w = (w', Ended r) \<longleftrightarrow>
     (\<exists>k<n. body (x + k) (before_round body pause x k w) = (w', r) \<and> r \<noteq> Ret None
        \<and> (\<forall>j<k. snd (body (x + j) (before_round body pause x j w)) = Ret None))"
proof (induction n arbitrary: x w)
  case (Suc n)
  obtain w1 q where b: "body x w = (w1, q)" by fastforce
  show ?case
  proof (cases "q = Ret None")
    case True
    then show ?thesis
      using b Suc.IH [of "Suc x" "pause w1"] by (auto simp: Ex_less_Suc2 All_less_Suc2)
  next
    case False
    then have "round_loop (Suc n) body pause x w = (w1, Ended q)"
      using b by (auto split: go.splits option.splits)
    then show ?thesis using b False by (auto simp: Ex_less_Suc2 All_less_Suc2)
  qed
qed simp

end
