(* ===== verification/Proof_Scripts.thy ===== *)
theory Proof_Scripts
  imports Go_Script Gnark
begin

text \<open>
  The programs that make sample proofs with gnark (\<open>task_sender/test_examples\<close>): the generator
  of inequality proofs that the task sender calls in its endless loop, and the three scripts for
  the circuit \<open>x**3 + x + 5 == y\<close>. Each compiles a circuit, proves one assignment, verifies
  the proof, and writes the proof, the key and the public input into three files.

  A circuit is the list of assertions its \<open>Define\<close> makes; \<open>satisfies\<close> is what gnark documents
  them to mean in the scalar field. The rest of gnark, and the files, are an argument.
\<close>

subsection \<open>Circuits\<close>

datatype wire = Input string | Constant int | Mul "wire list" | Add "wire list"

datatype assertion = AssertIsEqual wire wire | AssertIsDifferent wire wire

text \<open>The fields of a circuit struct, which its tags make secret or public, and \<open>Define\<close>.\<close>

record circuit =
  secret_inputs :: "string list"
  public_inputs :: "string list"
  Define :: "assertion list"

definition InequalityCircuit :: circuit where
  "InequalityCircuit = \<lparr>secret_inputs = [''X''], public_inputs = [],
     Define = [AssertIsDifferent (Input ''X'') (Constant 0)]\<rparr>"

definition CubicCircuit :: circuit where
  "CubicCircuit = \<lparr>secret_inputs = [''X''], public_inputs = [''Y''],
     Define = (let x3 = Mul [Input ''X'', Input ''X'', Input ''X''] in
       [AssertIsEqual (Input ''Y'') (Add [x3, Input ''X'', Constant 5])])\<rparr>"

type_synonym assignment = "(string \<times> int) list"

fun value_of :: "assignment \<Rightarrow> wire \<Rightarrow> int" where
  "value_of a (Input x) = (case map_of a x of Some v \<Rightarrow> v | None \<Rightarrow> 0)"
| "value_of a (Constant c) = c"
| "value_of a (Mul ws) = prod_list (map (value_of a) ws)"
| "value_of a (Add ws) = sum_list (map (value_of a) ws)"

fun asserted :: "int \<Rightarrow> assignment \<Rightarrow> assertion \<Rightarrow> bool" where
  "asserted p a (AssertIsEqual v w) = (value_of a v mod p = value_of a w mod p)"
| "asserted p a (AssertIsDifferent v w) = (value_of a v mod p \<noteq> value_of a w mod p)"

definition satisfies :: "int \<Rightarrow> assignment \<Rightarrow> circuit \<Rightarrow> bool" where
  "satisfies p a c = list_all (asserted p a) (Define c)"

text \<open>The assignment of the scripts solves the circuit in every field, and an inequality is
  provable of every number that is not a multiple of the field's order.\<close>

definition cubic_assignment :: assignment where
  "cubic_assignment = [(''X'', 3), (''Y'', 35)]"

lemma cubic_solution [simp]: "satisfies p cubic_assignment CubicCircuit"
  by (simp add: satisfies_def CubicCircuit_def cubic_assignment_def Let_def)

lemma ineq_solution: "satisfies p [(''X'', x)] InequalityCircuit \<longleftrightarrow> \<not> p dvd x"
  by (simp add: satisfies_def InequalityCircuit_def dvd_eq_mod_eq_0)

lemma script_inputs:
  "map fst [(''X'', x)] = secret_inputs InequalityCircuit @ public_inputs InequalityCircuit"
  "map fst cubic_assignment = secret_inputs CubicCircuit @ public_inputs CubicCircuit"
  by (simp_all add: InequalityCircuit_def CubicCircuit_def cubic_assignment_def)

subsection \<open>The library\<close>

datatype builder = r1cs_NewBuilder | scs_NewBuilder

text \<open>
  What the scripts call of gnark and of the file system. \<open>Setup\<close> and \<open>Prove\<close> read the world's
  randomness. An opened file is named by its path.
\<close>

record ('w, 'ccs, 'pk, 'vk, 'wit, 'proof) gnark_prover =
  Compile :: "ecc_ID \<Rightarrow> builder \<Rightarrow> circuit \<Rightarrow> 'ccs result go"
  NewWitness :: "ecc_ID \<Rightarrow> assignment \<Rightarrow> 'wit result go"
  NewPublicWitness :: "ecc_ID \<Rightarrow> assignment \<Rightarrow> 'wit result go"
  Prove :: "'ccs \<Rightarrow> 'pk \<Rightarrow> 'wit \<Rightarrow> 'w \<Rightarrow> 'proof result go"
  prover_Verify :: "'proof \<Rightarrow> 'vk \<Rightarrow> 'wit \<Rightarrow> string option go"
  os_Create :: "string \<Rightarrow> 'w \<Rightarrow> 'w \<times> string option"
  proof_WriteTo :: "'proof \<Rightarrow> string \<Rightarrow> 'w \<Rightarrow> 'w \<times> string option"
  vk_WriteTo :: "'vk \<Rightarrow> string \<Rightarrow> 'w \<Rightarrow> 'w \<times> string option"
  witness_WriteTo :: "'wit \<Rightarrow> string \<Rightarrow> 'w \<Rightarrow> 'w \<times> string option"

record ('w, 'ccs, 'pk, 'vk, 'wit, 'proof) groth16_prover =
  "('w, 'ccs, 'pk, 'vk, 'wit, 'proof) gnark_prover" +
  groth16_Setup :: "'ccs \<Rightarrow> 'w \<Rightarrow> ('pk \<times> 'vk) go"

record ('w, 'ccs, 'pk, 'vk, 'wit, 'proof, 'srs) plonk_prover =
  "('w, 'ccs, 'pk, 'vk, 'wit, 'proof) gnark_prover" +
  is_SparseR1CS :: "ecc_ID \<Rightarrow> 'ccs \<Rightarrow> bool"
  NewSRS :: "'ccs \<Rightarrow> 'w \<Rightarrow> ('srs \<times> 'srs) result go"
  plonk_Setup :: "'ccs \<Rightarrow> 'srs \<Rightarrow> 'srs \<Rightarrow> 'w \<Rightarrow> ('pk \<times> 'vk) go"

text \<open>\<open>if err != nil { panic(m) }\<close> and \<open>if err != nil { log.Fatal(err) }\<close>\<close>

definition else_panic :: "'a result go \<Rightarrow> 'a go" where
  "else_panic r = gbind r (\<lambda>r. case r of Inl err \<Rightarrow> Panic | Inr x \<Rightarrow> Ret x)"

definition else_fatal :: "'a result go \<Rightarrow> 'a go" where
  "else_fatal r = gbind r (\<lambda>r. case r of Inl err \<Rightarrow> Fatal err | Inr x \<Rightarrow> Ret x)"

lemma else_iff [go_simps]:
  "else_panic r = Ret x \<longleftrightarrow> r = Ret (Inr x)" "else_fatal r = Ret x \<longleftrightarrow> r = Ret (Inr x)"
  by (cases r; auto simp: else_panic_def else_fatal_def split: sum.splits)+

subsection \<open>The scripts\<close>

text \<open>The two witnesses, the proof, and its verification before anything is written.\<close>

definition prove_assignment ::
  "('w, 'ccs, 'pk, 'vk, 'wit, 'proof, 'm) gnark_prover_scheme \<Rightarrow> ecc_ID \<Rightarrow> assignment \<Rightarrow> 'ccs \<Rightarrow>
     'pk \<Rightarrow> 'vk \<Rightarrow> 'w \<Rightarrow> ('proof \<times> 'vk \<times> 'wit) go" where
  "prove_assignment P curve assignment ccs pk vk w =
     gbind (else_fatal (NewWitness P curve assignment)) (\<lambda>fullWitness.
     gbind (else_fatal (NewPublicWitness P curve assignment)) (\<lambda>publicWitness.
     gbind (else_panic (Prove P ccs pk fullWitness w)) (\<lambda>proof.
     gbind (prover_Verify P proof vk publicWitness) (\<lambda>err.
     case err of Some e \<Rightarrow> Panic | None \<Rightarrow> Ret (proof, vk, publicWitness)))))"

text \<open>The three files are opened, and then written.\<close>

fun write_files ::
  "('w, 'ccs, 'pk, 'vk, 'wit, 'proof, 'm) gnark_prover_scheme \<Rightarrow> string \<Rightarrow> string \<Rightarrow> string \<Rightarrow>
     'proof \<times> 'vk \<times> 'wit \<Rightarrow> ('w, unit) script" where
  "write_files P proofFile vkFile witnessFile (proof, vk, publicWitness) =
     sbind (or_panic (os_Create P proofFile)) (\<lambda>_.
     sbind (or_panic (os_Create P vkFile)) (\<lambda>_.
     sbind (or_panic (os_Create P witnessFile)) (\<lambda>_.
     sbind (or_panic (proof_WriteTo P proof proofFile)) (\<lambda>_.
     sbind (or_panic (vk_WriteTo P vk vkFile)) (\<lambda>_.
     or_panic (witness_WriteTo P publicWitness witnessFile))))))"

text \<open>Groth16: the error of \<open>Setup\<close> is ignored, here and below.\<close>

definition groth16_proof ::
  "('w, 'ccs, 'pk, 'vk, 'wit, 'proof, 'm) groth16_prover_scheme \<Rightarrow> circuit \<Rightarrow> assignment \<Rightarrow> 'w \<Rightarrow>
     ('proof \<times> 'vk \<times> 'wit) go" where
  "groth16_proof P circuit assignment w =
     gbind (else_panic (Compile P BN254 r1cs_NewBuilder circuit)) (\<lambda>ccs.
     gbind (groth16_Setup P ccs w) (\<lambda>(pk, vk).
     prove_assignment P BN254 assignment ccs pk vk w))"

definition infinite_dir :: string where
  "infinite_dir = ''task_sender/test_examples/gnark_groth16_bn254_infinite_script/infinite_proofs/''"

definition ineq_file :: "int \<Rightarrow> string \<Rightarrow> string" where
  "ineq_file x suffix = infinite_dir @ ''ineq_'' @ show_int x @ ''_groth16.'' @ suffix"

definition GenerateIneqProof ::
  "('w, 'ccs, 'pk, 'vk, 'wit, 'proof, 'm) groth16_prover_scheme \<Rightarrow> int \<Rightarrow> ('w, unit) script" where
  "GenerateIneqProof P x =
     sbind (\<lambda>w. (w, groth16_proof P InequalityCircuit [(''X'', x)] w))
       (write_files P (ineq_file x ''proof'') (ineq_file x ''vk'') (ineq_file x ''pub''))"

text \<open>\<open>strconv.Atoi\<close>: a sign, decimal digits, and 64 bits; \<open>None\<close> is an error.\<close>

definition is_digit :: "char \<Rightarrow> bool" where
  "is_digit c \<longleftrightarrow> 48 \<le> (of_char c :: nat) \<and> (of_char c :: nat) \<le> 57"

definition decimal :: "string \<Rightarrow> nat option" where
  "decimal ds =
     (if ds = [] \<or> \<not> list_all is_digit ds then None
      else Some (foldl (\<lambda>n c. 10 * n + (of_char c - 48)) 0 ds))"

definition Atoi :: "string \<Rightarrow> int option" where
  "Atoi s =
     (let (neg, ds) = (case s of [] \<Rightarrow> (False, []) | c # cs \<Rightarrow>
            if c = CHR ''-'' then (True, cs) else if c = CHR ''+'' then (False, cs) else (False, s)) in
      case decimal ds of
        None \<Rightarrow> None
      | Some n \<Rightarrow>
          if neg then (if n \<le> 2 ^ 63 then Some (- int n) else None)
          else if n < 2 ^ 63 then Some (int n) else None)"

text \<open>The stand-alone generator: \<open>os.Args[1]\<close> panics when there is no argument.\<close>

definition infinite_script_main ::
  "('w, 'ccs, 'pk, 'vk, 'wit, 'proof, 'm) groth16_prover_scheme \<Rightarrow> string list \<Rightarrow> ('w, unit) script" where
  "infinite_script_main P args =
     (if length args \<le> 1 then pure_go Panic
      else case Atoi (args ! 1) of None \<Rightarrow> pure_go Panic | Some x \<Rightarrow> GenerateIneqProof P x)"

definition groth16_bn254_dir :: string where
  "groth16_bn254_dir = ''task_sender/test_examples/gnark_groth16_bn254_script/''"

definition groth16_bn254_main ::
  "('w, 'ccs, 'pk, 'vk, 'wit, 'proof, 'm) groth16_prover_scheme \<Rightarrow> ('w, unit) script" where
  "groth16_bn254_main P =
     (let outputDir = groth16_bn254_dir in
      sbind (\<lambda>w. (w, groth16_proof P CubicCircuit cubic_assignment w))
        (write_files P (outputDir @ ''groth16.proof'') (outputDir @ ''groth16.vk'')
           (outputDir @ ''groth16.pub'')))"

text \<open>PLONK: the compiled circuit must be of the curve's type, and the setup needs an SRS.\<close>

definition plonk_proof ::
  "('w, 'ccs, 'pk, 'vk, 'wit, 'proof, 'srs, 'm) plonk_prover_scheme \<Rightarrow> ecc_ID \<Rightarrow> 'w \<Rightarrow>
     ('proof \<times> 'vk \<times> 'wit) go" where
  "plonk_proof P curve w =
     gbind (else_panic (Compile P curve scs_NewBuilder CubicCircuit)) (\<lambda>ccs.
     if \<not> is_SparseR1CS P curve ccs then Panic else
     gbind (else_panic (NewSRS P ccs w)) (\<lambda>(srs, srsLagrangeInterpolation).
     gbind (plonk_Setup P ccs srs srsLagrangeInterpolation w) (\<lambda>(pk, vk).
     prove_assignment P curve cubic_assignment ccs pk vk w)))"

definition plonk_bls12_381_dir :: string where
  "plonk_bls12_381_dir = ''task_sender/test_examples/gnark_plonk_bls12_381_script/''"

definition plonk_bls12_381_main ::
  "('w, 'ccs, 'pk, 'vk, 'wit, 'proof, 'srs, 'm) plonk_prover_scheme \<Rightarrow> ('w, unit) script" where
  "plonk_bls12_381_main P =
     (let outputDir = plonk_bls12_381_dir in
      sbind (\<lambda>w. (w, plonk_proof P BLS12_381 w))
        (write_files P (outputDir @ ''plonk.proof'') (outputDir @ ''plonk.vk'')
           (outputDir @ ''plonk_pub_input.pub'')))"

definition plonk_bn254_dir :: string where
  "plonk_bn254_dir = ''task_sender/test_examples/gnark_plonk_bn254_script/''"

definition plonk_bn254_main ::
  "('w, 'ccs, 'pk, 'vk, 'wit, 'proof, 'srs, 'm) plonk_prover_scheme \<Rightarrow> ('w, unit) script" where
  "plonk_bn254_main P =
     (let outputDir = plonk_bn254_dir in
      sbind (\<lambda>w. (w, plonk_proof P BN254 w))
        (write_files P (outputDir @ ''plonk.proof'') (outputDir @ ''plonk.vk'')
           (outputDir @ ''plonk_pub_input.pub'')))"

subsection \<open>Numbers in file names\<close>

lemma decimal_snoc:
  assumes "decimal ds = Some n" "is_digit c"
  shows "decimal (ds @ [c]) = Some (10 * n + (of_char c - 48))"
  using assms by (auto simp: decimal_def split: if_splits)

lemma decimal_show_nat: "decimal (show_nat n) = Some n"
proof (induction n rule: show_nat.induct)
  case (1 n)
  have d: "is_digit (char_of (48 + k))" "(of_char (char_of (48 + k) :: char) :: nat) = 48 + k"
    if "k < 10" for k :: nat
    using that by (simp_all add: is_digit_def)
  show ?case
  proof (cases "n < 10")
    case True
    then show ?thesis using d [of n] by (simp add: decimal_def show_nat.simps [of n])
  next
    case False
    then show ?thesis using 1 d [of "n mod 10"] decimal_snoc [of "show_nat (n div 10)" "n div 10"]
      by (simp add: show_nat.simps [of n])
  qed
qed

lemma show_int_head: "0 \<le> i \<Longrightarrow> show_int i = c # cs \<Longrightarrow> is_digit c"
  using decimal_show_nat [of "nat i"] by (auto simp: show_int_def decimal_def split: if_splits)

lemma Atoi_show_int:
  assumes "- (2 ^ 63) \<le> i" "i < 2 ^ 63"
  shows "Atoi (show_int i) = Some i"
proof (cases "i < 0")
  case True
  then show ?thesis
    using assms by (simp add: Atoi_def show_int_def decimal_show_nat nat_le_iff)
next
  case False
  then have d: "decimal (show_int i) = Some (nat i)" by (simp add: show_int_def decimal_show_nat)
  obtain c cs where s: "show_int i = c # cs" using d by (cases "show_int i") (auto simp: decimal_def)
  have "is_digit c" using show_int_head [OF _ s] False by simp
  then have "c \<noteq> CHR ''-''" "c \<noteq> CHR ''+''" by (auto simp: is_digit_def)
  with d s False assms show ?thesis by (simp add: Atoi_def nat_less_iff)
qed

subsection \<open>What the files hold\<close>

text \<open>
  What is assumed of the files, for the names of one script: creating one empties it, writing
  appends to it, and neither touches the others. \<open>rd\<close> reads a file in a state of the world;
  the encoders are the bytes gnark writes.
\<close>

definition creates ::
  "(string \<Rightarrow> 'w \<Rightarrow> bytes result) \<Rightarrow> string set \<Rightarrow> (string \<Rightarrow> 'w \<Rightarrow> 'w \<times> string option) \<Rightarrow> bool" where
  "creates rd names cr \<longleftrightarrow> (\<forall>f\<in>names. \<forall>w w'. cr f w = (w', None) \<longrightarrow>
     rd f w' = Inr [] \<and> (\<forall>g\<in>names - {f}. rd g w' = rd g w))"

definition appends ::
  "(string \<Rightarrow> 'w \<Rightarrow> bytes result) \<Rightarrow> string set \<Rightarrow> (string \<Rightarrow> 'w \<Rightarrow> 'w \<times> string option) \<Rightarrow> bytes \<Rightarrow> bool" where
  "appends rd names wr bs \<longleftrightarrow> (\<forall>f\<in>names. \<forall>w w' c. wr f w = (w', None) \<longrightarrow> rd f w = Inr c \<longrightarrow>
     rd f w' = Inr (c @ bs) \<and> (\<forall>g\<in>names - {f}. rd g w' = rd g w))"

record ('vk, 'wit, 'proof) encoders =
  enc_proof :: "'proof \<Rightarrow> bytes"
  enc_vk :: "'vk \<Rightarrow> bytes"
  enc_witness :: "'wit \<Rightarrow> bytes"

definition file_store ::
  "(string \<Rightarrow> 'w \<Rightarrow> bytes result) \<Rightarrow> string set \<Rightarrow>
     ('w, 'ccs, 'pk, 'vk, 'wit, 'proof, 'm) gnark_prover_scheme \<Rightarrow> ('vk, 'wit, 'proof) encoders \<Rightarrow> bool" where
  "file_store rd names P enc \<longleftrightarrow> creates rd names (os_Create P)
     \<and> (\<forall>x. appends rd names (proof_WriteTo P x) (enc_proof enc x))
     \<and> (\<forall>x. appends rd names (vk_WriteTo P x) (enc_vk enc x))
     \<and> (\<forall>x. appends rd names (witness_WriteTo P x) (enc_witness enc x))"

lemma created:
  assumes "creates rd names cr" "f \<in> names" "cr f w = (w', None)"
  shows "rd f w' = Inr []" "g \<in> names \<Longrightarrow> g \<noteq> f \<Longrightarrow> rd g w' = rd g w"
  using assms by (auto simp: creates_def)

lemma appended:
  assumes "appends rd names wr bs" "f \<in> names" "wr f w = (w', None)" "rd f w = Inr c"
  shows "rd f w' = Inr (c @ bs)" "g \<in> names \<Longrightarrow> g \<noteq> f \<Longrightarrow> rd g w' = rd g w"
  using assms by (auto simp: appends_def)

lemma written_files:
  assumes run: "write_files P pf kf qf (proof, vk, wit) w = (w', Ret ())"
    and store: "file_store rd {pf, kf, qf} P enc" and names: "distinct [pf, kf, qf]"
  shows "rd pf w' = Inr (enc_proof enc proof) \<and> rd kf w' = Inr (enc_vk enc vk)
    \<and> rd qf w' = Inr (enc_witness enc wit)"
proof -
  obtain w1 w2 w3 w4 w5 where
    c: "os_Create P pf w = (w1, None)" "os_Create P kf w1 = (w2, None)" "os_Create P qf w2 = (w3, None)"
    and a: "proof_WriteTo P proof pf w3 = (w4, None)" "vk_WriteTo P vk kf w4 = (w5, None)"
      "witness_WriteTo P wit qf w5 = (w', None)"
    using run by (auto simp: go_simps)
  have cr: "creates rd {pf, kf, qf} (os_Create P)"
    and wr: "appends rd {pf, kf, qf} (proof_WriteTo P proof) (enc_proof enc proof)"
      "appends rd {pf, kf, qf} (vk_WriteTo P vk) (enc_vk enc vk)"
      "appends rd {pf, kf, qf} (witness_WriteTo P wit) (enc_witness enc wit)"
    using store by (simp_all add: file_store_def)
  have n: "pf \<noteq> kf" "kf \<noteq> pf" "pf \<noteq> qf" "qf \<noteq> pf" "kf \<noteq> qf" "qf \<noteq> kf" using names by auto
  have "rd pf w3 = Inr [] \<and> rd kf w3 = Inr [] \<and> rd qf w3 = Inr []"
    using created [OF cr _ c(1)] created [OF cr _ c(2)] created [OF cr _ c(3)] n by simp
  then have "rd pf w4 = Inr (enc_proof enc proof) \<and> rd kf w4 = Inr [] \<and> rd qf w4 = Inr []"
    using appended [OF wr(1) _ a(1)] n by simp
  then have "rd pf w5 = Inr (enc_proof enc proof) \<and> rd kf w5 = Inr (enc_vk enc vk) \<and> rd qf w5 = Inr []"
    using appended [OF wr(2) _ a(2)] n by simp
  then show ?thesis using appended [OF wr(3) _ a(3)] n by simp
qed

text \<open>What is assumed of gnark: it reads back what it wrote, and its two uses verify alike.\<close>

definition reads_back ::
  "('proof, 'wit, 'vk) gnark_backend \<Rightarrow> ecc_ID \<Rightarrow> ('proof \<Rightarrow> 'vk \<Rightarrow> 'wit \<Rightarrow> string option go) \<Rightarrow>
     ('vk, 'wit, 'proof) encoders \<Rightarrow> bool" where
  "reads_back G curve vf enc \<longleftrightarrow>
     (\<forall>p. Proof_ReadFrom G curve (enc_proof enc p) = Ret (Inr p))
     \<and> (\<forall>k. VerifyingKey_ReadFrom G curve (enc_vk enc k) = Ret (Inr k))
     \<and> (\<exists>e. Witness_New G curve = Ret (Inr e)
          \<and> (\<forall>i. Witness_ReadFrom G e (enc_witness enc i) = Ret (Inr i)))
     \<and> Verify G = vf"

lemma reads_back_verify:
  assumes "reads_back G curve vf enc" and "vf proof vk wit = Ret None"
  shows "verifyGroth16Proof G (enc_proof enc proof) (enc_witness enc wit) (enc_vk enc vk) curve = Ret True"
    and "verifyPlonkProof G (enc_proof enc proof) (enc_witness enc wit) (enc_vk enc vk) curve = Ret True"
  using assms
  by (auto simp: reads_back_def verifyGroth16Proof_def verifyPlonkProof_def or_false_def)

lemma proved_verifies:
  "prove_assignment P curve a ccs pk vk w = Ret (proof, vk', pub) \<Longrightarrow>
     vk' = vk \<and> prover_Verify P proof vk pub = Ret None"
  by (auto simp: prove_assignment_def go_simps split: option.splits)

lemma groth16_proof_verifies:
  "groth16_proof P c a w = Ret (proof, vk, pub) \<Longrightarrow> prover_Verify P proof vk pub = Ret None"
  by (auto simp: groth16_proof_def go_simps dest: proved_verifies)

lemma plonk_proof_verifies:
  "plonk_proof P curve w = Ret (proof, vk, pub) \<Longrightarrow> prover_Verify P proof vk pub = Ret None"
  by (auto simp: plonk_proof_def go_simps dest: proved_verifies split: if_splits)

subsection \<open>Properties\<close>

text \<open>The files exist and the verifier \<open>vf\<close> accepts what they hold.\<close>

definition accepted_files ::
  "(string \<Rightarrow> 'w \<Rightarrow> bytes result) \<Rightarrow> 'w \<Rightarrow> (bytes \<Rightarrow> bytes \<Rightarrow> bytes \<Rightarrow> bool go) \<Rightarrow>
     string \<Rightarrow> string \<Rightarrow> string \<Rightarrow> bool" where
  "accepted_files rd w vf pf kf qf \<longleftrightarrow>
     (\<exists>p i k. rd pf w = Inr p \<and> rd qf w = Inr i \<and> rd kf w = Inr k \<and> vf p i k = Ret True)"

definition script_names :: "int \<Rightarrow> string set" where
  "script_names x = {ineq_file x ''proof'', ineq_file x ''vk'', ineq_file x ''pub'',
     groth16_bn254_dir @ ''groth16.proof'', groth16_bn254_dir @ ''groth16.vk'', groth16_bn254_dir @ ''groth16.pub'',
     plonk_bls12_381_dir @ ''plonk.proof'', plonk_bls12_381_dir @ ''plonk.vk'',
     plonk_bls12_381_dir @ ''plonk_pub_input.pub'',
     plonk_bn254_dir @ ''plonk.proof'', plonk_bn254_dir @ ''plonk.vk'', plonk_bn254_dir @ ''plonk_pub_input.pub''}"

lemma creates_mono: "creates rd names cr \<Longrightarrow> names' \<subseteq> names \<Longrightarrow> creates rd names' cr"
  unfolding creates_def by blast

lemma appends_mono: "appends rd names wr bs \<Longrightarrow> names' \<subseteq> names \<Longrightarrow> appends rd names' wr bs"
  unfolding appends_def by blast

lemma file_store_mono:
  "file_store rd names P enc \<Longrightarrow> names' \<subseteq> names \<Longrightarrow> file_store rd names' P enc"
  using creates_mono [of rd names _ names'] appends_mono [of rd names _ _ names']
  by (simp add: file_store_def)

lemma written_accepted:
  assumes run: "sbind (\<lambda>w. (w, prove w)) (write_files P pf kf qf) w = (w', Ret ())"
    and made: "\<And>proof vk pub. prove w = Ret (proof, vk, pub) \<Longrightarrow> prover_Verify P proof vk pub = Ret None"
    and store: "file_store rd names P enc" "{pf, kf, qf} \<subseteq> names" "distinct [pf, kf, qf]"
    and accept: "\<And>proof vk pub. prover_Verify P proof vk pub = Ret None
      \<Longrightarrow> vf (enc_proof enc proof) (enc_witness enc pub) (enc_vk enc vk) = Ret True"
  shows "accepted_files rd w' vf pf kf qf"
proof -
  obtain pr vk pub where m: "prove w = Ret (pr, vk, pub)"
    and wr: "write_files P pf kf qf (pr, vk, pub) w = (w', Ret ())"
    using run by (auto simp: go_simps)
  from written_files [OF wr file_store_mono [OF store(1,2)] store(3)] accept [OF made [OF m]]
  show ?thesis by (auto simp: accepted_files_def)
qed

lemma generated_accepted:
  assumes "GenerateIneqProof P x w = (w', Ret ())" "file_store rd names P enc"
    and "{ineq_file x ''proof'', ineq_file x ''vk'', ineq_file x ''pub''} \<subseteq> names"
    and "reads_back G BN254 (prover_Verify P) enc"
  shows "accepted_files rd w' (verifyGroth16ProofBN254 G)
    (ineq_file x ''proof'') (ineq_file x ''vk'') (ineq_file x ''pub'')"
proof (rule written_accepted [OF assms(1) [unfolded GenerateIneqProof_def]
      groth16_proof_verifies assms(2,3)])
  show "distinct [ineq_file x ''proof'', ineq_file x ''vk'', ineq_file x ''pub'']"
    by (simp add: ineq_file_def)
qed (use reads_back_verify(1) [OF assms(4)] in \<open>auto simp: verifyGroth16ProofBN254_def\<close>)

text \<open>Libraries for the witnesses. The world is the contents of the files; a proof is the public
  input.\<close>

type_synonym toy_files = "string \<Rightarrow> bytes option"

definition toy_read :: "string \<Rightarrow> toy_files \<Rightarrow> bytes result" where
  "toy_read f w = (case w f of None \<Rightarrow> Inl ''no such file'' | Some c \<Rightarrow> Inr c)"

definition toy_create :: "string \<Rightarrow> toy_files \<Rightarrow> toy_files \<times> string option" where
  "toy_create f w = (w(f := Some []), None)"

definition toy_write :: "bytes \<Rightarrow> string \<Rightarrow> toy_files \<Rightarrow> toy_files \<times> string option" where
  "toy_write bs f w = (case w f of None \<Rightarrow> (w, Some ''closed'') | Some c \<Rightarrow> (w(f := Some (c @ bs)), None))"

definition toy_groth16 :: "(toy_files, unit, unit, unit, bytes, bytes) groth16_prover" where
  "toy_groth16 = \<lparr>Compile = \<lambda>c b ci. Ret (Inr ()), NewWitness = \<lambda>c a. Ret (Inr [1]),
     NewPublicWitness = \<lambda>c a. Ret (Inr [1]), Prove = \<lambda>ccs pk i w. Ret (Inr i),
     prover_Verify = \<lambda>p k i. Ret (if p = i then None else Some ''invalid proof''),
     os_Create = toy_create, proof_WriteTo = toy_write, vk_WriteTo = \<lambda>k. toy_write [],
     witness_WriteTo = toy_write, groth16_Setup = \<lambda>ccs w. Ret ((), ())\<rparr>"

definition toy_plonk :: "(toy_files, unit, unit, unit, bytes, bytes, unit) plonk_prover" where
  "toy_plonk = \<lparr>Compile = \<lambda>c b ci. Ret (Inr ()), NewWitness = \<lambda>c a. Ret (Inr [1]),
     NewPublicWitness = \<lambda>c a. Ret (Inr [1]), Prove = \<lambda>ccs pk i w. Ret (Inr i),
     prover_Verify = \<lambda>p k i. Ret (if p = i then None else Some ''invalid proof''),
     os_Create = toy_create, proof_WriteTo = toy_write, vk_WriteTo = \<lambda>k. toy_write [],
     witness_WriteTo = toy_write, is_SparseR1CS = \<lambda>c ccs. True, NewSRS = \<lambda>ccs w. Ret (Inr ((), ())),
     plonk_Setup = \<lambda>ccs s l w. Ret ((), ())\<rparr>"

definition toy_encoders :: "(unit, bytes, bytes) encoders" where
  "toy_encoders = \<lparr>enc_proof = \<lambda>p. p, enc_vk = \<lambda>k. [], enc_witness = \<lambda>i. i\<rparr>"

definition toy_gnark :: "(bytes, bytes, unit) gnark_backend" where
  "toy_gnark = \<lparr>Proof_ReadFrom = \<lambda>c b. Ret (Inr b), Witness_New = \<lambda>c. Ret (Inr []),
     Witness_ReadFrom = \<lambda>w b. Ret (Inr b), VerifyingKey_ReadFrom = \<lambda>c b. Ret (Inr ()),
     Verify = \<lambda>p k i. Ret (if p = i then None else Some ''invalid proof'')\<rparr>"

lemma toy_files_ok:
  "creates toy_read names toy_create" "appends toy_read names (toy_write bs) bs"
  by (auto simp: creates_def appends_def toy_create_def toy_write_def toy_read_def split: option.splits)

lemma toy_stores:
  "file_store toy_read names toy_groth16 toy_encoders" "file_store toy_read names toy_plonk toy_encoders"
  by (simp_all add: file_store_def toy_files_ok toy_groth16_def toy_plonk_def toy_encoders_def)

lemma toy_reads_back:
  "reads_back toy_gnark c (prover_Verify toy_groth16) toy_encoders"
  "reads_back toy_gnark c (prover_Verify toy_plonk) toy_encoders"
  by (simp_all add: reads_back_def toy_gnark_def toy_groth16_def toy_plonk_def toy_encoders_def)

lemma toy_writes:
  assumes "distinct [pf, kf, qf]"
  shows "\<exists>w'. write_files toy_groth16 pf kf qf (p, (), i) w = (w', Ret ())"
    and "\<exists>w'. write_files toy_plonk pf kf qf (p, (), i) w = (w', Ret ())"
  using assms
  by (auto simp: toy_groth16_def toy_plonk_def sbind_def or_panic_def toy_create_def toy_write_def)

lemma toy_proofs:
  "groth16_proof toy_groth16 c a w = Ret ([1], (), [1])" "plonk_proof toy_plonk curve w = Ret ([1], (), [1])"
  by (simp_all add: groth16_proof_def plonk_proof_def prove_assignment_def else_panic_def else_fatal_def
      toy_groth16_def toy_plonk_def)

lemma toy_runs:
  "\<exists>w'. GenerateIneqProof toy_groth16 x w = (w', Ret ())"
  "\<exists>w'. plonk_bn254_main toy_plonk w = (w', Ret ())"
  by (simp_all add: GenerateIneqProof_def plonk_bn254_main_def sbind_def toy_proofs toy_writes
      ineq_file_def del: write_files.simps)

text \<open>C40: What the scripts leave behind is what the operators accept: when gnark reads back what it
  wrote and the files keep what is written, a run of any of the four programs that ended
  normally left a proof, a key and a public input that the operator's method for that proving
  system verifies; the generator of the endless loop does so for every number.\<close>

theorem sample_proofs_are_accepted:
  assumes "file_store rd (script_names x) P enc" "reads_back G BN254 (prover_Verify P) enc"
    and "file_store rd (script_names x) Q enc'" "reads_back H BLS12_381 (prover_Verify Q) enc'"
    and "file_store rd (script_names x) R enc''" "reads_back H BN254 (prover_Verify R) enc''"
  shows "(GenerateIneqProof P x w = (w', Ret ()) \<longrightarrow>
      accepted_files rd w' (verifyGroth16ProofBN254 G) (ineq_file x ''proof'') (ineq_file x ''vk'') (ineq_file x ''pub''))
    \<and> (groth16_bn254_main P w = (w', Ret ()) \<longrightarrow>
      accepted_files rd w' (verifyGroth16ProofBN254 G) (groth16_bn254_dir @ ''groth16.proof'')
        (groth16_bn254_dir @ ''groth16.vk'') (groth16_bn254_dir @ ''groth16.pub''))
    \<and> (plonk_bls12_381_main Q w = (w', Ret ()) \<longrightarrow>
      accepted_files rd w' (verifyPlonkProofBLS12_381 H) (plonk_bls12_381_dir @ ''plonk.proof'')
        (plonk_bls12_381_dir @ ''plonk.vk'') (plonk_bls12_381_dir @ ''plonk_pub_input.pub''))
    \<and> (plonk_bn254_main R w = (w', Ret ()) \<longrightarrow>
      accepted_files rd w' (verifyPlonkProofBN254 H) (plonk_bn254_dir @ ''plonk.proof'')
        (plonk_bn254_dir @ ''plonk.vk'') (plonk_bn254_dir @ ''plonk_pub_input.pub''))"
proof (intro conjI impI)
  assume "GenerateIneqProof P x w = (w', Ret ())"
  then show "accepted_files rd w' (verifyGroth16ProofBN254 G)
      (ineq_file x ''proof'') (ineq_file x ''vk'') (ineq_file x ''pub'')"
    by (rule generated_accepted [OF _ assms(1) _ assms(2)]) (simp add: script_names_def)
next
  assume "groth16_bn254_main P w = (w', Ret ())"
  from written_accepted [OF this [unfolded groth16_bn254_main_def Let_def] groth16_proof_verifies assms(1)]
  show "accepted_files rd w' (verifyGroth16ProofBN254 G) (groth16_bn254_dir @ ''groth16.proof'')
        (groth16_bn254_dir @ ''groth16.vk'') (groth16_bn254_dir @ ''groth16.pub'')"
    using reads_back_verify(1) [OF assms(2)] by (simp add: script_names_def verifyGroth16ProofBN254_def)
next
  assume "plonk_bls12_381_main Q w = (w', Ret ())"
  from written_accepted [OF this [unfolded plonk_bls12_381_main_def Let_def] plonk_proof_verifies assms(3)]
  show "accepted_files rd w' (verifyPlonkProofBLS12_381 H) (plonk_bls12_381_dir @ ''plonk.proof'')
        (plonk_bls12_381_dir @ ''plonk.vk'') (plonk_bls12_381_dir @ ''plonk_pub_input.pub'')"
    using reads_back_verify(2) [OF assms(4)] by (simp add: script_names_def verifyPlonkProofBLS12_381_def)
next
  assume "plonk_bn254_main R w = (w', Ret ())"
  from written_accepted [OF this [unfolded plonk_bn254_main_def Let_def] plonk_proof_verifies assms(5)]
  show "accepted_files rd w' (verifyPlonkProofBN254 H) (plonk_bn254_dir @ ''plonk.proof'')
        (plonk_bn254_dir @ ''plonk.vk'') (plonk_bn254_dir @ ''plonk_pub_input.pub'')"
    using reads_back_verify(2) [OF assms(6)] by (simp add: script_names_def verifyPlonkProofBN254_def)
qed

theorem sample_proofs_are_accepted_witness:
  "\<exists>w'. GenerateIneqProof toy_groth16 7 Map.empty = (w', Ret ())
     \<and> accepted_files toy_read w' (verifyGroth16ProofBN254 toy_gnark)
         (ineq_file 7 ''proof'') (ineq_file 7 ''vk'') (ineq_file 7 ''pub'')"
proof -
  obtain w' where run: "GenerateIneqProof toy_groth16 7 Map.empty = (w', Ret ())"
    using toy_runs(1) by blast
  from sample_proofs_are_accepted [OF toy_stores(1) toy_reads_back(1) toy_stores(2) toy_reads_back(2)
      toy_stores(2) toy_reads_back(2), THEN conjunct1, THEN mp, OF run] run
  show ?thesis by blast
qed

text \<open>
  What gnark documents of its prover, over a scalar field of order \<open>p\<close>, for the two circuits and
  assignments to their inputs: everything up to the proof succeeds; an assignment that satisfies
  the circuit has a proof that verifies, and proving another one is an error.
\<close>

definition complete_groth16 ::
  "('w, 'ccs, 'pk, 'vk, 'wit, 'proof, 'm) groth16_prover_scheme \<Rightarrow> int \<Rightarrow> bool" where
  "complete_groth16 P p \<longleftrightarrow>
     (\<forall>c \<in> {InequalityCircuit, CubicCircuit}. \<forall>a. map fst a = secret_inputs c @ public_inputs c \<longrightarrow>
       (\<exists>ccs full pub. Compile P BN254 r1cs_NewBuilder c = Ret (Inr ccs)
          \<and> NewWitness P BN254 a = Ret (Inr full) \<and> NewPublicWitness P BN254 a = Ret (Inr pub)
          \<and> (\<forall>w. \<exists>pk vk. groth16_Setup P ccs w = Ret (pk, vk)
               \<and> (if satisfies p a c
                  then \<exists>pr. Prove P ccs pk full w = Ret (Inr pr) \<and> prover_Verify P pr vk pub = Ret None
                  else \<exists>err. Prove P ccs pk full w = Ret (Inl err)))))"

lemma complete_groth16_proof:
  assumes "complete_groth16 P p" "c \<in> {InequalityCircuit, CubicCircuit}"
    and "map fst a = secret_inputs c @ public_inputs c"
  shows "if satisfies p a c
    then \<exists>pr vk pub. groth16_proof P c a w = Ret (pr, vk, pub) \<and> prover_Verify P pr vk pub = Ret None
    else groth16_proof P c a w = Panic"
proof -
  obtain ccs full pub pk vk where
    "Compile P BN254 r1cs_NewBuilder c = Ret (Inr ccs)" "NewWitness P BN254 a = Ret (Inr full)"
    "NewPublicWitness P BN254 a = Ret (Inr pub)" "groth16_Setup P ccs w = Ret (pk, vk)"
    and pr: "if satisfies p a c
      then \<exists>pr. Prove P ccs pk full w = Ret (Inr pr) \<and> prover_Verify P pr vk pub = Ret None
      else \<exists>err. Prove P ccs pk full w = Ret (Inl err)"
    using assms unfolding complete_groth16_def by meson
  then have "groth16_proof P c a w =
      gbind (else_panic (Prove P ccs pk full w)) (\<lambda>pr. gbind (prover_Verify P pr vk pub) (\<lambda>err.
        case err of Some e \<Rightarrow> Panic | None \<Rightarrow> Ret (pr, vk, pub)))"
    by (simp add: groth16_proof_def prove_assignment_def else_panic_def else_fatal_def)
  with pr show ?thesis by (auto simp: else_panic_def split: if_splits)
qed

text \<open>The prover that knows the circuit: its proof is empty, and made only for a solution.\<close>

definition solving_groth16 :: "int \<Rightarrow> (toy_files, circuit, unit, unit, assignment, unit) groth16_prover" where
  "solving_groth16 p = \<lparr>Compile = \<lambda>c b ci. Ret (Inr ci), NewWitness = \<lambda>c a. Ret (Inr a),
     NewPublicWitness = \<lambda>c a. Ret (Inr []),
     Prove = \<lambda>ccs pk i w. Ret (if satisfies p i ccs then Inr () else Inl ''constraint is not satisfied''),
     prover_Verify = \<lambda>p k i. Ret None, os_Create = toy_create, proof_WriteTo = \<lambda>p. toy_write [1],
     vk_WriteTo = \<lambda>k. toy_write [2], witness_WriteTo = \<lambda>i. toy_write [3],
     groth16_Setup = \<lambda>ccs w. Ret ((), ())\<rparr>"

lemma solving_groth16_complete: "complete_groth16 (solving_groth16 p) p"
  by (simp add: complete_groth16_def solving_groth16_def)

text \<open>Which samples exist: over a scalar field of order \<open>p\<close>, the generator of inequality proofs
  panics, before it touches a file, exactly for the multiples of \<open>p\<close> (so the numbers the endless
  loop counts through below \<open>p\<close> are all provable), and otherwise goes on to write a proof that
  verifies; the script of the cubic circuit always does, its assignment being a solution in every
  field.\<close>

theorem inequality_proof_exists_iff:
  assumes "complete_groth16 P p"
  shows "(p dvd x \<longrightarrow> GenerateIneqProof P x w = (w, Panic))
    \<and> (\<not> p dvd x \<longrightarrow> (\<exists>pr vk pub. prover_Verify P pr vk pub = Ret None \<and> GenerateIneqProof P x w
          = write_files P (ineq_file x ''proof'') (ineq_file x ''vk'') (ineq_file x ''pub'') (pr, vk, pub) w))
    \<and> (\<exists>pr vk pub. prover_Verify P pr vk pub = Ret None \<and> groth16_bn254_main P w
          = write_files P (groth16_bn254_dir @ ''groth16.proof'') (groth16_bn254_dir @ ''groth16.vk'')
              (groth16_bn254_dir @ ''groth16.pub'') (pr, vk, pub) w)"
proof -
  have i: "if \<not> p dvd x
      then \<exists>pr vk pub. groth16_proof P InequalityCircuit [(''X'', x)] w = Ret (pr, vk, pub)
        \<and> prover_Verify P pr vk pub = Ret None
      else groth16_proof P InequalityCircuit [(''X'', x)] w = Panic"
    using complete_groth16_proof [OF assms, of InequalityCircuit "[(''X'', x)]" w]
    by (simp only: ineq_solution script_inputs) simp
  have c: "\<exists>pr vk pub. groth16_proof P CubicCircuit cubic_assignment w = Ret (pr, vk, pub)
      \<and> prover_Verify P pr vk pub = Ret None"
    using complete_groth16_proof [OF assms, of CubicCircuit cubic_assignment w]
    by (simp add: script_inputs)
  have gen: "GenerateIneqProof P x w = (case groth16_proof P InequalityCircuit [(''X'', x)] w of
      Ret r \<Rightarrow> write_files P (ineq_file x ''proof'') (ineq_file x ''vk'') (ineq_file x ''pub'') r w
    | Panic \<Rightarrow> (w, Panic) | Fatal e \<Rightarrow> (w, Fatal e))"
    by (simp add: GenerateIneqProof_def sbind_def)
  have main: "groth16_bn254_main P w = (case groth16_proof P CubicCircuit cubic_assignment w of
      Ret r \<Rightarrow> write_files P (groth16_bn254_dir @ ''groth16.proof'') (groth16_bn254_dir @ ''groth16.vk'')
              (groth16_bn254_dir @ ''groth16.pub'') r w
    | Panic \<Rightarrow> (w, Panic) | Fatal e \<Rightarrow> (w, Fatal e))"
    by (simp add: groth16_bn254_main_def sbind_def Let_def)
  show ?thesis
  proof (intro conjI impI)
    assume "p dvd x"
    with i gen show "GenerateIneqProof P x w = (w, Panic)" by simp
  next
    assume "\<not> p dvd x"
    with i obtain pr vk pub where "groth16_proof P InequalityCircuit [(''X'', x)] w = Ret (pr, vk, pub)"
      "prover_Verify P pr vk pub = Ret None" by auto
    then show "\<exists>pr vk pub. prover_Verify P pr vk pub = Ret None \<and> GenerateIneqProof P x w
        = write_files P (ineq_file x ''proof'') (ineq_file x ''vk'') (ineq_file x ''pub'') (pr, vk, pub) w"
      by (intro exI [of _ pr] exI [of _ vk] exI [of _ pub]) (simp add: gen del: write_files.simps)
  next
    from c obtain pr vk pub where "groth16_proof P CubicCircuit cubic_assignment w = Ret (pr, vk, pub)"
      "prover_Verify P pr vk pub = Ret None" by blast
    then show "\<exists>pr vk pub. prover_Verify P pr vk pub = Ret None \<and> groth16_bn254_main P w
        = write_files P (groth16_bn254_dir @ ''groth16.proof'') (groth16_bn254_dir @ ''groth16.vk'')
              (groth16_bn254_dir @ ''groth16.pub'') (pr, vk, pub) w"
      by (intro exI [of _ pr] exI [of _ vk] exI [of _ pub]) (simp add: main del: write_files.simps)
  qed
qed

theorem inequality_proof_exists_iff_witness:
  "GenerateIneqProof (solving_groth16 7) 14 Map.empty = (Map.empty, Panic)
   \<and> snd (GenerateIneqProof (solving_groth16 7) 3 Map.empty) = Ret ()"
proof
  show "GenerateIneqProof (solving_groth16 7) 14 Map.empty = (Map.empty, Panic)"
    using inequality_proof_exists_iff [OF solving_groth16_complete, of 7 14 Map.empty] by simp
  have "\<not> (7::int) dvd 3" by simp
  then obtain pr vk pub where "GenerateIneqProof (solving_groth16 7) 3 Map.empty
      = write_files (solving_groth16 7) (ineq_file 3 ''proof'') (ineq_file 3 ''vk'') (ineq_file 3 ''pub'')
          (pr, vk, pub) Map.empty"
    using inequality_proof_exists_iff [OF solving_groth16_complete, of 7 3 Map.empty] by blast
  then show "snd (GenerateIneqProof (solving_groth16 7) 3 Map.empty) = Ret ()"
    by (simp add: solving_groth16_def sbind_def or_panic_def toy_create_def toy_write_def ineq_file_def)
qed

end
