(* ===== verification/Task_Sender.thy ===== *)
theory Task_Sender
  imports Proof_Scripts Chain_Clients Chain_IO Batch_Json
begin

text \<open>
  The task sender (\<open>task_sender/cmd/main.go\<close>, \<open>task_sender/pkg/task_sender.go\<close>): it
  reads a proof from files, writes it as a batch of one entry, uploads the batch under the hash of
  its text and creates the task on chain, once, in a loop, or with a new proof in every round (theory \<open>Proof_Scripts\<close>).

  The world \<open>'w\<close> (files, bucket, chain) is changed by the operations of the argument records
  \<open>sender_lib\<close> and \<open>groth16_prover\<close> only.
\<close>

subsection \<open>Trimming and naming\<close>

text \<open>The UTF-8 encodings of the white space of Unicode, which \<open>strings.TrimSpace\<close> removes.\<close>

definition space_runes :: "string list" where
  "space_runes =
    [[CHR 0x09], [CHR 0x0A], [CHR 0x0B], [CHR 0x0C], [CHR 0x0D], [CHR 0x20],
     [CHR 0xC2, CHR 0x85], [CHR 0xC2, CHR 0xA0], [CHR 0xE1, CHR 0x9A, CHR 0x80],
     [CHR 0xE2, CHR 0x80, CHR 0x80], [CHR 0xE2, CHR 0x80, CHR 0x81],
     [CHR 0xE2, CHR 0x80, CHR 0x82], [CHR 0xE2, CHR 0x80, CHR 0x83],
     [CHR 0xE2, CHR 0x80, CHR 0x84], [CHR 0xE2, CHR 0x80, CHR 0x85],
     [CHR 0xE2, CHR 0x80, CHR 0x86], [CHR 0xE2, CHR 0x80, CHR 0x87],
     [CHR 0xE2, CHR 0x80, CHR 0x88], [CHR 0xE2, CHR 0x80, CHR 0x89],
     [CHR 0xE2, CHR 0x80, CHR 0x8A], [CHR 0xE2, CHR 0x80, CHR 0xA8],
     [CHR 0xE2, CHR 0x80, CHR 0xA9], [CHR 0xE2, CHR 0x80, CHR 0xAF],
     [CHR 0xE2, CHR 0x81, CHR 0x9F], [CHR 0xE3, CHR 0x80, CHR 0x80]]"

text \<open>Removing the given prefixes as often as one of them is there.\<close>

function trim_prefixes :: "string list \<Rightarrow> string \<Rightarrow> string" where
  "trim_prefixes ps s =
     (case find (\<lambda>p. p \<noteq> [] \<and> take (length p) s = p) ps of
        None \<Rightarrow> s
      | Some p \<Rightarrow> trim_prefixes ps (drop (length p) s))"
  by pat_completeness auto

termination
proof (relation "measure (\<lambda>(ps, s). length s)")
  fix ps s p
  assume "find (\<lambda>p. p \<noteq> [] \<and> take (length p) s = p) ps = Some p"
  then have "p \<noteq> []" "take (length p) s = p" by (auto simp: find_Some_iff)
  then have "0 < length p" "length p \<le> length s" by (auto dest: arg_cong [of _ _ length])
  then have "length s - length p < length s" by linarith
  then show "((ps, drop (length p) s), ps, s) \<in> measure (\<lambda>(ps, s). length s)" by simp
qed simp

declare trim_prefixes.simps [simp del]

definition TrimSpace :: "string \<Rightarrow> string" where
  "TrimSpace s = rev (trim_prefixes (map rev space_runes) (rev (trim_prefixes space_runes s)))"

definition ParseProvingSystem :: "string \<Rightarrow> ProvingSystemId result" where
  "ParseProvingSystem provingSystemStr =
     (let provingSystemStr = TrimSpace provingSystemStr in
      if provingSystemStr = ''plonk_bls12_381'' then Inr GnarkPlonkBls12_381
      else if provingSystemStr = ''plonk_bn254'' then Inr GnarkPlonkBn254
      else if provingSystemStr = ''groth16_bn254'' then Inr Groth16Bn254
      else if provingSystemStr = ''sp1'' then Inr SP1
      else if provingSystemStr = ''halo2_kzg'' then Inr Halo2KZG
      else if provingSystemStr = ''halo2_ipa'' then Inr Halo2IPA
      else Inl (''unsupported proving system: '' @ provingSystemStr))"

subsection \<open>The libraries\<close>

record cli_context =
  cli_String :: "string \<Rightarrow> string"
  cli_Int :: "string \<Rightarrow> int"

record ('h, 'w, 'n, 'r) sender_lib =
  sender_backend :: "'h AvsWriter \<Rightarrow> ('w, 'n, 'r) eth_backend"
  GetTxOpts :: "'h \<Rightarrow> tx_opts"
  os_ReadFile :: "string \<Rightarrow> 'w \<Rightarrow> bytes result"
  Sum256 :: "bytes \<Rightarrow> bytes32"
  godotenv_Load :: "string \<Rightarrow> 'w \<Rightarrow> (string \<Rightarrow> string) result"
  s3_NewSession :: "string \<Rightarrow> string \<Rightarrow> string \<Rightarrow> 'h result"
  PutObject :: "'h \<Rightarrow> string \<Rightarrow> string \<Rightarrow> bytes \<Rightarrow> 'w \<Rightarrow> 'w \<times> string option"
  time_Sleep :: "int \<Rightarrow> 'w \<Rightarrow> 'w"

subsection \<open>Sending a task (\<open>task_sender/pkg\<close>)\<close>

record Task =
  task_BatchMerkleRoot :: bytes32
  task_batchDataPointer :: string

definition NewTask :: "bytes32 \<Rightarrow> string \<Rightarrow> Task" where
  "NewTask batchMerkleRoot batchDataPointer =
     \<lparr>task_BatchMerkleRoot = batchMerkleRoot, task_batchDataPointer = batchDataPointer\<rparr>"

record 'h TaskSender =
  avsWriter :: "'h AvsWriter"

definition NewTaskSender :: "'h TaskSenderConfig \<Rightarrow> 'h AvsWriter \<Rightarrow> 'h TaskSender" where
  "NewTaskSender config writer = \<lparr>avsWriter = writer\<rparr>"

definition TaskSender_SendTask ::
  "('h, 'w, 'n, 'r) sender_lib \<Rightarrow> 'h TaskSender \<Rightarrow> Task \<Rightarrow> 'w \<Rightarrow> 'w \<times> string option" where
  "TaskSender_SendTask L ts task w =
     (case SendTask (sender_backend L (avsWriter ts)) (GetTxOpts L (writer_Signer (avsWriter ts)))
             (task_BatchMerkleRoot task) (task_batchDataPointer task) w of
        (w, Some err) \<Rightarrow> (w, Some err)
      | (w, None) \<Rightarrow> (w, None))"

subsection \<open>Uploading\<close>

definition uploadObjectToS3 ::
  "('h, 'w, 'n, 'r) sender_lib \<Rightarrow> bytes \<Rightarrow> bytes32 \<Rightarrow> ('w, string result) script" where
  "uploadObjectToS3 L byteArray merkleRoot w =
     (case godotenv_Load L ''./task_sender/.env'' w of
        Inl err \<Rightarrow> (w, Fatal (''Error loading .env file: '' @ err))
      | Inr getenv \<Rightarrow>
          (let region = getenv ''AWS_REGION''; accessKey = getenv ''AWS_ACCESS_KEY'';
               secretKey = getenv ''AWS_SECRET''; bucket = getenv ''AWS_S3_BUCKET'' in
           if region = [] \<or> accessKey = [] \<or> secretKey = [] \<or> bucket = []
           then (w, Ret (Inl ''missing AWS environment variables''))
           else
             case s3_NewSession L region accessKey secretKey of
               Inl err \<Rightarrow> (w, Ret (Inl err))
             | Inr svc \<Rightarrow>
                 (let key = hex_encode merkleRoot @ ''.json'' in
                  case PutObject L svc bucket key byteArray w of
                    (w, Some err) \<Rightarrow> (w, Ret (Inl err))
                  | (w, None) \<Rightarrow> (w, Ret (Inr (''https://storage.alignedlayer.com/'' @ key))))))"

subsection \<open>One task (\<open>taskSenderMain\<close>)\<close>

text \<open>The files of the proof, the public input and the key: given by flags, or generated ones.\<close>

definition proof_files :: "cli_context \<Rightarrow> nat \<Rightarrow> string \<times> string \<times> string" where
  "proof_files c x =
     (if x = 0 then (cli_String c ''proof'', cli_String c ''public-input'', cli_String c ''verification-key'')
      else (infinite_dir @ ''ineq_'' @ show_nat x @ ''_groth16.proof'',
            infinite_dir @ ''ineq_'' @ show_nat x @ ''_groth16.pub'',
            infinite_dir @ ''ineq_'' @ show_nat x @ ''_groth16.vk''))"

text \<open>The batch: one entry, whose last part is the program for SP1 and the key otherwise.\<close>

definition task_data ::
  "('h, 'w, 'n, 'r) sender_lib \<Rightarrow> cli_context \<Rightarrow> nat \<Rightarrow> 'w \<Rightarrow> VerificationData list result" where
  "task_data L c x w =
     rbind (ParseProvingSystem (cli_String c ''proving-system'')) (\<lambda>provingSystem.
     let (proofFile, pubInputFile, verificationKeyFile) = proof_files c x in
     rbind (os_ReadFile L proofFile w) (\<lambda>ProofByteArray.
     rbind (os_ReadFile L pubInputFile w) (\<lambda>PubInputByteArray.
     rbind (os_ReadFile L verificationKeyFile w) (\<lambda>VerificationKeyByteArray.
     Inr (if provingSystem = SP1 then
            [\<lparr>vd_ProvingSystemId = provingSystem, vd_Proof = gs_of ProofByteArray,
              vd_PubInput = gs_of PubInputByteArray, vd_VerificationKey = gs_of [],
              vd_VmProgramCode = gs_of VerificationKeyByteArray\<rparr>]
          else
            [\<lparr>vd_ProvingSystemId = provingSystem, vd_Proof = gs_of ProofByteArray,
              vd_PubInput = gs_of PubInputByteArray, vd_VerificationKey = gs_of VerificationKeyByteArray,
              vd_VmProgramCode = gs_of []\<rparr>])))))"

definition getAndUploadProofData ::
  "('h, 'w, 'n, 'r) sender_lib \<Rightarrow> cli_context \<Rightarrow> nat \<Rightarrow> ('w, (bytes32 \<times> string) result) script" where
  "getAndUploadProofData L c x w =
     or_return (\<lambda>w. (w, Ret (task_data L c x w))) (\<lambda>data.
     or_return (sret (Marshal_batch data)) (\<lambda>byteArray.
     let merkleRoot = Sum256 L byteArray in
     or_return (uploadObjectToS3 L byteArray merkleRoot) (\<lambda>batchDataPointer.
     sret (Inr (merkleRoot, batchDataPointer))))) w"

text \<open>\<open>xParam\<close> are the arguments after the context, of which there is at most one.\<close>

definition taskSenderMain ::
  "'h config_env \<Rightarrow> 'h sdk \<Rightarrow> ('h, 'w, 'n, 'r) sender_lib \<Rightarrow> cli_context \<Rightarrow> nat list \<Rightarrow>
     ('w, string option) script" where
  "taskSenderMain env S L c xParam =
     (let x = (case xParam of [] \<Rightarrow> 0 | y # _ \<Rightarrow> y) in
      sbind (pure_go (NewTaskSenderConfig env (cli_String c ''config''))) (\<lambda>taskSenderConfig.
      case NewAvsWriterFromConfig S (ts_BaseConfig taskSenderConfig) (ts_EcdsaConfig taskSenderConfig) of
        Inl err \<Rightarrow> sret (Some err)
      | Inr writer \<Rightarrow>
          let taskSender = NewTaskSender taskSenderConfig writer in
          sbind (getAndUploadProofData L c x) (\<lambda>r.
          case r of
            Inl err \<Rightarrow> sret (Some err)
          | Inr (batchMerkleRoot, batchDataPointer) \<Rightarrow>
              let task = NewTask batchMerkleRoot batchDataPointer in
              (\<lambda>w. case TaskSender_SendTask L taskSender task w of
                     (w, Some err) \<Rightarrow> (w, Ret (Some err))
                   | (w, None) \<Rightarrow> (w, Ret None)))))"

subsection \<open>The loops\<close>

text \<open>\<open>time.Duration(interval) * time.Second\<close>, in 64 bits.\<close>

definition interval_duration :: "int \<Rightarrow> int" where
  "interval_duration interval = sint (word_of_int interval * word_of_nat second :: u64)"

definition taskSenderLoopMain ::
  "'h config_env \<Rightarrow> 'h sdk \<Rightarrow> ('h, 'w, 'n, 'r) sender_lib \<Rightarrow> cli_context \<Rightarrow> nat \<Rightarrow> 'w \<Rightarrow> 'w \<times> loop_end" where
  "taskSenderLoopMain env S L c n w =
     (let interval = cli_Int c ''interval'' in
      if interval < 1 then (w, Ended (Ret (Some ''interval must be greater than 0'')))
      else round_loop n (\<lambda>_. taskSenderMain env S L c []) (time_Sleep L (interval_duration interval)) 1 w)"

definition infinite_round ::
  "'h config_env \<Rightarrow> 'h sdk \<Rightarrow> ('h, 'w, 'n, 'r) sender_lib \<Rightarrow>
     ('w, 'ccs, 'pk, 'vk, 'wit, 'proof) groth16_prover \<Rightarrow> cli_context \<Rightarrow> nat \<Rightarrow> ('w, string option) script" where
  "infinite_round env S L P c x =
     sbind (GenerateIneqProof P (int x)) (\<lambda>_. taskSenderMain env S L c [x])"

definition taskSenderInfiniteMain ::
  "'h config_env \<Rightarrow> 'h sdk \<Rightarrow> ('h, 'w, 'n, 'r) sender_lib \<Rightarrow>
     ('w, 'ccs, 'pk, 'vk, 'wit, 'proof) groth16_prover \<Rightarrow> cli_context \<Rightarrow> nat \<Rightarrow> 'w \<Rightarrow> 'w \<times> loop_end" where
  "taskSenderInfiniteMain env S L P c n w =
     (let interval = cli_Int c ''interval'' in
      if interval < 1 then (w, Ended (Ret (Some ''interval must be greater than 0'')))
      else round_loop n (infinite_round env S L P c) (time_Sleep L (interval_duration interval)) 1 w)"

subsection \<open>What a task carries\<close>

lemma ParseProvingSystem_known: "ParseProvingSystem s = Inr t \<Longrightarrow> t \<in> set known_systems"
  by (auto simp: ParseProvingSystem_def Let_def known_systems_def split: if_splits)

lemma task_data_single:
  "task_data L c x w = Inr data \<Longrightarrow> \<exists>d. data = [d] \<and> vd_ProvingSystemId d \<in> set known_systems
     \<and> ParseProvingSystem (cli_String c ''proving-system'') = Inr (vd_ProvingSystemId d)"
proof -
  obtain pf inf kf where files: "proof_files c x = (pf, inf, kf)" by (cases "proof_files c x")
  assume "task_data L c x w = Inr data"
  then obtain t p i k where t: "ParseProvingSystem (cli_String c ''proving-system'') = Inr t"
    and data: "data = (if t = SP1 then
        [\<lparr>vd_ProvingSystemId = t, vd_Proof = gs_of p, vd_PubInput = gs_of i,
          vd_VerificationKey = gs_of [], vd_VmProgramCode = gs_of k\<rparr>]
      else
        [\<lparr>vd_ProvingSystemId = t, vd_Proof = gs_of p, vd_PubInput = gs_of i,
          vd_VerificationKey = gs_of k, vd_VmProgramCode = gs_of []\<rparr>])"
    unfolding task_data_def files Let_def prod.case rbind_Inr_iff sum.inject by metis
  then show ?thesis using ParseProvingSystem_known [OF t] by (cases "t = SP1") simp_all
qed

lemma uploaded_object:
  "uploadObjectToS3 L body root w = (w', Ret (Inr pointer)) \<Longrightarrow>
     pointer = ''https://storage.alignedlayer.com/'' @ hex_encode root @ ''.json''
     \<and> (\<exists>svc bucket. PutObject L svc bucket (hex_encode root @ ''.json'') body w = (w', None))"
  by (auto simp: uploadObjectToS3_def Let_def split: sum.splits if_splits prod.splits option.splits)

lemma uploaded_task:
  assumes "getAndUploadProofData L c x w = (w', Ret (Inr (root, pointer)))"
  shows "\<exists>d body svc bucket. task_data L c x w = Inr [d] \<and> Marshal_batch [d] = Inr body
     \<and> root = Sum256 L body \<and> pointer = ''https://storage.alignedlayer.com/'' @ hex_encode root @ ''.json''
     \<and> PutObject L svc bucket (hex_encode root @ ''.json'') body w = (w', None)"
proof -
  obtain data body where d: "task_data L c x w = Inr data" "Marshal_batch data = Inr body"
    and u: "uploadObjectToS3 L body (Sum256 L body) w = (w', Ret (Inr pointer))"
    and r: "root = Sum256 L body"
    using assms by (auto simp: getAndUploadProofData_def Let_def go_simps)
  from task_data_single [OF d(1)] obtain d' where "data = [d']" by blast
  with d r uploaded_object [OF u] show ?thesis by blast
qed

lemma taskSenderMain_sent:
  assumes "taskSenderMain env S L c xs w = (w', Ret None)"
  shows "\<exists>writer root pointer w1.
     getAndUploadProofData L c (case xs of [] \<Rightarrow> 0 | y # _ \<Rightarrow> y) w = (w1, Ret (Inr (root, pointer)))
     \<and> SendTask (sender_backend L writer) (GetTxOpts L (writer_Signer writer)) root pointer w1 = (w', None)"
proof -
  obtain cfg where cfg: "NewTaskSenderConfig env (cli_String c ''config'') = Ret cfg"
    and rest: "(case NewAvsWriterFromConfig S (ts_BaseConfig cfg) (ts_EcdsaConfig cfg) of
        Inl err \<Rightarrow> sret (Some err)
      | Inr writer \<Rightarrow>
          sbind (getAndUploadProofData L c (case xs of [] \<Rightarrow> 0 | y # _ \<Rightarrow> y)) (\<lambda>r.
          case r of
            Inl err \<Rightarrow> sret (Some err)
          | Inr (batchMerkleRoot, batchDataPointer) \<Rightarrow>
              (\<lambda>w. case TaskSender_SendTask L (NewTaskSender cfg writer)
                       (NewTask batchMerkleRoot batchDataPointer) w of
                     (w, Some err) \<Rightarrow> (w, Ret (Some err))
                   | (w, None) \<Rightarrow> (w, Ret None)))) w = (w', Ret None)"
    using assms unfolding taskSenderMain_def Let_def by (auto simp: go_simps)
  obtain writer where writer: "NewAvsWriterFromConfig S (ts_BaseConfig cfg) (ts_EcdsaConfig cfg) = Inr writer"
    using rest by (cases "NewAvsWriterFromConfig S (ts_BaseConfig cfg) (ts_EcdsaConfig cfg)")
      (auto simp: go_simps)
  obtain w1 r where up: "getAndUploadProofData L c (case xs of [] \<Rightarrow> 0 | y # _ \<Rightarrow> y) w = (w1, Ret r)"
    and k: "(case r of
            Inl err \<Rightarrow> sret (Some err)
          | Inr (batchMerkleRoot, batchDataPointer) \<Rightarrow>
              (\<lambda>w. case TaskSender_SendTask L (NewTaskSender cfg writer)
                       (NewTask batchMerkleRoot batchDataPointer) w of
                     (w, Some err) \<Rightarrow> (w, Ret (Some err))
                   | (w, None) \<Rightarrow> (w, Ret None))) w1 = (w', Ret None)"
    using rest writer by (auto simp: go_simps)
  obtain root pointer where r: "r = Inr (root, pointer)"
    using k by (cases r) (auto simp: go_simps)
  have "SendTask (sender_backend L writer) (GetTxOpts L (writer_Signer writer)) root pointer w1 = (w', None)"
    using k unfolding r
    by (auto simp: TaskSender_SendTask_def NewTaskSender_def NewTask_def split: prod.splits option.splits)
  with up r show ?thesis by blast
qed

text \<open>The files of a generated proof, and the entry made of three files that could be read.\<close>

lemma generated_files:
  "0 < x \<Longrightarrow> proof_files c x
     = (ineq_file (int x) ''proof'', ineq_file (int x) ''pub'', ineq_file (int x) ''vk'')"
  by (simp add: proof_files_def ineq_file_def show_int_def)

lemma task_data_of_files:
  assumes "ParseProvingSystem (cli_String c ''proving-system'') = Inr t" "t \<noteq> SP1"
    and "proof_files c x = (pf, qf, kf)"
    and "os_ReadFile L pf w = Inr p" "os_ReadFile L qf w = Inr i" "os_ReadFile L kf w = Inr k"
  shows "task_data L c x w = Inr [\<lparr>vd_ProvingSystemId = t, vd_Proof = gs_of p, vd_PubInput = gs_of i,
    vd_VerificationKey = gs_of k, vd_VmProgramCode = gs_of []\<rparr>]"
  using assms by (simp add: task_data_def)

subsection \<open>An example\<close>

text \<open>A world that counts its objects and transactions.\<close>

definition counting_backend :: "(nat, unit, unit) eth_backend" where
  "counting_backend = \<lparr>RespondToTask = \<lambda>opts r s w. (w, Inl ''unused''),
     CreateNewTask = \<lambda>opts r p w. (Suc w, Inr \<lparr>Gas = 1, Hash = r\<rparr>),
     TransactionReceipt = \<lambda>h w. (w, Inr ()), Sleep = \<lambda>d w. w, HashString = hex_encode\<rparr>"

definition example_sender_lib :: "(nat, nat, unit, unit) sender_lib" where
  "example_sender_lib = \<lparr>sender_backend = \<lambda>writer. counting_backend,
     GetTxOpts = \<lambda>s. \<lparr>NoSend = False, GasLimit = 0\<rparr>, os_ReadFile = \<lambda>f w. Inr [7],
     Sum256 = \<lambda>b. [9], godotenv_Load = \<lambda>f w. Inr (\<lambda>v. ''set''),
     s3_NewSession = \<lambda>r a s. Inr 5, PutObject = \<lambda>svc bucket key body w. (Suc w, None),
     time_Sleep = \<lambda>d w. w\<rparr>"

definition example_cli :: "string \<Rightarrow> int \<Rightarrow> cli_context" where
  "example_cli system interval = \<lparr>cli_String = \<lambda>f. system, cli_Int = \<lambda>f. interval\<rparr>"

lemma trim_sp1: "ParseProvingSystem '' sp1'' = Inr SP1"
proof -
  have l: "trim_prefixes space_runes '' sp1'' = ''sp1''"
    by (subst trim_prefixes.simps, simp add: space_runes_def) (subst trim_prefixes.simps, simp)
  have r: "trim_prefixes (map rev space_runes) (rev ''sp1'') = rev ''sp1''"
    by (subst trim_prefixes.simps, simp add: space_runes_def)
  show ?thesis by (simp add: ParseProvingSystem_def TrimSpace_def l r del: rev.simps)
qed

lemma trim_groth16: "ParseProvingSystem ''groth16_bn254'' = Inr Groth16Bn254"
proof -
  have l: "trim_prefixes space_runes ''groth16_bn254'' = ''groth16_bn254''"
    by (subst trim_prefixes.simps, simp add: space_runes_def)
  have r: "trim_prefixes (map rev space_runes) (rev ''groth16_bn254'') = rev ''groth16_bn254''"
    by (subst trim_prefixes.simps, simp add: space_runes_def)
  show ?thesis by (simp add: ParseProvingSystem_def TrimSpace_def l r del: rev.simps)
qed

lemma example_upload:
  "getAndUploadProofData example_sender_lib (example_cli '' sp1'' i) 0 w
     = (Suc w, Ret (Inr ([9], ''https://storage.alignedlayer.com/09.json'')))"
proof -
  obtain body where body: "Marshal_batch [\<lparr>vd_ProvingSystemId = SP1, vd_Proof = gs_of [7],
      vd_PubInput = gs_of [7], vd_VerificationKey = gs_of [], vd_VmProgramCode = gs_of [7]\<rparr>] = Inr body"
    by (simp add: Marshal_batch_def Marshal_entry_def ProvingSystemId_MarshalJSON_def
        ProvingSystemIdToString_def ps_defs)
  show ?thesis
    by (simp add: getAndUploadProofData_def or_return_def sbind_def sret_def task_data_def
        proof_files_def example_cli_def trim_sp1 example_sender_lib_def body uploadObjectToS3_def Let_def
        hex_encode_def hex_byte_def hex_digit_def char_of_def bit_0)
qed

lemma example_main:
  "taskSenderMain example_env example_sdk example_sender_lib (example_cli '' sp1'' i) [] w
     = (Suc (Suc w), Ret None)"
proof -
  obtain cfg where cfg: "NewTaskSenderConfig example_env '' sp1'' = Ret cfg"
    using example_config by blast
  obtain writer where wr: "NewAvsWriterFromConfig example_sdk (ts_BaseConfig cfg) (ts_EcdsaConfig cfg)
      = Inr writer" using example_writer by blast
  have c: "cli_String (example_cli '' sp1'' i) f = '' sp1''" for f by (simp add: example_cli_def)
  have send: "SendTask (sender_backend example_sender_lib wr) opts r p u = (Suc u, None)" for wr opts r p u
    by (simp add: SendTask_def example_sender_lib_def counting_backend_def
        WaitForTransactionReceipt_def maxRetries_def numeral_eq_Suc)
  show ?thesis
    by (simp add: taskSenderMain_def sbind_def pure_go_def c cfg wr example_upload
        TaskSender_SendTask_def send)
qed

subsection \<open>Properties\<close>

text \<open>C34: A run of the task sender that succeeds put exactly one thing in the operators' way: it
  uploaded the text of a batch of one entry, of the proving system it was asked for and with the
  contents of the given files, under the name of the text's hash, and created a task with that
  hash as its root and with the address of that object; and whoever downloads that object reads
  back that entry.\<close>

theorem sent_task_reaches_operators:
  assumes "taskSenderMain env S L c xs w = (w', Ret None)"
  shows "\<exists>d body root svc bucket writer w1.
     task_data L c (case xs of [] \<Rightarrow> 0 | y # _ \<Rightarrow> y) w = Inr [d]
     \<and> ParseProvingSystem (cli_String c ''proving-system'') = Inr (vd_ProvingSystemId d)
     \<and> root = Sum256 L body
     \<and> PutObject L svc bucket (hex_encode root @ ''.json'') body w = (w1, None)
     \<and> SendTask (sender_backend L writer) (GetTxOpts L (writer_Signer writer)) root
          (''https://storage.alignedlayer.com/'' @ hex_encode root @ ''.json'') w1 = (w', None)
     \<and> (\<forall>growcap. \<exists>e. Unmarshal_batch growcap body = Inr [e] \<and> same_entry d e)"
proof -
  obtain writer root pointer w1
    where up: "getAndUploadProofData L c (case xs of [] \<Rightarrow> 0 | y # _ \<Rightarrow> y) w = (w1, Ret (Inr (root, pointer)))"
      and sent: "SendTask (sender_backend L writer) (GetTxOpts L (writer_Signer writer)) root pointer w1
        = (w', None)"
    using taskSenderMain_sent [OF assms] by blast
  obtain d body svc bucket
    where d: "task_data L c (case xs of [] \<Rightarrow> 0 | y # _ \<Rightarrow> y) w = Inr [d]"
      and body: "Marshal_batch [d] = Inr body" and root: "root = Sum256 L body"
      and pointer: "pointer = ''https://storage.alignedlayer.com/'' @ hex_encode root @ ''.json''"
      and put: "PutObject L svc bucket (hex_encode root @ ''.json'') body w = (w1, None)"
    using uploaded_task [OF up] by blast
  have system: "ParseProvingSystem (cli_String c ''proving-system'') = Inr (vd_ProvingSystemId d)"
    using task_data_single [OF d] by auto
  have "\<forall>growcap. \<exists>e. Unmarshal_batch growcap body = Inr [e] \<and> same_entry d e"
    using Unmarshal_Marshal [OF body] by (fastforce simp: list_all2_Cons1)
  with d system root put sent show ?thesis unfolding pointer by blast
qed

theorem sent_task_reaches_operators_witness:
  "\<exists>d body. task_data example_sender_lib (example_cli '' sp1'' 1) 0 0 = Inr [d]
     \<and> vd_ProvingSystemId d = SP1
     \<and> (\<exists>e. Unmarshal_batch Suc body = Inr [e] \<and> same_entry d e)"
proof -
  from sent_task_reaches_operators [OF example_main, of 1 0]
  obtain d body where d: "task_data example_sender_lib (example_cli '' sp1'' 1) 0 0 = Inr [d]"
    and s: "ParseProvingSystem (cli_String (example_cli '' sp1'' 1) ''proving-system'')
      = Inr (vd_ProvingSystemId d)"
    and e: "\<forall>growcap. \<exists>e. Unmarshal_batch growcap body = Inr [e] \<and> same_entry d e" by auto
  have "vd_ProvingSystemId d = SP1" using s by (simp add: example_cli_def trim_sp1)
  with d e show ?thesis by blast
qed

text \<open>The loops of the task sender stop only because a round failed: whatever number of rounds
  is looked at, a loop that ended with an interval of at least one second ended in some round
  with an error (or with a crash), never with nil, and every earlier round had sent its task;
  the proofs of the rounds of the second loop are those for 1, 2, 3 and so on.\<close>

theorem sender_loops_end_only_on_failure:
  assumes "1 \<le> cli_Int c ''interval''"
  shows "(taskSenderLoopMain env S L c n w = (w', Ended r) \<longleftrightarrow>
     (\<exists>k<n. taskSenderMain env S L c []
         (before_round (\<lambda>_. taskSenderMain env S L c [])
           (time_Sleep L (interval_duration (cli_Int c ''interval''))) 1 k w) = (w', r) \<and> r \<noteq> Ret None
       \<and> (\<forall>j<k. snd (taskSenderMain env S L c []
             (before_round (\<lambda>_. taskSenderMain env S L c [])
               (time_Sleep L (interval_duration (cli_Int c ''interval''))) 1 j w)) = Ret None)))
    \<and> (taskSenderInfiniteMain env S L P c n w = (w', Ended r) \<longleftrightarrow>
     (\<exists>k<n. infinite_round env S L P c (1 + k)
         (before_round (infinite_round env S L P c)
           (time_Sleep L (interval_duration (cli_Int c ''interval''))) 1 k w) = (w', r) \<and> r \<noteq> Ret None
       \<and> (\<forall>j<k. snd (infinite_round env S L P c (1 + j)
             (before_round (infinite_round env S L P c)
               (time_Sleep L (interval_duration (cli_Int c ''interval''))) 1 j w)) = Ret None)))"
  using assms by (simp add: taskSenderLoopMain_def taskSenderInfiniteMain_def round_loop_Ended)

theorem sender_loops_end_only_on_failure_witness:
  "\<forall>w' r. taskSenderLoopMain example_env example_sdk example_sender_lib (example_cli '' sp1'' 1) 3 0
     \<noteq> (w', Ended r)"
proof (intro allI)
  fix w' r
  have "1 \<le> cli_Int (example_cli '' sp1'' 1) ''interval''" by (simp add: example_cli_def)
  from sender_loops_end_only_on_failure [OF this, of example_env example_sdk example_sender_lib 3 0 w' r,
      THEN conjunct1]
  show "taskSenderLoopMain example_env example_sdk example_sender_lib (example_cli '' sp1'' 1) 3 0
      \<noteq> (w', Ended r)" by (auto simp: example_main)
qed

end
