(* ===== verification/System.thy ===== *)
theory System
  imports Agg_Concurrent Service_Manager Operator Task_Sender
begin

text \<open>
  The components together: the aggregator's goroutines (theory \<open>Agg_Concurrent\<close>) on the chain
  that runs the service manager (theory \<open>Service_Manager\<close>), and what is and is not looked at
  when a transaction's receipt comes back.

  The Ethereum client stays an argument. What is assumed of it is that the contract's state
  changes only by executed transactions: \<open>view\<close> is the contract's storage and the log of its
  events in a state of the world, and every operation of the client, and everything else that
  happens, moves them by steps of the contract only.
\<close>

subsection \<open>The contract in the world\<close>

definition chain_moves ::
  "(bytes32 \<Rightarrow> u32 \<Rightarrow> 'n \<Rightarrow> (QuorumStakeTotals \<times> bytes32) result) \<Rightarrow>
     storage \<times> chain_event list \<Rightarrow> storage \<times> chain_event list \<Rightarrow> bool" where
  "chain_moves check = (\<lambda>c c'. \<exists>ev. chain_step check (fst c) ev (fst c') \<and> snd c' = snd c @ ev)\<^sup>*\<^sup>*"

definition runs_on_contract ::
  "(bytes32 \<Rightarrow> u32 \<Rightarrow> 'n \<Rightarrow> (QuorumStakeTotals \<times> bytes32) result) \<Rightarrow>
     ('w \<Rightarrow> storage \<times> chain_event list) \<Rightarrow> ('w, 'n, 'r) eth_backend \<Rightarrow> bool" where
  "runs_on_contract check view client \<longleftrightarrow>
     (\<forall>opts root sig w. chain_moves check (view w) (view (fst (RespondToTask client opts root sig w))))
     \<and> (\<forall>h w. chain_moves check (view w) (view (fst (TransactionReceipt client h w))))"

lemma chain_moves_refl [simp]: "chain_moves check c c"
  by (simp add: chain_moves_def)

lemma chain_moves_trans: "chain_moves check c c' \<Longrightarrow> chain_moves check c' c'' \<Longrightarrow> chain_moves check c c''"
  unfolding chain_moves_def by (rule rtranclp_trans)

lemma chain_moves_step:
  "chain_step check st ev st' \<Longrightarrow> chain_moves check (st, log) (st', log @ ev)"
  unfolding chain_moves_def by (rule r_into_rtranclp) auto

lemma chain_moves_run:
  "chain_moves check c c' \<Longrightarrow> chain_run check (fst c) (snd c) \<Longrightarrow> chain_run check (fst c') (snd c')"
  unfolding chain_moves_def by (induction rule: rtranclp_induct) (auto intro: chain_run.stepped)

lemma chain_moves_responded:
  "chain_moves check c c' \<Longrightarrow> chain_run check (fst c) (snd c) \<Longrightarrow> responded (fst c r) \<Longrightarrow> responded (fst c' r)"
  unfolding chain_moves_def
proof (induction rule: rtranclp_induct)
  case (step d e)
  have "chain_run check (fst d) (snd d)"
    using chain_moves_run step unfolding chain_moves_def by blast
  then show ?case using step chain_step_responded chain_run_inv by blast
qed

lemma send_moves:
  assumes "runs_on_contract check view client"
  shows "chain_moves check (view w) (view (fst (SendAggregatedResponse client opts root sig w)))"
proof -
  note R = assms [unfolded runs_on_contract_def, THEN conjunct1, rule_format]
  obtain w1 r1 where 1: "RespondToTask client (opts\<lparr>NoSend := True\<rparr>) root sig w = (w1, r1)" by fastforce
  have m1: "chain_moves check (view w) (view w1)" using R [of w "opts\<lparr>NoSend := True\<rparr>" root sig] 1 by simp
  show ?thesis
  proof (cases r1)
    case (Inl e)
    then show ?thesis using 1 m1 by (simp add: SendAggregatedResponse_def)
  next
    case (Inr tx)
    let ?opts = "opts\<lparr>NoSend := False, GasLimit := raised_gas (Gas tx)\<rparr>"
    obtain w2 r2 where 2: "RespondToTask client ?opts root sig w1 = (w2, r2)" by fastforce
    have "chain_moves check (view w1) (view w2)" using R [of w1 ?opts root sig] 2 by simp
    then show ?thesis
      using chain_moves_trans [OF m1] 1 2 Inr by (cases r2) (simp_all add: SendAggregatedResponse_def)
  qed
qed

subsection \<open>The aggregator moves the contract only by its steps\<close>

lemma world_goto [simp]: "world (goto i g s) = world s"
  by (simp add: goto_def)

lemma world_release [simp]: "world (release r s) = world s"
  by (cases r) (simp_all add: release_def)

lemma agg_step_moves:
  assumes "agg_step E s s'" and client: "runs_on_contract check view (env_client E)"
    and others: "\<And>w w'. env_moves E w w' \<Longrightarrow> chain_moves check (view w) (view w')"
  shows "chain_moves check (view (world s)) (view (world s'))"
  using assms(1)
proof cases
  case (send_failed i idx root sig k w err)
  then show ?thesis using send_moves [OF client, of "world s" "env_opts E" root sig] by simp
next
  case (sent i idx root sig k w h)
  then show ?thesis using send_moves [OF client, of "world s" "env_opts E" root sig] by simp
next
  case (poll_failed i idx root sig k h m w err)
  then show ?thesis
    using client [unfolded runs_on_contract_def, THEN conjunct2, rule_format, of "world s" h] by simp
next
  case (receipt i idx root sig k h m w rc)
  then show ?thesis
    using client [unfolded runs_on_contract_def, THEN conjunct2, rule_format, of "world s" h] by simp
next
  case (world_moves w)
  then show ?thesis using others by simp
qed simp_all

lemma agg_reaches_moves:
  assumes "agg_reaches E s s'" and "runs_on_contract check view (env_client E)"
    and "\<And>w w'. env_moves E w w' \<Longrightarrow> chain_moves check (view w) (view w')"
  shows "chain_moves check (view (world s)) (view (world s'))"
  using assms(1)
proof (induction rule: rtranclp_induct)
  case (step t u)
  then show ?case using agg_step_moves [OF step(2) assms(2,3)] chain_moves_trans by blast
qed simp

subsection \<open>What is not looked at in a receipt\<close>

text \<open>The same client, whose receipts are something else.\<close>

definition map_receipts :: "('r \<Rightarrow> 'q) \<Rightarrow> ('w, 'n, 'r) eth_backend \<Rightarrow> ('w, 'n, 'q) eth_backend" where
  "map_receipts f client =
     \<lparr>RespondToTask = RespondToTask client, CreateNewTask = CreateNewTask client,
      TransactionReceipt = (\<lambda>h w. case TransactionReceipt client h w of
        (w, Inl e) \<Rightarrow> (w, Inl e) | (w, Inr rc) \<Rightarrow> (w, Inr (f rc))),
      Sleep = Sleep client, HashString = HashString client\<rparr>"

lemma receipt_loop_map:
  "receipt_loop (map_receipts f client) h n w =
     (case receipt_loop client h n w of (w, x) \<Rightarrow> (w, map_option f x))"
  by (induction n arbitrary: w) (auto simp: map_receipts_def split: prod.splits sum.splits)

lemma wait_map:
  "WaitForTransactionReceipt (map_receipts f client) h w =
     (case WaitForTransactionReceipt client h w of (w, Inl e) \<Rightarrow> (w, Inl e) | (w, Inr rc) \<Rightarrow> (w, Inr (f rc)))"
  by (auto simp: WaitForTransactionReceipt_def receipt_loop_map split: prod.splits option.splits)
    (simp add: map_receipts_def)

lemma send_map: "SendAggregatedResponse (map_receipts f client) = SendAggregatedResponse client"
  by (intro ext) (simp add: SendAggregatedResponse_def map_receipts_def)

lemma try_send_map:
  "try_send (map_receipts f client) opts root sig s =
     (case try_send client opts root sig s of (s', x) \<Rightarrow> (s', map_option f x))"
  by (auto simp: try_send_def send_map wait_map split: prod.splits sum.splits)

lemma respond_loop_map:
  "respond_loop (map_receipts f client) opts root sig n s =
     gbind (respond_loop client opts root sig n s) (\<lambda>(s', x). Ret (s', map_option f x))"
proof (induction n arbitrary: s)
  case (Suc n)
  have "Sleep (map_receipts f client) = Sleep client" by (simp add: map_receipts_def)
  then show ?case
    by (simp add: respond_loop_Suc try_send_map Suc split: prod.splits option.splits)
qed simp

subsection \<open>From the task sender to the operators\<close>

text \<open>A server of batches that answers for a file the operator's limit admits.\<close>

definition serves :: "http_server \<Rightarrow> string \<Rightarrow> bytes \<Rightarrow> int \<Rightarrow> bool" where
  "serves http pointer body limit \<longleftrightarrow>
     (\<exists>h g. http_Head http pointer = Inr h \<and> StatusCode h = StatusOK \<and> ContentLength h \<le> limit
        \<and> http_Get http pointer = Inr g \<and> Body g = Inr body)"

lemma fetched_from_server:
  assumes "serves http pointer body (MaxBatchSize (op_Section (op_Config oper)))"
    and "Unmarshal_batch growcap body = Inr batch"
  shows "operator_getBatch growcap oper http pointer = Inr batch"
  using assms by (auto simp: serves_def StatusOK_def operator_getBatch_def getBatchFromS3_Inr_iff)

text \<open>A batch of one entry that does not verify is not signed.\<close>

lemma rejected_not_signed:
  assumes "op_step growcap V L oper s (Some (NewBatchEvent http root pointer)) s'"
    and "operator_getBatch growcap oper http pointer = Inr [e]" and "verify V e \<noteq> Ret True"
  shows "dispatched s' = dispatched s"
  using assms(1)
proof cases
  case (batch_signed sub batch b)
  then have "batch_reaches V [e] b" "verdict b = Returned None" using assms(2) by simp_all
  from batch_inv_accept [OF batch_reaches_inv [OF this(1)] this(2)] assms(3) show ?thesis by simp
qed auto

lemma verified_signed:
  assumes "op_step growcap V L oper s (Some (NewBatchEvent http root pointer)) s'"
    and "operator_getBatch growcap oper http pointer = Inr batch"
    and "\<And>e. e \<in> set batch \<Longrightarrow> verify V e = Ret True"
  shows "dispatched s' = dispatched s @ [signed_response L oper root]"
  using assms(1)
proof cases
  case (batch_refused sub batch' b err)
  from batch_refused(4) assms(2) have "batch' = batch" by simp
  with batch_refused verified_accepts [of V batch b] assms(3) show ?thesis by simp
next
  case (batch_crashed sub batch' b)
  from batch_crashed(4) assms(2) have "batch' = batch" by simp
  with batch_crashed verified_accepts [of V batch b] assms(3) show ?thesis by simp
qed (use assms(2) in auto)

lemma entry_judged:
  assumes "Unmarshal_batch growcap body = Inr [e]"
    and "serves http pointer body (MaxBatchSize (op_Section (op_Config oper)))"
    and "op_step growcap V L oper s (Some (NewBatchEvent http root pointer)) s'"
  shows "dispatched s' =
    (if verify V e = Ret True then dispatched s @ [signed_response L oper root] else dispatched s)"
  using rejected_not_signed [OF assms(3) fetched_from_server [OF assms(2,1)]]
    verified_signed [OF assms(3) fetched_from_server [OF assms(2,1)]] by simp

text \<open>What the generator left in its files verifies, once uploaded and read back.\<close>

lemma generated_entry_verifies:
  assumes gen: "GenerateIneqProof P (int x) w = (w1, Ret ())" and x: "0 < x"
    and system: "ParseProvingSystem (cli_String c ''proving-system'') = Inr Groth16Bn254"
    and store: "file_store (os_ReadFile L) (script_names (int x)) P enc"
    and readback: "reads_back (groth16_backend V) BN254 (prover_Verify P) enc"
    and d: "task_data L c x w1 = Inr [d]" and e: "same_entry d e"
  shows "verify V e = Ret True"
proof -
  obtain p i k where files: "os_ReadFile L (ineq_file (int x) ''proof'') w1 = Inr p"
      "os_ReadFile L (ineq_file (int x) ''pub'') w1 = Inr i"
      "os_ReadFile L (ineq_file (int x) ''vk'') w1 = Inr k"
    and ok: "verifyGroth16ProofBN254 (groth16_backend V) p i k = Ret True"
    using generated_accepted [OF gen store _ readback] by (auto simp: script_names_def accepted_files_def)
  have "d = \<lparr>vd_ProvingSystemId = Groth16Bn254, vd_Proof = gs_of p, vd_PubInput = gs_of i,
      vd_VerificationKey = gs_of k, vd_VmProgramCode = gs_of []\<rparr>"
    using d task_data_of_files [OF system _ generated_files [OF x] files] by (simp add: ps_defs)
  then show ?thesis using e ok by (simp add: same_entry_def verify_def Let_def ps_defs)
qed

subsection \<open>Properties\<close>

definition sum_check :: "bytes32 \<Rightarrow> u32 \<Rightarrow> NonSignerStakesAndSignature \<Rightarrow> (QuorumStakeTotals \<times> bytes32) result" where
  "sum_check r blk sig = Inr (example_totals 67, [])"

text \<open>A chain whose transactions are executed when they are sent.\<close>

definition instant_chain ::
  "(storage \<times> chain_event list, NonSignerStakesAndSignature, bool) eth_backend" where
  "instant_chain = \<lparr>RespondToTask = \<lambda>opts root sig (st, log).
       if NoSend opts then ((st, log), Inr \<lparr>Gas = 1, Hash = root\<rparr>)
       else (case respondToTask sum_check root sig st of
          Inl e \<Rightarrow> ((st, log), Inr \<lparr>Gas = 1, Hash = root\<rparr>)
        | Inr (st', ev) \<Rightarrow> ((st', log @ ev), Inr \<lparr>Gas = 1, Hash = root\<rparr>)),
     CreateNewTask = \<lambda>opts r p w. (w, Inl ''unused''), TransactionReceipt = \<lambda>h w. (w, Inr True),
     Sleep = \<lambda>d w. w, HashString = hex_encode\<rparr>"

definition chain_env :: "(nat, unit, unit, storage \<times> chain_event list, bool) agg_env" where
  "chain_env = \<lparr>env_init = \<lambda>b i blk q t d. (b, None), env_process = \<lambda>b i r sg oid. (b, None),
     env_BigInt = int, env_client = instant_chain, env_opts = \<lparr>NoSend = False, GasLimit = 0\<rparr>,
     env_moves = chain_moves sum_check\<rparr>"

lemma instant_chain_runs: "runs_on_contract sum_check (\<lambda>w. w) instant_chain"
  by (auto simp: runs_on_contract_def instant_chain_def split: prod.splits sum.splits
      intro!: chain_moves_step chain_step.respond)




text \<open>C10: From the sender's files to the operator's signature: when the task sender returned the
  root and the address of an uploaded batch, an operator that downloads that object within its
  limit judges one entry with the sender's proving system and bytes, and its step for the
  announcement hands out its signature of that root exactly when this entry verifies.\<close>

theorem sent_task_is_judged_by_its_proof:
  assumes "getAndUploadProofData L' c x w = (w', Ret (Inr (root, pointer)))"
  shows "\<exists>d body. task_data L' c x w = Inr [d] \<and> root = Sum256 L' body
    \<and> (\<forall>growcap. \<exists>e. same_entry d e
        \<and> (\<forall>V L oper http s s'. serves http pointer body (MaxBatchSize (op_Section (op_Config oper)))
             \<longrightarrow> op_step growcap V L oper s (Some (NewBatchEvent http root pointer)) s'
             \<longrightarrow> dispatched s' =
                   (if verify V e = Ret True then dispatched s @ [signed_response L oper root]
                    else dispatched s)))"
proof -
  obtain d body where d: "task_data L' c x w = Inr [d]" and body: "Marshal_batch [d] = Inr body"
    and root: "root = Sum256 L' body" using uploaded_task [OF assms] by blast
  have "\<exists>e. same_entry d e \<and> (\<forall>V L oper http s s'.
      serves http pointer body (MaxBatchSize (op_Section (op_Config oper)))
      \<longrightarrow> op_step growcap V L oper s (Some (NewBatchEvent http root pointer)) s'
      \<longrightarrow> dispatched s' = (if verify V e = Ret True then dispatched s @ [signed_response L oper root]
                    else dispatched s))" for growcap
  proof -
    obtain e where e: "Unmarshal_batch growcap body = Inr [e]" "same_entry d e"
      using Unmarshal_Marshal [OF body, of growcap] by (auto simp: list_all2_Cons1)
    show ?thesis
      by (intro exI [of _ e] conjI allI impI, rule e(2), rule entry_judged [OF e(1)])
  qed
  with d root show ?thesis by blast
qed

theorem sent_task_is_judged_by_its_proof_witness:
  "\<exists>d body. task_data example_sender_lib (example_cli '' sp1'' 1) 0 0 = Inr [d]
     \<and> [9] = Sum256 example_sender_lib body \<and> (\<exists>e. same_entry d e)"
  using sent_task_is_judged_by_its_proof [OF example_upload, of 1 0] by blast

text \<open>C11: The endless task sender from end to end: when gnark reads back what it wrote and the files
  keep what is written, a round that returned nil put an object in the bucket and created a task
  with its address, and every operator that downloads that object within its limit signs the
  root of the task: no round sends a batch that honest operators refuse.\<close>

theorem infinite_round_is_signed:
  assumes "infinite_round env S L P c x w = (w', Ret None)" and "0 < x"
    and "ParseProvingSystem (cli_String c ''proving-system'') = Inr Groth16Bn254"
    and "file_store (os_ReadFile L) (script_names (int x)) P enc"
    and "reads_back G BN254 (prover_Verify P) enc"
  shows "\<exists>body root pointer svc bucket writer w1 w2.
    PutObject L svc bucket (hex_encode root @ ''.json'') body w1 = (w2, None)
    \<and> pointer = ''https://storage.alignedlayer.com/'' @ hex_encode root @ ''.json''
    \<and> SendTask (sender_backend L writer) (GetTxOpts L (writer_Signer writer)) root pointer w2 = (w', None)
    \<and> (\<forall>growcap V B oper http s s'. groth16_backend V = G
         \<longrightarrow> serves http pointer body (MaxBatchSize (op_Section (op_Config oper)))
         \<longrightarrow> op_step growcap V B oper s (Some (NewBatchEvent http root pointer)) s'
         \<longrightarrow> dispatched s' = dispatched s @ [signed_response B oper root])"
proof -
  obtain w1 where gen: "GenerateIneqProof P (int x) w = (w1, Ret ())"
    and main: "taskSenderMain env S L c [x] w1 = (w', Ret None)"
    using assms(1) by (auto simp: infinite_round_def go_simps)
  obtain writer root pointer w2 where up: "getAndUploadProofData L c x w1 = (w2, Ret (Inr (root, pointer)))"
    and sent: "SendTask (sender_backend L writer) (GetTxOpts L (writer_Signer writer)) root pointer w2
      = (w', None)"
    using taskSenderMain_sent [OF main] by auto
  obtain d body svc bucket where d: "task_data L c x w1 = Inr [d]" and body: "Marshal_batch [d] = Inr body"
    and pointer: "pointer = ''https://storage.alignedlayer.com/'' @ hex_encode root @ ''.json''"
    and put: "PutObject L svc bucket (hex_encode root @ ''.json'') body w1 = (w2, None)"
    using uploaded_task [OF up] by blast
  show ?thesis
  proof (intro exI conjI allI impI)
    show "PutObject L svc bucket (hex_encode root @ ''.json'') body w1 = (w2, None)" by (rule put)
    show "pointer = ''https://storage.alignedlayer.com/'' @ hex_encode root @ ''.json''" by (rule pointer)
    show "SendTask (sender_backend L writer) (GetTxOpts L (writer_Signer writer)) root pointer w2
      = (w', None)" by (rule sent)
  next
    fix growcap V B oper http s s'
    assume V: "groth16_backend V = G"
      and serves: "serves http pointer body (MaxBatchSize (op_Section (op_Config oper)))"
      and step: "op_step growcap V B oper s (Some (NewBatchEvent http root pointer)) s'"
    obtain e where e: "Unmarshal_batch growcap body = Inr [e]" "same_entry d e"
      using Unmarshal_Marshal [OF body, of growcap] by (auto simp: list_all2_Cons1)
    have "verify V e = Ret True"
      by (rule generated_entry_verifies [OF gen assms(2-4) _ d e(2)]) (simp add: V assms(5))
    with entry_judged [OF e(1) serves step]
    show "dispatched s' = dispatched s @ [signed_response B oper root]" by simp
  qed
qed

text \<open>A sender whose world is the files, with a bucket that takes everything.\<close>

definition file_backend :: "(toy_files, unit, unit) eth_backend" where
  "file_backend = \<lparr>RespondToTask = \<lambda>opts r s w. (w, Inl ''unused''),
     CreateNewTask = \<lambda>opts r p w. (w, Inr \<lparr>Gas = 1, Hash = r\<rparr>),
     TransactionReceipt = \<lambda>h w. (w, Inr ()), Sleep = \<lambda>d w. w, HashString = hex_encode\<rparr>"

definition file_sender :: "(nat, toy_files, unit, unit) sender_lib" where
  "file_sender = \<lparr>sender_backend = \<lambda>writer. file_backend,
     GetTxOpts = \<lambda>s. \<lparr>NoSend = False, GasLimit = 0\<rparr>, os_ReadFile = toy_read,
     Sum256 = \<lambda>b. [9], godotenv_Load = \<lambda>f w. Inr (\<lambda>v. ''set''),
     s3_NewSession = \<lambda>r a s. Inr 5, PutObject = \<lambda>svc bucket key body w. (w, None),
     time_Sleep = \<lambda>d w. w\<rparr>"

lemma file_round:
  "\<exists>w'. infinite_round example_env example_sdk file_sender toy_groth16
     (example_cli ''groth16_bn254'' 1) 1 Map.empty = (w', Ret None)"
proof -
  obtain w1 where gen: "GenerateIneqProof toy_groth16 1 Map.empty = (w1, Ret ())"
    using toy_runs(1) by blast
  have c: "cli_String (example_cli ''groth16_bn254'' 1) f = ''groth16_bn254''" for f
    by (simp add: example_cli_def)
  obtain cfg where cfg: "NewTaskSenderConfig example_env ''groth16_bn254'' = Ret cfg"
    using example_config by blast
  obtain writer where wr: "NewAvsWriterFromConfig example_sdk (ts_BaseConfig cfg) (ts_EcdsaConfig cfg)
      = Inr writer" using example_writer by blast
  have "accepted_files toy_read w1 (verifyGroth16ProofBN254 toy_gnark)
      (ineq_file 1 ''proof'') (ineq_file 1 ''vk'') (ineq_file 1 ''pub'')"
    by (rule generated_accepted [OF gen toy_stores(1) [of "script_names 1"] _ toy_reads_back(1)]) (simp add: script_names_def)
  then obtain p i k where files: "toy_read (ineq_file 1 ''proof'') w1 = Inr p"
    "toy_read (ineq_file 1 ''pub'') w1 = Inr i" "toy_read (ineq_file 1 ''vk'') w1 = Inr k"
    by (auto simp: accepted_files_def)
  let ?d = "\<lparr>vd_ProvingSystemId = Groth16Bn254, vd_Proof = gs_of p, vd_PubInput = gs_of i,
    vd_VerificationKey = gs_of k, vd_VmProgramCode = gs_of []\<rparr>"
  have d: "task_data file_sender (example_cli ''groth16_bn254'' 1) 1 w1 = Inr [?d]"
    by (rule task_data_of_files [OF _ _ generated_files])
      (use files in \<open>simp_all add: c trim_groth16 ps_defs file_sender_def\<close>)
  obtain body where body: "Marshal_batch [?d] = Inr body"
    by (simp add: Marshal_batch_def Marshal_entry_def ProvingSystemId_MarshalJSON_def
        ProvingSystemIdToString_def ps_defs)
  have put: "uploadObjectToS3 file_sender b [9] u
      = (u, Ret (Inr (''https://storage.alignedlayer.com/'' @ hex_encode [9] @ ''.json'')))" for b u
    by (simp add: uploadObjectToS3_def file_sender_def Let_def)
  have sum: "Sum256 file_sender b = [9]" for b by (simp add: file_sender_def)
  have up: "getAndUploadProofData file_sender (example_cli ''groth16_bn254'' 1) 1 w1
      = (w1, Ret (Inr ([9], ''https://storage.alignedlayer.com/'' @ hex_encode [9] @ ''.json'')))"
    by (simp add: getAndUploadProofData_def or_return_def sbind_def sret_def d body put sum Let_def
        del: One_nat_def)
  have send: "SendTask (sender_backend file_sender wr) opts r p u = (u, None)" for wr opts r p u
    by (simp add: SendTask_def file_sender_def file_backend_def
        WaitForTransactionReceipt_def maxRetries_def numeral_eq_Suc)
  show ?thesis
    by (simp add: infinite_round_def sbind_def gen taskSenderMain_def pure_go_def c cfg wr up
        TaskSender_SendTask_def send del: One_nat_def)
qed

theorem infinite_round_is_signed_witness:
  "\<exists>w'. infinite_round example_env example_sdk file_sender toy_groth16
       (example_cli ''groth16_bn254'' 1) 1 Map.empty = (w', Ret None)
   \<and> (\<exists>body root pointer svc bucket writer w1 w2.
    PutObject file_sender svc bucket (hex_encode root @ ''.json'') body w1 = (w2, None)
    \<and> pointer = ''https://storage.alignedlayer.com/'' @ hex_encode root @ ''.json''
    \<and> SendTask (sender_backend file_sender writer) (GetTxOpts file_sender (writer_Signer writer)) root pointer w2
        = (w', None)
    \<and> (\<forall>growcap V B (oper :: (nat, nat) operator) http s s'. groth16_backend V = toy_gnark
         \<longrightarrow> serves http pointer body (MaxBatchSize (op_Section (op_Config oper)))
         \<longrightarrow> op_step growcap V (B :: (nat, bytes32) bls_lib) oper s (Some (NewBatchEvent http root pointer)) s'
         \<longrightarrow> dispatched s' = dispatched s @ [signed_response B oper root]))"
proof -
  obtain w' where run: "infinite_round example_env example_sdk file_sender toy_groth16
     (example_cli ''groth16_bn254'' 1) 1 Map.empty = (w', Ret None)" using file_round by blast
  have p: "ParseProvingSystem (cli_String (example_cli ''groth16_bn254'' 1) ''proving-system'')
      = Inr Groth16Bn254" by (simp add: example_cli_def trim_groth16)
  have f: "file_store (os_ReadFile file_sender) (script_names (int 1)) toy_groth16 toy_encoders"
    by (simp add: file_sender_def toy_stores)
  show ?thesis
    by (rule exI [of _ w'], rule conjI [OF run],
        rule infinite_round_is_signed [OF run _ p f toy_reads_back(1)]) simp
qed

end
