(* ===== verification/Agg_Refinement.thy ===== *)
theory Agg_Refinement
  imports Agg_Concurrent
begin

text \<open>
  The handlers as they are written, one after the other, against the goroutines: theories
  \<open>Agg_Server\<close> and \<open>Agg_Response\<close> model the RPC method and the answer to the BLS service as
  functions, in the order of the code; \<open>Agg_Concurrent\<close> cuts them into steps that interleave.
  Every result of the functions is reached by such steps, so that the functions' theorems speak
  of runs of the process.
\<close>

subsection \<open>The state of one goroutine\<close>

definition put ::
  "nat \<Rightarrow> ('f, 's) goroutine \<Rightarrow> 'b aggregator \<Rightarrow> 'w \<Rightarrow> ('f, 's, 'b, 'w) agg_run \<Rightarrow> ('f, 's, 'b, 'w) agg_run" where
  "put i g a w s = s\<lparr>shared := a, world := w, goroutines := (goroutines s)[i := g]\<rparr>"

lemma put_simps [simp]:
  "shared (put i g a w s) = a" "world (put i g a w s) = w" "exited (put i g a w s) = exited s"
  "length (goroutines (put i g a w s)) = length (goroutines s)"
  "i < length (goroutines s) \<Longrightarrow> goroutines (put i g a w s) ! i = g"
  by (simp_all add: put_def)

lemma put_put [simp]:
  "goto i g' (put i g a w s) = put i g' a w s"
  "put i g a w s\<lparr>shared := a'\<rparr> = put i g a' w s" "put i g a w s\<lparr>world := w'\<rparr> = put i g a w' s"
  by (simp_all add: put_def goto_def)

lemma put_self: "i < length (goroutines s) \<Longrightarrow> put i (goroutines s ! i) (shared s) (world s) s = s"
  by (simp add: put_def)

lemma free_same [simp]:
  "\<not> taskMutex a \<Longrightarrow> a\<lparr>taskMutex := False\<rparr> = a" "\<not> walletMutex a \<Longrightarrow> a\<lparr>walletMutex := False\<rparr> = a"
  by (cases a; simp)+

subsection \<open>The answer to the BLS service\<close>

text \<open>What the handler's sleeping does to the world is something the world may do.\<close>

definition sleep_moves :: "('f, 's, 'b, 'w, 'r) agg_env \<Rightarrow> bool" where
  "sleep_moves E \<longleftrightarrow> (\<forall>d w. env_moves E w (Sleep (env_client E) d w))"

lemma asleep:
  "sleep_moves E \<Longrightarrow> exited s = None \<Longrightarrow>
     agg_step E (put i g a w s) (put i g a (Sleep (env_client E) d w) s)"
  using agg_step.world_moves [of "put i g a w s" E "Sleep (env_client E) d w"]
  by (simp add: sleep_moves_def)

lemma receipt_run:
  assumes "sleep_moves E" "exited s = None" "i < length (goroutines s)"
    and "receipt_loop (env_client E) h m w = (w', res)"
  shows "agg_reaches E (put i (Awaiting idx root sig k h m) a w s)
    (case res of Some rc \<Rightarrow> put i (Handled Responded) (IncAggregatedResponses a) w' s
     | None \<Rightarrow> put i (Awaiting idx root sig k h 0) a w' s)"
  using assms(4)
proof (induction m arbitrary: w)
  case (Suc m)
  let ?s = "put i (Awaiting idx root sig k h (Suc m)) a w s"
  obtain w1 r where poll: "TransactionReceipt (env_client E) h w = (w1, r)" by fastforce
  show ?case
  proof (cases r)
    case (Inl err)
    have 1: "agg_step E ?s (put i (Awaiting idx root sig k h m) a w1 s)"
      using agg_step.poll_failed [of ?s i idx root sig k h m E w1 err] poll Inl assms(2,3) by simp
    have 2: "agg_step E (put i (Awaiting idx root sig k h m) a w1 s)
        (put i (Awaiting idx root sig k h m) a (Sleep (env_client E) sleepTime w1) s)"
      by (rule asleep [OF assms(1,2)])
    have "receipt_loop (env_client E) h m (Sleep (env_client E) sleepTime w1) = (w', res)"
      using Suc.prems poll Inl by simp
    from converse_rtranclp_into_rtranclp [OF 1 converse_rtranclp_into_rtranclp [OF 2 Suc.IH [OF this]]]
    show ?thesis .
  next
    case (Inr rc)
    have "agg_step E ?s (put i (Handled Responded) (IncAggregatedResponses a) w1 s)"
      using agg_step.receipt [of ?s i idx root sig k h m E w1 rc] poll Inr assms(2,3) by simp
    then show ?thesis using Suc.prems poll Inr by auto
  qed
qed simp

lemma try_run:
  assumes "sleep_moves E" "exited s = None" "i < length (goroutines s)" "\<not> walletMutex a"
    and "try_send (env_client E) (env_opts E) root sig (a, w) = ((a', w'), res)"
  shows "agg_reaches E (put i (Sending idx root sig (Suc k)) a w s)
    (put i (case res of Some rc \<Rightarrow> Handled Responded | None \<Rightarrow> Sending idx root sig k) a' w' s)"
proof -
  let ?s = "put i (Sending idx root sig (Suc k)) a w s"
  let ?t = "put i (InWallet idx root sig k) (lock_wallet a) w s"
  have 1: "agg_step E ?s ?t"
    using agg_step.wallet_lock [of ?s i idx root sig k E] assms(2-4) by simp
  obtain w1 r where send: "SendAggregatedResponse (env_client E) (env_opts E) root sig w = (w1, r)"
    by fastforce
  show ?thesis
  proof (cases r)
    case (Inl err)
    have "agg_step E ?t (put i (Sending idx root sig k) a w1 s)"
      using agg_step.send_failed [of ?t i idx root sig k E w1 err] send Inl assms(2-4) by simp
    with 1 show ?thesis using assms(4,5) send Inl by (auto simp: try_send_def)
  next
    case (Inr h)
    let ?u = "put i (Awaiting idx root sig k h maxRetries) a w1 s"
    have 2: "agg_step E ?t ?u"
      using agg_step.sent [of ?t i idx root sig k E w1 h] send Inr assms(2-4) by simp
    obtain w2 q where wait: "receipt_loop (env_client E) h maxRetries w1 = (w2, q)" by fastforce
    from receipt_run [OF assms(1-3) wait]
    have 3: "agg_reaches E ?u (case q of Some rc \<Rightarrow> put i (Handled Responded) (IncAggregatedResponses a) w2 s
     | None \<Rightarrow> put i (Awaiting idx root sig k h 0) a w2 s)" .
    show ?thesis
    proof (cases q)
      case None
      have "agg_step E (put i (Awaiting idx root sig k h 0) a w2 s) (put i (Sending idx root sig k) a w2 s)"
        using agg_step.no_receipt [of "put i (Awaiting idx root sig k h 0) a w2 s" i idx root sig k h E]
          assms(2,3) by simp
      with 1 2 3 None show ?thesis
        using assms(4,5) send Inr wait
        by (auto simp: try_send_def WaitForTransactionReceipt_def)
    next
      case (Some rc)
      with 1 2 3 show ?thesis
        using assms(4,5) send Inr wait
        by (auto simp: try_send_def WaitForTransactionReceipt_def)
    qed
  qed
qed

lemma respond_run:
  assumes "sleep_moves E" "exited s = None" "i < length (goroutines s)" "\<not> walletMutex a"
    and "respond_loop (env_client E) (env_opts E) root sig n (a, w) = Ret ((a', w'), res)"
  shows "agg_reaches E (put i (Sending idx root sig n) a w s)
    (put i (Handled (case res of Some rc \<Rightarrow> Responded | None \<Rightarrow> BatchLost)) a' w' s)"
  using assms(4,5)
proof (induction n arbitrary: a w)
  case 0
  then show ?case
    using agg_step.batch_lost [of "put i (Sending idx root sig 0) a w s" i idx root sig E] assms(2,3) by simp
next
  case (Suc n)
  obtain a1 w1 r where t: "try_send (env_client E) (env_opts E) root sig (a, w) = ((a1, w1), r)"
    by (metis prod.exhaust)
  note 1 = try_run [OF assms(1-3) Suc.prems(1) t, of idx n]
  show ?case
  proof (cases r)
    case (Some rc)
    then have "a1 = a'" "w1 = w'" "res = Some rc"
      using Suc.prems(2) t by (simp_all add: respond_loop_Suc)
    with 1 Some show ?thesis by simp
  next
    case None
    let ?w = "Sleep (env_client E) response_sleep w1"
    have 2: "agg_step E (put i (Sending idx root sig n) a1 w1 s) (put i (Sending idx root sig n) a1 ?w s)"
      by (rule asleep [OF assms(1,2)])
    have "\<not> walletMutex a1" using try_send_frame [OF t] by simp
    moreover have "respond_loop (env_client E) (env_opts E) root sig n (a1, ?w) = Ret ((a', w'), res)"
      using Suc.prems(2) t None by (simp add: respond_loop_Suc)
    ultimately have 3: "agg_reaches E (put i (Sending idx root sig n) a1 ?w s)
        (put i (Handled (case res of Some rc \<Rightarrow> Responded | None \<Rightarrow> BatchLost)) a' w' s)"
      by (rule Suc.IH)
    from rtranclp_trans [OF _ converse_rtranclp_into_rtranclp [OF 2 3]] 1 None show ?thesis by simp
  qed
qed

lemma handler_run:
  assumes "sleep_moves E" "at i s (Handling resp)" "\<not> taskMutex (shared s)" "\<not> walletMutex (shared s)"
    and "handleBlsAggServiceResponse (env_BigInt E) (env_client E) (env_opts E) resp (shared s, world s)
      = Ret ((a, w), outcome)"
  shows "agg_reaches E s (put i (Handled outcome) a w s)"
proof (cases "resp_Err resp")
  case (Some err)
  then have "outcome = ServiceError" "a = shared s" "w = world s"
    using assms(5) by (simp_all add: handleBlsAggServiceResponse_def)
  moreover have "put i (Handled ServiceError) (shared s) (world s) s = goto i (Handled ServiceError) s"
    by (simp add: put_def goto_def)
  ultimately show ?thesis using agg_step.service_error [OF assms(2) Some, of E] by simp
next
  case None
  let ?root = "case batchesRootByIdx (shared s) (TaskIndex resp) of Some r \<Rightarrow> r | None \<Rightarrow> zero_root"
  let ?sig = "to_signature (env_BigInt E) resp"
  have 1: "agg_step E s (put i (Sending (TaskIndex resp) ?root ?sig MaxSentTxRetries) (shared s) (world s) s)"
    using agg_step.root_lookup [OF assms(2) None assms(3), of E] by (simp add: put_def goto_def)
  obtain res where "respond_loop (env_client E) (env_opts E) ?root ?sig MaxSentTxRetries (shared s, world s)
        = Ret ((a, w), res)" and o: "outcome = (case res of Some rc \<Rightarrow> Responded | None \<Rightarrow> BatchLost)"
    using assms(3,5) None
    by (auto simp: handleBlsAggServiceResponse_def lock_tasks_def unlock_tasks_def Let_def go_simps)
  from converse_rtranclp_into_rtranclp [OF 1 respond_run [OF assms(1) _ _ assms(4) this(1)]] assms(2)
  show ?thesis unfolding o by simp
qed

subsection \<open>The RPC method\<close>

text \<open>What the function calls the effect of a pause is something the other goroutines can do.\<close>

definition others_can ::
  "('f, 's, 'b, 'w, 'r) agg_env \<Rightarrow> nat \<Rightarrow> (nat \<Rightarrow> 'b aggregator \<Rightarrow> 'b aggregator) \<Rightarrow> bool" where
  "others_can E i sleep \<longleftrightarrow>
     (\<forall>d s g. at i s g \<longrightarrow> \<not> taskMutex (shared s) \<longrightarrow>
       (\<exists>s'. agg_reaches E s s' \<and> at i s' g \<and> shared s' = sleep d (shared s) \<and> \<not> taskMutex (shared s')))"

lemma wait_run:
  assumes "others_can E i sleep"
    and "at i s (RpcLookup resp n)" "\<not> taskMutex (shared s)"
    and "wait_for_task sleep (BatchMerkleRoot resp) n (shared s) = Ret (a, found)"
  shows "\<exists>s'. agg_reaches E s s' \<and> shared s' = a
    \<and> at i s' (case found of None \<Rightarrow> RpcLookup resp 0 | Some idx \<Rightarrow> RpcProcessing resp idx False)"
  using assms(2-4)
proof (induction n arbitrary: s)
  case (Suc n)
  show ?case
  proof (cases "batchesIdxByRoot (shared s) (BatchMerkleRoot resp)")
    case None
    let ?s = "goto i (RpcLookup resp n) s"
    have 1: "agg_step E s ?s" using agg_step.rpc_unknown [OF Suc.prems(1,2) None, of E] .
    have "at i ?s (RpcLookup resp n)" "\<not> taskMutex (shared ?s)" using Suc.prems(1,2) by auto
    then obtain t where 2: "agg_reaches E ?s t" and t: "at i t (RpcLookup resp n)"
      "shared t = sleep waitForEventSleepSeconds (shared ?s)" "\<not> taskMutex (shared t)"
      using assms(1) unfolding others_can_def by blast
    have "wait_for_task sleep (BatchMerkleRoot resp) n (shared t) = Ret (a, found)"
      using Suc.prems(2,3) None t(2) by (simp add: wait_for_task_Suc lookup_attempt_def)
    from Suc.IH [OF t(1,3) this] obtain u where "agg_reaches E t u" and u: "shared u = a"
      "at i u (case found of None \<Rightarrow> RpcLookup resp 0 | Some idx \<Rightarrow> RpcProcessing resp idx False)"
      by blast
    from rtranclp_trans [OF converse_rtranclp_into_rtranclp [OF 1 2] this(1)] u show ?thesis
      by (intro exI [of _ u] conjI) simp_all
  next
    case (Some idx)
    let ?s = "goto i (RpcProcessing resp idx False) (s\<lparr>shared := lock_tasks (shared s)\<rparr>)"
    have "agg_step E s ?s" using agg_step.rpc_found [OF Suc.prems(1,2) Some, of E] .
    moreover have "a = shared ?s" "found = Some idx"
      using Suc.prems(3) Some by (simp_all add: wait_for_task_Suc lookup_attempt_def lock_tasks_def)
    ultimately show ?thesis using Suc.prems(1) by (intro exI [of _ ?s]) auto
  qed
qed auto

lemma wait_for_task_locked:
  "wait_for_task sleep root n a = Ret (a', Some idx) \<Longrightarrow> taskMutex a'"
proof (induction n arbitrary: a)
  case (Suc n)
  then show ?case by (auto simp: wait_for_task_Suc lookup_attempt_def split: option.splits)
qed simp

text \<open>The call of the service, in time or not, and the unlocking.\<close>

lemma answer_run:
  assumes at: "at i s (RpcProcessing resp idx False)" and locked: "taskMutex (shared s)"
    and bls: "env_process E (blsAggregationService (shared s)) idx (BatchMerkleRoot resp)
      (BlsSignature resp) (OperatorId resp) = (b, err)"
  shows "\<exists>s'. agg_reaches E s s' \<and> at i s' (RpcReplied resp (if in_time then 0 else 1))
    \<and> shared s' = (if in_time then (shared s)\<lparr>blsAggregationService := b\<rparr> else shared s)\<lparr>taskMutex := False\<rparr>"
proof (cases in_time)
  case True
  let ?b = "(shared s)\<lparr>blsAggregationService := b\<rparr>"
  let ?s1 = "goto i (RpcProcessing resp idx True)
    (s\<lparr>shared := ?b, handed := (idx, BatchMerkleRoot resp) # handed s\<rparr>)"
  let ?s2 = "goto i (RpcUnlocking resp 0) ?s1"
  let ?s3 = "release (unlock_tasks ?b) (goto i (RpcReplied resp 0) ?s2)"
  have "agg_step E s ?s1" using agg_step.bls_answered [OF at bls] .
  moreover have "agg_step E ?s1 ?s2" using agg_step.rpc_done [of ?s1 i resp idx E] at by simp
  moreover have "agg_step E ?s2 ?s3" using agg_step.rpc_unlock [of ?s2 i resp 0 E] at by simp
  ultimately have "agg_reaches E s ?s3" by (meson r_into_rtranclp rtranclp_trans)
  then show ?thesis
    using at locked True by (intro exI [of _ ?s3] conjI) (auto simp: unlock_tasks_def)
next
  case False
  let ?s1 = "goto i (RpcUnlocking resp 1) (s\<lparr>goroutines := goroutines s @ [LateSignature resp idx]\<rparr>)"
  let ?s2 = "release (unlock_tasks (shared s)) (goto i (RpcReplied resp 1) ?s1)"
  have "agg_step E s ?s1" using agg_step.rpc_timeout [OF at, of E] by simp
  moreover have "agg_step E ?s1 ?s2" using agg_step.rpc_unlock [of ?s1 i resp 1 E] at by simp
  ultimately have "agg_reaches E s ?s2" by (meson r_into_rtranclp rtranclp_trans)
  then show ?thesis
    using at locked False by (intro exI [of _ ?s2] conjI) (auto simp: unlock_tasks_def)
qed

lemma reaches_onward:
  "agg_reaches E s t \<Longrightarrow> \<exists>s'. agg_reaches E t s' \<and> P s' \<Longrightarrow> \<exists>s'. agg_reaches E s s' \<and> P s'"
  by (blast intro: rtranclp_trans)

lemma rpc_run:
  assumes "others_can E i sleep"
    and "at i s (RpcLookup resp waitForEventRetries)" "\<not> taskMutex (shared s)"
    and "ProcessOperatorSignedTaskResponse sleep (env_process E) in_time resp (shared s) = Ret (a, reply)"
  shows "\<exists>s'. agg_reaches E s s' \<and> at i s' (RpcReplied resp reply) \<and> shared s' = a"
proof -
  obtain a1 found where wait:
    "wait_for_task sleep (BatchMerkleRoot resp) waitForEventRetries (shared s) = Ret (a1, found)"
    using wait_for_task_Ret by (metis prod.exhaust)
  obtain t where run: "agg_reaches E s t" and t: "shared t = a1"
      "at i t (case found of None \<Rightarrow> RpcLookup resp 0 | Some idx \<Rightarrow> RpcProcessing resp idx False)"
    using wait_run [OF assms(1-3) wait] by blast
  show ?thesis
  proof (rule reaches_onward [OF run], cases found)
    case None
    then have "a = a1" "reply = 1" using assms(4) wait by (simp_all add: ProcessOperatorSignedTaskResponse_def)
    moreover have "agg_step E t (goto i (RpcReplied resp 1) t)"
      using agg_step.rpc_lost [of t i resp E] t(2) None by simp
    ultimately show "\<exists>s'. agg_reaches E t s' \<and> at i s' (RpcReplied resp reply) \<and> shared s' = a"
      using t None by (intro exI [of _ "goto i (RpcReplied resp 1) t"] conjI) auto
  next
    case (Some idx)
    have at: "at i t (RpcProcessing resp idx False)" using t(2) Some by simp
    have locked: "taskMutex (shared t)" using wait Some wait_for_task_locked t(1) by blast
    obtain b err where bls: "env_process E (blsAggregationService (shared t)) idx (BatchMerkleRoot resp)
        (BlsSignature resp) (OperatorId resp) = (b, err)" by fastforce
    have result: "a = (if in_time then a1\<lparr>blsAggregationService := b\<rparr> else a1)\<lparr>taskMutex := False\<rparr>"
      "reply = (if in_time then 0 else 1)"
      using assms(4) wait Some bls locked t(1)
      by (auto simp: ProcessOperatorSignedTaskResponse_def unlock_tasks_def)
    show "\<exists>s'. agg_reaches E t s' \<and> at i s' (RpcReplied resp reply) \<and> shared s' = a"
      unfolding result using answer_run [OF at locked bls, of in_time] unfolding t(1) .
  qed
qed

subsection \<open>The property\<close>

text \<open>C22: The aggregator's handlers, read from top to bottom, are runs of its process: every result
  of the RPC method, with whatever the other goroutines did during its pauses, and every result of
  the handler of an answer of the BLS service is reached by the steps of the goroutine it runs in,
  with the same reply or outcome, the same caches, counters and mutexes, and the same world. What
  the invariants say of every run thus holds of the handlers' results.\<close>

theorem handlers_are_runs:
  assumes "exited s = None" "i < length (goroutines s)" "\<not> taskMutex (shared s)"
  shows "(goroutines s ! i = RpcLookup resp waitForEventRetries \<longrightarrow> others_can E i sleep
      \<longrightarrow> ProcessOperatorSignedTaskResponse sleep (env_process E) in_time resp (shared s) = Ret (a, reply)
      \<longrightarrow> (\<exists>s'. agg_reaches E s s' \<and> goroutines s' ! i = RpcReplied resp reply \<and> shared s' = a))
    \<and> (goroutines s ! i = Handling answer \<longrightarrow> sleep_moves E \<longrightarrow> \<not> walletMutex (shared s)
      \<longrightarrow> handleBlsAggServiceResponse (env_BigInt E) (env_client E) (env_opts E) answer (shared s, world s)
            = Ret ((a, w), outcome)
      \<longrightarrow> (\<exists>s'. agg_reaches E s s' \<and> goroutines s' ! i = Handled outcome \<and> shared s' = a \<and> world s' = w))"
proof (intro conjI impI)
  assume "goroutines s ! i = RpcLookup resp waitForEventRetries" "others_can E i sleep"
    "ProcessOperatorSignedTaskResponse sleep (env_process E) in_time resp (shared s) = Ret (a, reply)"
  with rpc_run [of E i sleep s resp in_time a reply] assms
  show "\<exists>s'. agg_reaches E s s' \<and> goroutines s' ! i = RpcReplied resp reply \<and> shared s' = a" by blast
next
  assume "goroutines s ! i = Handling answer" "sleep_moves E" "\<not> walletMutex (shared s)"
    "handleBlsAggServiceResponse (env_BigInt E) (env_client E) (env_opts E) answer (shared s, world s)
      = Ret ((a, w), outcome)"
  with handler_run [of E s i answer a w outcome] assms
  show "\<exists>s'. agg_reaches E s s' \<and> goroutines s' ! i = Handled outcome \<and> shared s' = a \<and> world s' = w"
    by (intro exI [of _ "put i (Handled outcome) a w s"]) simp
qed

text \<open>During the first pause the batch is announced.\<close>

definition arrival :: "nat \<Rightarrow> unit aggregator \<Rightarrow> unit aggregator" where
  "arrival d a = ret_val a (AddNewTask (env_init easy_env) [7] 3 a)"

lemma arrival_can: "others_can easy_env i arrival"
  unfolding others_can_def
proof (intro allI impI)
  fix d s g
  assume at: "at i (s :: (nat, unit, unit, nat) agg_run) g" and free: "\<not> taskMutex (shared s)"
  have "\<exists>a'. AddNewTask (env_init easy_env) [7] 3 (shared s) = Ret a'"
    by (auto simp: AddNewTask_def easy_env_def Let_def lock_tasks_def unlock_tasks_def)
  then obtain a' where a': "AddNewTask (env_init easy_env) [7] 3 (shared s) = Ret a'" by blast
  have "agg_step easy_env s (s\<lparr>shared := a'\<rparr>)"
    using new_batch [of s easy_env "[7]" 3] at free a' by simp
  then show "\<exists>s'. agg_reaches easy_env s s' \<and> at i s' g \<and> shared s' = arrival d (shared s)
      \<and> \<not> taskMutex (shared s')"
    using at a' AddNewTask_unlocks [OF a']
    by (intro exI [of _ "s\<lparr>shared := a'\<rparr>"]) (auto simp: arrival_def)
qed

lemma arrival_reply:
  "\<exists>a. ProcessOperatorSignedTaskResponse arrival (env_process easy_env) True easy_call (new_aggregator ())
     = Ret (a, 0)"
  by (simp add: ProcessOperatorSignedTaskResponse_def waitForEventRetries_def numeral_eq_Suc
      wait_for_task_Suc lookup_attempt_def new_aggregator_def easy_call_def arrival_def AddNewTask_def
      easy_env_def Let_def lock_tasks_def unlock_tasks_def)

theorem handlers_are_runs_witness:
  "\<exists>s'. agg_reaches easy_env
       ((agg_start () 0)\<lparr>goroutines := [RpcLookup easy_call waitForEventRetries]\<rparr>) s'
     \<and> goroutines s' ! 0 = RpcReplied easy_call 0"
proof -
  let ?s = "(agg_start () 0 :: (nat, unit, unit, nat) agg_run)
    \<lparr>goroutines := [RpcLookup easy_call waitForEventRetries]\<rparr>"
  obtain a where r: "ProcessOperatorSignedTaskResponse arrival (env_process easy_env) True easy_call
      (shared ?s) = Ret (a, 0)" using arrival_reply by (auto simp: agg_start_def)
  have "exited ?s = None" "0 < length (goroutines ?s)" "\<not> taskMutex (shared ?s)"
    by (simp_all add: agg_start_def new_aggregator_def)
  from handlers_are_runs [OF this, THEN conjunct1, rule_format, OF _ arrival_can r]
  show ?thesis by auto
qed

end
