(* ===== verification/Delivery.thy ===== *)
theory Delivery
  imports Operator Agg_Server
begin

text \<open>
  From the operator to the aggregator: the operator's RPC client (theory \<open>Rpc_Client\<close>) on a
  network whose other end is the aggregator's RPC method (theory \<open>Agg_Server\<close>). The state of the
  world of the client is the aggregator's state.
\<close>

subsection \<open>The network\<close>

text \<open>
  A call that came back with a reply was served by the method, in time for the service or not. One
  that came back with an error was not served, or was served and its reply lost. While the client
  dials or sleeps, the other goroutines of the aggregator keep the caches inverse to each other.
\<close>

definition served ::
  "(nat \<Rightarrow> 'b aggregator \<Rightarrow> 'b aggregator) \<Rightarrow> ('b, 's) process_signature \<Rightarrow> 's SignedTaskResponse \<Rightarrow>
     'b aggregator \<Rightarrow> 'b aggregator \<Rightarrow> u8 \<Rightarrow> bool" where
  "served sleep pns resp a a' reply \<longleftrightarrow>
     (\<exists>in_time. ProcessOperatorSignedTaskResponse sleep pns in_time resp a = Ret (a', reply))"

definition aggregator_network ::
  "(nat \<Rightarrow> 'b aggregator \<Rightarrow> 'b aggregator) \<Rightarrow> ('b, 's) process_signature \<Rightarrow>
     ('c, 's, 'b aggregator) rpc_net \<Rightarrow> bool" where
  "aggregator_network sleep pns net \<longleftrightarrow>
     (\<forall>c resp a a' r. rpc_Call net c ''Aggregator.ProcessOperatorSignedTaskResponse'' resp a = (a', r) \<longrightarrow>
        (case r of Inr reply \<Rightarrow> served sleep pns resp a a' reply
         | Inl err \<Rightarrow> a' = a \<or> (\<exists>reply. served sleep pns resp a a' reply)))
     \<and> (\<forall>p addr a. cache_inv a \<longrightarrow> cache_inv (fst (rpc_DialHTTP net p addr a)))
     \<and> (\<forall>d a. cache_inv a \<longrightarrow> cache_inv (rpc_Sleep net d a))
     \<and> (\<forall>d a. cache_inv a \<longrightarrow> cache_inv (sleep d a))"

lemma networkD:
  assumes "aggregator_network sleep pns net"
  shows "rpc_Call net c ''Aggregator.ProcessOperatorSignedTaskResponse'' resp a = (a', Inr reply)
      \<Longrightarrow> served sleep pns resp a a' reply"
    and "rpc_Call net c ''Aggregator.ProcessOperatorSignedTaskResponse'' resp a = (a', r)
      \<Longrightarrow> a' = a \<or> (\<exists>reply. served sleep pns resp a a' reply)"
    and "cache_inv a \<Longrightarrow> cache_inv (fst (rpc_DialHTTP net p addr a))"
    and "cache_inv a \<Longrightarrow> cache_inv (rpc_Sleep net d a)"
    and "cache_inv a \<Longrightarrow> cache_inv (sleep d a)"
proof -
  have call: "case r of Inr reply \<Rightarrow> served sleep pns resp a a' reply
      | Inl err \<Rightarrow> a' = a \<or> (\<exists>reply. served sleep pns resp a a' reply)"
    if "rpc_Call net c ''Aggregator.ProcessOperatorSignedTaskResponse'' resp a = (a', r)" for c resp a a' r
    using assms that unfolding aggregator_network_def by blast
  show "rpc_Call net c ''Aggregator.ProcessOperatorSignedTaskResponse'' resp a = (a', Inr reply)
      \<Longrightarrow> served sleep pns resp a a' reply" using call by fastforce
  show "rpc_Call net c ''Aggregator.ProcessOperatorSignedTaskResponse'' resp a = (a', r)
      \<Longrightarrow> a' = a \<or> (\<exists>reply. served sleep pns resp a a' reply)"
    using call [of c resp a a' r] by (cases r) auto
qed (use assms in \<open>simp_all add: aggregator_network_def\<close>)

subsection \<open>What a served call did\<close>

lemma seen_inv:
  "cache_inv a \<Longrightarrow> (\<And>d a. cache_inv a \<Longrightarrow> cache_inv (sleep d a)) \<Longrightarrow> cache_inv (seen sleep k a)"
  by (induction k) (simp_all add: seen_def)

text \<open>The signature was given to the service under the index of its root.\<close>

definition handed_over ::
  "('b, 's) process_signature \<Rightarrow> 's SignedTaskResponse \<Rightarrow> 'b aggregator \<Rightarrow> bool" where
  "handed_over pns resp a \<longleftrightarrow> (\<exists>i b. batchesRootByIdx a i = Some (BatchMerkleRoot resp)
     \<and> blsAggregationService a = fst (pns b i (BatchMerkleRoot resp) (BlsSignature resp) (OperatorId resp)))"

lemma served_result:
  assumes "cache_inv a" and net: "aggregator_network sleep pns net" and "served sleep pns resp a a' reply"
  shows "cache_inv a' \<and> (reply = 0 \<longrightarrow> handed_over pns resp a')"
proof -
  obtain in_time where P: "ProcessOperatorSignedTaskResponse sleep pns in_time resp a = Ret (a', reply)"
    using assms(3) by (auto simp: served_def)
  show ?thesis
  proof (cases rule: found_or_lost [of waitForEventRetries sleep "BatchMerkleRoot resp" a])
    case (found k i)
    have inv: "cache_inv (seen sleep k a)" by (rule seen_inv [OF assms(1) networkD(5) [OF net]])
    then have root: "batchesRootByIdx (seen sleep k a) i = Some (BatchMerkleRoot resp)"
      using found(2) agg_index.agree [OF inv] by (simp add: found_at_def)
    obtain b err where b: "pns (blsAggregationService (seen sleep k a)) i (BatchMerkleRoot resp)
        (BlsSignature resp) (OperatorId resp) = (b, err)" by fastforce
    from Process_found [where pns = pns and in_time = in_time, OF found b] P inv root b show ?thesis
      by (auto simp: handed_over_def split: if_splits
          intro!: exI [of _ i] exI [of _ "blsAggregationService (seen sleep k a)"])
  next
    case lost
    from Process_lost [OF lost, of pns in_time] P seen_inv [OF assms(1) networkD(5) [OF net]] show ?thesis by auto
  qed
qed

subsection \<open>What the client's loop did\<close>

lemma attempt_inv:
  assumes net: "aggregator_network sleep pns net" and inv: "cache_inv (snd s)"
  shows "cache_inv (snd (fst (call_attempt net resp s)))"
proof -
  let ?m = "''Aggregator.ProcessOperatorSignedTaskResponse''"
  obtain a r where call: "rpc_Call net (rpcClient (fst s)) ?m resp (snd s) = (a, r)" by fastforce
  have a: "cache_inv a"
    using networkD(2) [OF net call] served_result [OF inv net] inv by blast
  obtain v q where v: "rpc_DialHTTP net ''tcp'' (aggregatorIpPortAddr (fst s)) a = (v, q)" by fastforce
  then have "cache_inv v"
    using networkD(3) [OF net a, of "''tcp''" "aggregatorIpPortAddr (fst s)"] by simp
  with a v call show ?thesis
    by (auto simp: call_attempt_def Let_def networkD(4) [OF net] split: sum.splits rpc_error.splits)
qed

lemma replied_handed_over:
  assumes net: "aggregator_network sleep pns net" and inv: "cache_inv a"
    and sent: "SendSignedTaskResponseToAggregator net resp (c, a) = ((c', a'), Some 0)"
  shows "cache_inv a' \<and> handed_over pns resp a'"
proof -
  have "\<exists>s. cache_inv (snd s) \<and> call_attempt net resp s = ((c', a'), Some 0)"
    using sent attempt_inv [OF net]
    by (intro rpc_send.loop_found_inv [where n = rpc_MaxRetries and s = "(c, a)"])
      (auto simp: SendSignedTaskResponseToAggregator_def inv, metis fst_conv snd_conv)
  then obtain s where s: "cache_inv (snd s)" "call_attempt net resp s = ((c', a'), Some 0)" by blast
  then have "served sleep pns resp (snd s) a' 0"
    by (intro networkD(1) [OF net, of "rpcClient (fst s)"]) (simp add: call_attempt_Some)
  with served_result [OF s(1) net] show ?thesis by blast
qed

subsection \<open>The property\<close>

text \<open>C4: What the aggregation service counts is backed by verified proofs: when the RPC client of an
  operator got the reply 0 for a response its loop dispatched (in whichever of its ten calls, after
  any reconnections, lost replies and pauses), the aggregator's caches are still inverse, and the
  state of the service is the one it reached by processing this operator's signature of a root,
  under the index registered for that root, of a batch that was announced to the operator, that it
  fetched, and in which every entry verified.\<close>

theorem accepted_signature_is_backed:
  assumes "op_run growcap V L oper S es s" "resp \<in> set (dispatched s)"
    and "aggregator_network sleep pns net" "cache_inv a"
    and "SendSignedTaskResponseToAggregator net resp (c, a) = ((c', a'), Some 0)"
  shows "cache_inv a' \<and> (\<exists>http root pointer batch i b. NewBatchEvent http root pointer \<in> set es
    \<and> operator_getBatch growcap oper http pointer = Inr batch \<and> (\<forall>d\<in>set batch. verify V d = Ret True)
    \<and> batchesRootByIdx a' i = Some root
    \<and> blsAggregationService a'
        = fst (pns b i root (SignMessage L (KeyPair (op_BlsConfig (op_Config oper))) root) (op_OperatorId oper)))"
proof -
  obtain root batch where r: "fetched growcap oper es root batch" "\<forall>d\<in>set batch. verify V d = Ret True"
    "resp = signed_response L oper root"
    using op_run_inv [OF assms(1)] assms(2) unfolding op_inv_def by blast
  from replied_handed_over [OF assms(3-5)] r show ?thesis
    unfolding fetched_def handed_over_def by (simp add: signed_response_def SignTaskResponse_def) blast
qed

text \<open>A network that serves every call at once.\<close>

definition direct_net :: "('b, 's) process_signature \<Rightarrow> (nat, 's, 'b aggregator) rpc_net" where
  "direct_net pns = \<lparr>rpc_DialHTTP = \<lambda>p addr a. (a, Inr 1),
     rpc_Call = \<lambda>c m resp a. (case ProcessOperatorSignedTaskResponse (\<lambda>_ a. a) pns True resp a of
        Ret (a', reply) \<Rightarrow> (a', Inr reply) | _ \<Rightarrow> (a, Inl ErrShutdown)), rpc_Sleep = \<lambda>d a. a\<rparr>"

lemma direct_network: "aggregator_network (\<lambda>_ a. a) pns (direct_net pns)"
  by (auto simp: aggregator_network_def direct_net_def served_def split: go.splits prod.splits)

definition root_service :: "(bytes32 list, bytes32) process_signature" where
  "root_service b i root sig op = (root # b, None)"

definition known_batch :: "bytes32 list aggregator" where
  "known_batch = (new_aggregator [])\<lparr>batchesRootByIdx := [0 \<mapsto> [9]],
     batchesIdxByRoot := [[9] \<mapsto> 0], nextBatchIndex := 1\<rparr>"

lemma known_batch_inv: "cache_inv known_batch"
proof -
  have "cache_abs [[9]] known_batch"
    by (auto simp: cache_abs_def known_batch_def new_aggregator_def unat_eq_zero)
  then show ?thesis by (auto simp: cache_inv_def)
qed

theorem accepted_signature_is_backed_witness:
  "\<exists>s a'. [9] \<in> BatchMerkleRoot ` set (dispatched (s :: (nat, bytes32) operator_run))
     \<and> fst (SendSignedTaskResponseToAggregator (direct_net root_service)
         (signed_response example_bls example_operator [9]) (op_aggRpcClient example_operator, known_batch))
       = (op_aggRpcClient example_operator, a')
     \<and> cache_inv a' \<and> blsAggregationService a' = [[9]]"
proof -
  let ?r = "signed_response example_bls example_operator [9]"
  let ?a = "known_batch\<lparr>blsAggregationService := [[9]]\<rparr>"
  obtain s body where s: "op_run Suc example_verifiers example_bls example_operator example_sdk
      [NewBatchEvent (file_server body) [9] ''u''] s" "dispatched s = [?r]"
    using example_operator_run by (auto simp: example_operator_def)
  have "found_at (\<lambda>_ a. a) (BatchMerkleRoot ?r) known_batch 0 0"
    by (simp add: found_at_def seen_def known_batch_def signed_response_def)
  from Process_found [OF _ this, of root_service "[[9]]" None True]
  have served: "ProcessOperatorSignedTaskResponse (\<lambda>_ a. a) root_service True ?r known_batch = Ret (?a, 0)"
    by (simp add: waitForEventRetries_def seen_def root_service_def known_batch_def new_aggregator_def
        signed_response_def)
  have "call_attempt (direct_net root_service) ?r (op_aggRpcClient example_operator, known_batch)
      = ((op_aggRpcClient example_operator, ?a), Some 0)"
    by (simp add: call_attempt_Some direct_net_def served)
  then have sent: "SendSignedTaskResponseToAggregator (direct_net root_service) ?r
      (op_aggRpcClient example_operator, known_batch) = ((op_aggRpcClient example_operator, ?a), Some 0)"
    unfolding SendSignedTaskResponseToAggregator_def
    by (rule rpc_send.loop_first) (simp add: rpc_MaxRetries_def)
  have r: "?r \<in> set (dispatched s)" using s(2) by simp
  from accepted_signature_is_backed [OF s(1) r direct_network known_batch_inv sent]
  have "cache_inv ?a" by blast
  moreover have "[9] \<in> BatchMerkleRoot ` set (dispatched s)" by (simp add: s(2) signed_response_def)
  ultimately show ?thesis using sent by (intro exI [of _ s] exI [of _ ?a]) simp
qed

end
