(* ===== verification/Protocol.thy ===== *)
theory Protocol
  imports Operator Service_Manager
begin

text \<open>
  The protocol as a whole: any number of operators, some of which run the operator's program
  (theory \<open>Operator\<close>) and the rest of which do what they like, around the contract (theory
  \<open>Service_Manager\<close>). Everybody may create tasks and send responses, and the servers that hold
  the batches may answer every request differently, so the aggregator is just one of those who
  send responses.

  What is assumed of BLS signatures is in two places. The response step asks that the honest ones
  among an aggregate's signers dispatched a signature of that root (nobody else can make it), and
  \<open>sound_checks\<close> says of the contract's \<open>checkSignatures\<close> that the stake it reports as signed is
  owned by the signers, and that the total is the stake of all members at the batch's block.
\<close>

subsection \<open>The parties\<close>

record ('i, 'p, 'w, 'k, 'h, 's, 'c, 'n) parties =
  members :: "'i set"
  honest :: "'i set"
  stake :: "u32 \<Rightarrow> 'i \<Rightarrow> nat"
  operator_of :: "'i \<Rightarrow> ('h, 'c) operator"
  verifiers_of :: "'i \<Rightarrow> ('p, 'w, 'k) verifiers"
  bls_of :: "('h, 's) bls_lib"
  sdk_of :: "'i \<Rightarrow> 'h sdk"
  growth :: "nat \<Rightarrow> nat"
  checkSignatures :: "bytes32 \<Rightarrow> u32 \<Rightarrow> 'n \<Rightarrow> (QuorumStakeTotals \<times> bytes32) result"
  signers :: "bytes32 \<Rightarrow> 'n \<Rightarrow> 'i set"

definition owned :: "('i, 'p, 'w, 'k, 'h, 's, 'c, 'n) parties \<Rightarrow> u32 \<Rightarrow> 'i set \<Rightarrow> nat" where
  "owned P blk A = (\<Sum>i\<in>A. stake P blk i)"

definition sound_checks :: "('i, 'p, 'w, 'k, 'h, 's, 'c, 'n) parties \<Rightarrow> bool" where
  "sound_checks P \<longleftrightarrow> finite (members P)
     \<and> (\<forall>r blk sig t hsh. checkSignatures P r blk sig = Inr (t, hsh) \<longrightarrow>
          signers P r sig \<subseteq> members P
          \<and> (signedStakeForQuorum t \<noteq> [] \<longrightarrow>
               unat (hd (signedStakeForQuorum t)) \<le> owned P blk (signers P r sig))
          \<and> (totalStakeForQuorum t \<noteq> [] \<longrightarrow>
               unat (hd (totalStakeForQuorum t)) = owned P blk (members P)))"

subsection \<open>Runs\<close>

text \<open>The contract's storage and log, the honest operators' programs, and what each has handled.\<close>

record ('i, 'h, 's) protocol_state =
  contract_storage :: storage
  contract_log :: "chain_event list"
  programs :: "'i \<Rightarrow> ('h, 's) operator_run"
  handled :: "'i \<Rightarrow> 'h op_event list"

definition dispatched_root :: "('i, 'h, 's) protocol_state \<Rightarrow> 'i \<Rightarrow> bytes32 \<Rightarrow> bool" where
  "dispatched_root s i r \<longleftrightarrow> r \<in> BatchMerkleRoot ` set (dispatched (programs s i))"

text \<open>The events of the contract are the only announcements an operator gets.\<close>

fun announced :: "chain_event list \<Rightarrow> 'h op_event \<Rightarrow> bool" where
  "announced log (NewBatchEvent http root pointer) \<longleftrightarrow> (\<exists>blk. NewBatch root blk pointer \<in> set log)"
| "announced log _ \<longleftrightarrow> True"

inductive protocol_step ::
  "('i, 'p, 'w, 'k, 'h, 's, 'c, 'n) parties \<Rightarrow> ('i, 'h, 's) protocol_state \<Rightarrow>
     ('i, 'h, 's) protocol_state \<Rightarrow> bool" for P where
  create: "createNewTask n r p (contract_storage s) = Inr (st, ev) \<Longrightarrow>
    protocol_step P s (s\<lparr>contract_storage := st, contract_log := contract_log s @ ev\<rparr>)"
| respond: "respondToTask (checkSignatures P) r sig (contract_storage s) = Inr (st, ev) \<Longrightarrow>
    (\<And>i. i \<in> signers P r sig \<Longrightarrow> i \<in> honest P \<Longrightarrow> dispatched_root s i r) \<Longrightarrow>
    protocol_step P s (s\<lparr>contract_storage := st, contract_log := contract_log s @ ev\<rparr>)"
| wake: "i \<in> honest P \<Longrightarrow> announced (contract_log s) e \<Longrightarrow>
    op_step (growth P) (verifiers_of P i) (bls_of P) (operator_of P i) (programs s i) (Some e) o' \<Longrightarrow>
    protocol_step P s (s\<lparr>programs := (programs s)(i := o'), handled := (handled s)(i := handled s i @ [e])\<rparr>)"
| background: "i \<in> honest P \<Longrightarrow>
    op_step (growth P) (verifiers_of P i) (bls_of P) (operator_of P i) (programs s i) None o' \<Longrightarrow>
    protocol_step P s (s\<lparr>programs := (programs s)(i := o')\<rparr>)"

definition protocol_start :: "('i, 'p, 'w, 'k, 'h, 's, 'c, 'n) parties \<Rightarrow> ('i, 'h, 's) protocol_state" where
  "protocol_start P = \<lparr>contract_storage = empty_storage, contract_log = [],
     programs = (\<lambda>i. operator_start (sdk_of P i) (operator_of P i)), handled = (\<lambda>i. [])\<rparr>"

abbreviation protocol_reaches ::
  "('i, 'p, 'w, 'k, 'h, 's, 'c, 'n) parties \<Rightarrow> ('i, 'h, 's) protocol_state \<Rightarrow> bool" where
  "protocol_reaches P \<equiv> (protocol_step P)\<^sup>*\<^sup>* (protocol_start P)"

subsection \<open>What every run keeps\<close>

text \<open>An operator has verified what it downloaded for a root.\<close>

definition has_verified ::
  "('i, 'p, 'w, 'k, 'h, 's, 'c, 'n) parties \<Rightarrow> chain_event list \<Rightarrow> 'i \<Rightarrow> bytes32 \<Rightarrow> bool" where
  "has_verified P log i r \<longleftrightarrow> (\<exists>blk pointer http batch. NewBatch r blk pointer \<in> set log
     \<and> operator_getBatch (growth P) (operator_of P i) http pointer = Inr batch
     \<and> (\<forall>d\<in>set batch. verify (verifiers_of P i) d = Ret True))"

definition vouching :: "('i, 'p, 'w, 'k, 'h, 's, 'c, 'n) parties \<Rightarrow> chain_event list \<Rightarrow> bytes32 \<Rightarrow> 'i set" where
  "vouching P log r = {i \<in> members P \<inter> honest P. has_verified P log i r}"

text \<open>The stake behind a root: of the honest who verified it, and of all who are not honest.\<close>

definition backed :: "('i, 'p, 'w, 'k, 'h, 's, 'c, 'n) parties \<Rightarrow> chain_event list \<Rightarrow> u32 \<Rightarrow> bytes32 \<Rightarrow> bool" where
  "backed P log blk r \<longleftrightarrow> 67 * owned P blk (members P)
     \<le> 100 * (owned P blk (vouching P log r) + owned P blk (members P - honest P))"

definition protocol_inv ::
  "('i, 'p, 'w, 'k, 'h, 's, 'c, 'n) parties \<Rightarrow> ('i, 'h, 's) protocol_state \<Rightarrow> bool" where
  "protocol_inv P s \<longleftrightarrow>
     chain_run (checkSignatures P) (contract_storage s) (contract_log s)
     \<and> (\<forall>i\<in>honest P. op_run (growth P) (verifiers_of P i) (bls_of P) (operator_of P i) (sdk_of P i)
          (handled s i) (programs s i) \<and> (\<forall>e\<in>set (handled s i). announced (contract_log s) e))
     \<and> (\<forall>r. BatchVerified r \<in> set (contract_log s) \<longrightarrow>
          backed P (contract_log s) (taskCreatedBlock (contract_storage s r)) r)"

lemma announced_mono: "announced log e \<Longrightarrow> announced (log @ ev) e"
  by (cases e) auto

lemma has_verified_mono: "has_verified P log i r \<Longrightarrow> has_verified P (log @ ev) i r"
  unfolding has_verified_def by auto

lemma owned_mono: "finite B \<Longrightarrow> A \<subseteq> B \<Longrightarrow> owned P blk A \<le> owned P blk B"
  unfolding owned_def by (rule sum_mono2) simp_all

lemma backed_mono:
  assumes "finite (members P)" "backed P log blk r"
  shows "backed P (log @ ev) blk r"
proof -
  have "owned P blk (vouching P log r) \<le> owned P blk (vouching P (log @ ev) r)"
    using assms(1) by (intro owned_mono) (auto simp: vouching_def has_verified_mono)
  then show ?thesis using assms(2) by (simp add: backed_def)
qed

lemma dispatched_verified:
  assumes "protocol_inv P s" "i \<in> honest P" "dispatched_root s i r"
  shows "has_verified P (contract_log s) i r"
proof -
  have run: "op_run (growth P) (verifiers_of P i) (bls_of P) (operator_of P i) (sdk_of P i)
      (handled s i) (programs s i)" and ann: "\<forall>e\<in>set (handled s i). announced (contract_log s) e"
    using assms(1,2) by (auto simp: protocol_inv_def)
  obtain resp where "resp \<in> set (dispatched (programs s i))" "BatchMerkleRoot resp = r"
    using assms(3) by (auto simp: dispatched_root_def)
  then obtain batch where b: "fetched (growth P) (operator_of P i) (handled s i) r batch"
      "\<forall>d\<in>set batch. verify (verifiers_of P i) d = Ret True"
    using op_run_inv [OF run] by (auto simp: op_inv_def signed_response_def)
  then obtain http pointer where e: "NewBatchEvent http r pointer \<in> set (handled s i)"
      "operator_getBatch (growth P) (operator_of P i) http pointer = Inr batch"
    by (auto simp: fetched_def)
  with ann obtain blk where "NewBatch r blk pointer \<in> set (contract_log s)" by fastforce
  with e b show ?thesis by (auto simp: has_verified_def)
qed

text \<open>An accepted response is backed.\<close>

lemma respond_backed:
  assumes "sound_checks P"
    and "respondToTask (checkSignatures P) r sig st = Inr (st', ev)"
    and "\<And>i. i \<in> signers P r sig \<Longrightarrow> i \<in> honest P \<Longrightarrow> has_verified P log i r"
  shows "backed P log (taskCreatedBlock (st r)) r"
proof -
  let ?blk = "taskCreatedBlock (st r)"
  obtain t hsh where c: "checkSignatures P r ?blk sig = Inr (t, hsh)" "threshold_met t = Inr True"
    using assms(2) by (auto simp: respondToTask_Inr_iff)
  have fin: "finite (members P)" and sub: "signers P r sig \<subseteq> members P"
    and signed: "unat (hd (signedStakeForQuorum t)) \<le> owned P ?blk (signers P r sig)"
    and total: "unat (hd (totalStakeForQuorum t)) = owned P ?blk (members P)"
    using assms(1) [unfolded sound_checks_def, THEN conjunct2, rule_format, OF c(1)] assms(1) c(2)
    by (simp_all add: sound_checks_def threshold_met_iff)
  have "owned P ?blk (signers P r sig) \<le> owned P ?blk (vouching P log r \<union> (members P - honest P))"
    using fin sub assms(3) by (intro owned_mono) (auto simp: vouching_def)
  also have "\<dots> \<le> owned P ?blk (vouching P log r) + owned P ?blk (members P - honest P)"
    using fin by (simp add: owned_def vouching_def sum.union_disjoint [symmetric] sum_Un_nat)
  finally show ?thesis using c(2) signed total by (simp add: backed_def threshold_met_iff)
qed

lemma protocol_inv_start: "protocol_inv P (protocol_start P)"
  by (simp add: protocol_inv_def protocol_start_def chain_run.deployed op_run.started)

lemma announced_keep:
  assumes "protocol_inv P s" "i \<in> honest P"
  shows "\<forall>e\<in>set (handled s i). announced (contract_log s @ ev) e"
  using assms announced_mono by (fastforce simp: protocol_inv_def)

lemma protocol_inv_step:
  assumes sound: "sound_checks P" and inv: "protocol_inv P s" and step: "protocol_step P s s'"
  shows "protocol_inv P s'"
  using step
proof cases
  case (create n r p st ev)
  have fin: "finite (members P)" using sound by (simp add: sound_checks_def)
  have c: "taskCreatedBlock (contract_storage s r) = 0"
    "st = (contract_storage s)(r := \<lparr>taskCreatedBlock = word_of_nat n, responded = False\<rparr>)"
    "ev = [NewBatch r (word_of_nat n) p]"
    using create(2) by (auto simp: createNewTask_Inr_iff)
  have run: "chain_run (checkSignatures P) (contract_storage s) (contract_log s)"
    using inv by (simp add: protocol_inv_def)
  have "BatchVerified r \<notin> set (contract_log s)"
    using chain_run_inv [OF run] c(1) by (auto simp: storage_inv_def)
  then have "\<forall>r'. BatchVerified r' \<in> set (contract_log s @ ev) \<longrightarrow>
      backed P (contract_log s @ ev) (taskCreatedBlock (st r')) r'"
    using inv c backed_mono [OF fin] by (auto simp: protocol_inv_def)
  moreover have "chain_run (checkSignatures P) st (contract_log s @ ev)"
    using run create(2) by (intro chain_run.stepped) (auto intro: chain_step.create)
  ultimately show ?thesis
    using inv create(1) announced_keep [OF inv] by (simp add: protocol_inv_def)
next
  case (respond r sig st ev)
  have fin: "finite (members P)" using sound by (simp add: sound_checks_def)
  have c: "st = (contract_storage s)(r := (contract_storage s r)\<lparr>responded := True\<rparr>)"
    "ev = [BatchVerified r]"
    using respond(2) by (auto simp: respondToTask_Inr_iff)
  have "backed P (contract_log s) (taskCreatedBlock (contract_storage s r)) r"
    using respond_backed [OF sound respond(2)] respond(3) dispatched_verified [OF inv] by blast
  then have "\<forall>r'. BatchVerified r' \<in> set (contract_log s @ ev) \<longrightarrow>
      backed P (contract_log s @ ev) (taskCreatedBlock (st r')) r'"
    using inv c backed_mono [OF fin] by (auto simp: protocol_inv_def)
  moreover have "chain_run (checkSignatures P) st (contract_log s @ ev)"
    using inv respond(2) by (intro chain_run.stepped) (auto simp: protocol_inv_def intro: chain_step.respond)
  ultimately show ?thesis
    using inv respond(1) announced_keep [OF inv] by (simp add: protocol_inv_def)
next
  case (wake i e o')
  then show ?thesis using inv by (auto simp: protocol_inv_def intro: op_run.event)
next
  case (background i o')
  then show ?thesis using inv by (auto simp: protocol_inv_def intro: op_run.quiet)
qed

lemma protocol_reaches_inv: "sound_checks P \<Longrightarrow> protocol_reaches P s \<Longrightarrow> protocol_inv P s"
  by (rotate_tac, induction rule: rtranclp_induct) (auto intro: protocol_inv_start protocol_inv_step)

subsection \<open>Properties\<close>

text \<open>C1: The service's promise. In every run of the whole protocol (honest operators running their
  program under any schedule, the others and the aggregator doing what they like), when the contract
  has recorded a batch as verified, then at least 67 of every 100 parts of the stake at the block of
  the batch belong to members that are not honest or to honest ones that downloaded data announced
  under that root and verified every entry of it; and if those that are not honest own less than
  that, there is such an honest member.\<close>

theorem verified_batch_is_backed_by_stake:
  fixes P :: "('i, 'p, 'w, 'k, 'h, 's, 'c, 'n) parties" and s :: "('i, 'h, 's) protocol_state" and r
  defines "weight \<equiv> \<lambda>A. \<Sum>i\<in>A. stake P (taskCreatedBlock (contract_storage s r)) i"
    and "verified \<equiv> {i \<in> members P \<inter> honest P. \<exists>blk pointer http batch.
           NewBatch r blk pointer \<in> set (contract_log s)
           \<and> operator_getBatch (growth P) (operator_of P i) http pointer = Inr batch
           \<and> (\<forall>d\<in>set batch. verify (verifiers_of P i) d = Ret True)}"
  assumes "sound_checks P" "protocol_reaches P s" "BatchVerified r \<in> set (contract_log s)"
  shows "67 * weight (members P) \<le> 100 * (weight verified + weight (members P - honest P))
    \<and> (100 * weight (members P - honest P) < 67 * weight (members P) \<longrightarrow> verified \<noteq> {})"
proof -
  have "backed P (contract_log s) (taskCreatedBlock (contract_storage s r)) r"
    using protocol_reaches_inv [OF assms(3,4)] assms(5) by (simp add: protocol_inv_def)
  then have "67 * weight (members P) \<le> 100 * (weight verified + weight (members P - honest P))"
    by (simp add: assms(1,2) backed_def owned_def vouching_def has_verified_def)
  moreover have "weight {} = 0" by (simp add: assms(1))
  ultimately show ?thesis by fastforce
qed

text \<open>Two members, of whom the one with 70 of 100 parts is honest and signs.\<close>

definition example_parties ::
  "(nat, bytes, bytes, unit, nat, bytes32, nat, unit) parties" where
  "example_parties = \<lparr>members = {0, 1}, honest = {0}, stake = (\<lambda>blk i. if i = 0 then 70 else 30),
     operator_of = (\<lambda>i. example_operator), verifiers_of = (\<lambda>i. example_verifiers),
     bls_of = example_bls, sdk_of = (\<lambda>i. example_sdk), growth = Suc,
     checkSignatures = (\<lambda>r blk n. Inr (example_totals 70, [])), signers = (\<lambda>r n. {0})\<rparr>"

lemma example_parties_sound: "sound_checks example_parties"
  by (simp add: sound_checks_def example_parties_def example_totals_def owned_def)

lemma example_protocol_run:
  "\<exists>s. protocol_reaches example_parties s \<and> contract_log s = [NewBatch [9] 5 ''u'', BatchVerified [9]]"
proof -
  let ?P = example_parties
  let ?st = "empty_storage([9] := \<lparr>taskCreatedBlock = 5, responded = False\<rparr>)"
  let ?s1 = "(protocol_start ?P)\<lparr>contract_storage := ?st, contract_log := [NewBatch [9] 5 ''u'']\<rparr>"
  obtain o' body where o': "op_step Suc example_verifiers example_bls example_operator
      (operator_start example_sdk example_operator)
      (Some (NewBatchEvent (file_server body) [9] ''u'')) o'"
    "dispatched o' = [signed_response example_bls example_operator [9]]"
    using example_op_step [OF example_subscribes, of Suc example_bls] by (auto simp: example_operator_def)
  let ?s2 = "?s1\<lparr>programs := (programs ?s1)(0 := o'),
      handled := (handled ?s1)(0 := handled ?s1 0 @ [NewBatchEvent (file_server body) [9] ''u''])\<rparr>"
  let ?s3 = "?s2\<lparr>contract_storage := ?st([9] := (?st [9])\<lparr>responded := True\<rparr>),
      contract_log := contract_log ?s2 @ [BatchVerified [9]]\<rparr>"
  have "protocol_step ?P (protocol_start ?P) ?s1"
    using protocol_step.create [of 5 "[9]" "''u''" "protocol_start ?P" ?st "[NewBatch [9] 5 ''u'']" ?P]
    by (simp add: protocol_start_def createNewTask_def empty_storage_def)
  moreover have "protocol_step ?P ?s1 ?s2"
    using o'(1) by (intro protocol_step.wake) (simp_all add: example_parties_def protocol_start_def)
  moreover have "protocol_step ?P ?s2 ?s3"
  proof (rule protocol_step.respond [of _ _ "()"])
    show "respondToTask (checkSignatures ?P) [9] () (contract_storage ?s2)
        = Inr (?st([9] := (?st [9])\<lparr>responded := True\<rparr>), [BatchVerified [9]])"
      by (simp add: respondToTask_Inr_iff example_parties_def example_totals_def threshold_met_iff)
  next
    fix i assume "i \<in> signers ?P [9] ()" "i \<in> honest ?P"
    then show "dispatched_root ?s2 i [9]"
      using o'(2) by (simp add: example_parties_def dispatched_root_def signed_response_def)
  qed
  ultimately have "protocol_reaches ?P ?s3"
    by (meson converse_rtranclp_into_rtranclp rtranclp.rtrancl_refl)
  then show ?thesis by (intro exI [of _ ?s3]) simp
qed

theorem verified_batch_is_backed_by_stake_witness:
  "\<exists>http batch. operator_getBatch Suc example_operator http ''u'' = Inr batch
     \<and> (\<forall>d\<in>set batch. verify example_verifiers d = Ret True)"
proof -
  obtain s where s: "protocol_reaches example_parties s"
      "contract_log s = [NewBatch [9] 5 ''u'', BatchVerified [9]]"
    using example_protocol_run by blast
  have verified: "BatchVerified [9] \<in> set (contract_log s)" using s(2) by simp
  show ?thesis
    using verified_batch_is_backed_by_stake [OF example_parties_sound s(1) verified] s(2)
    by (auto simp: example_parties_def)
qed

end
