(* ===== verification/Contract_Binding.thy ===== *)
theory Contract_Binding
  imports Chain_IO
begin

text \<open>
  What abigen's Go files (\<open>contracts/bindings\<close>) have in common: the values that cross the boundary,
  go-ethereum's \<open>bind.BoundContract\<close> (an argument, \<open>bound_contract\<close>), the conversion of what a call
  returns, the iterator over past events and the goroutine that forwards new ones. The files repeat
  the last two for every event with another type; here they are definitions over the way a log is
  unpacked, which the theories of the two contracts instantiate.

  Channels are lists, and what the other end may do is a step: the node adds logs and ends its
  subscription, the user takes events and unsubscribes.
\<close>

subsection \<open>Values\<close>

type_synonym evm_address = "160 word"
type_synonym uint256 = "256 word"

text \<open>Go values as the ABI library sees them by reflection.\<close>

datatype go_value =
    GoAddress evm_address
  | GoBytes32 bytes32
  | GoBytes bytes
  | GoUint32 u32
  | GoUint8 u8
  | GoBig int
  | GoBool bool
  | GoText string
  | GoSlice "go_value list"
  | GoStruct "go_value list"

text \<open>
  \<open>*abi.ConvertType(out[i], new(T)).(*T)\<close>: an index outside the slice panics, and so does a value
  that is not of the type.
\<close>

definition ConvertType :: "(go_value \<Rightarrow> 'a option) \<Rightarrow> go_value list \<Rightarrow> nat \<Rightarrow> 'a go" where
  "ConvertType as out i =
     (if i < length out then case as (out ! i) of Some x \<Rightarrow> Ret x | None \<Rightarrow> Panic else Panic)"

fun as_address :: "go_value \<Rightarrow> evm_address option" where
  "as_address (GoAddress a) = Some a"
| "as_address _ = None"

fun as_bytes32 :: "go_value \<Rightarrow> bytes32 option" where
  "as_bytes32 (GoBytes32 b) = Some b"
| "as_bytes32 _ = None"

fun as_uint32 :: "go_value \<Rightarrow> u32 option" where
  "as_uint32 (GoUint32 n) = Some n"
| "as_uint32 _ = None"

fun as_uint8 :: "go_value \<Rightarrow> u8 option" where
  "as_uint8 (GoUint8 n) = Some n"
| "as_uint8 _ = None"

fun as_big :: "go_value \<Rightarrow> int option" where
  "as_big (GoBig i) = Some i"
| "as_big _ = None"

fun as_bool :: "go_value \<Rightarrow> bool option" where
  "as_bool (GoBool b) = Some b"
| "as_bool _ = None"

fun as_text :: "go_value \<Rightarrow> string option" where
  "as_text (GoText s) = Some s"
| "as_text _ = None"

fun all_some :: "('a \<Rightarrow> 'b option) \<Rightarrow> 'a list \<Rightarrow> 'b list option" where
  "all_some f [] = Some []"
| "all_some f (x # xs) =
     (case f x of None \<Rightarrow> None | Some y \<Rightarrow> (case all_some f xs of None \<Rightarrow> None | Some ys \<Rightarrow> Some (y # ys)))"

fun as_struct :: "go_value \<Rightarrow> go_value list option" where
  "as_struct (GoStruct vs) = Some vs"
| "as_struct _ = None"

fun as_slice :: "(go_value \<Rightarrow> 'a option) \<Rightarrow> go_value \<Rightarrow> 'a list option" where
  "as_slice f (GoSlice vs) = all_some f vs"
| "as_slice f _ = None"

lemma all_some_map: "(\<And>x. x \<in> set xs \<Longrightarrow> f (g x) = Some (h x)) \<Longrightarrow> all_some f (map g xs) = Some (map h xs)"
  by (induction xs) auto

lemma all_some_Cons_iff:
  "all_some f (x # xs) = Some ys \<longleftrightarrow> (\<exists>z zs. ys = z # zs \<and> f x = Some z \<and> all_some f xs = Some zs)"
  by (auto split: option.splits)

lemma all_some_list_all2: "all_some f xs = Some ys \<longleftrightarrow> list_all2 (\<lambda>x y. f x = Some y) xs ys"
  by (induction xs arbitrary: ys) (auto simp del: all_some.simps(2) simp: all_some_Cons_iff list_all2_Cons1)

subsection \<open>The bound contract\<close>

text \<open>
  \<open>bind.BoundContract\<close>: calls read the chain, transactions (\<open>Transfer\<close> names no method) may
  change the world, \<open>FilterLogs\<close> gives the past logs of an event and \<open>WatchLogs\<close> says whether the
  node took the subscription; the rules are the values asked for in each indexed field. \<open>UnpackLog\<close> gives the fields of an event.
\<close>

record filter_opts =
  fo_Start :: u64
  fo_End :: "u64 option"

record watch_opts =
  wo_Start :: "u64 option"

record ('co, 'log, 'w) bound_contract =
  bound_Call :: "'co \<Rightarrow> string \<Rightarrow> go_value list \<Rightarrow> 'w \<Rightarrow> go_value list result"
  bound_Transact :: "tx_opts \<Rightarrow> string \<Rightarrow> go_value list \<Rightarrow> 'w \<Rightarrow> 'w \<times> eth_tx result"
  bound_Transfer :: "tx_opts \<Rightarrow> 'w \<Rightarrow> 'w \<times> eth_tx result"
  bound_FilterLogs :: "filter_opts \<Rightarrow> string \<Rightarrow> go_value list list \<Rightarrow> 'w \<Rightarrow> 'log list result"
  bound_WatchLogs :: "watch_opts \<Rightarrow> string \<Rightarrow> go_value list list \<Rightarrow> 'w \<Rightarrow> unit result"
  bound_UnpackLog :: "string \<Rightarrow> 'log \<Rightarrow> go_value list result"

text \<open>The parsed ABI of the generated file, \<open>bind.NewBoundContract\<close> and \<open>bind.DeployContract\<close>.\<close>

record ('abi, 'h, 'co, 'log, 'w) bind_lib =
  GetAbi :: "'abi option result"
  NewBoundContract ::
    "evm_address \<Rightarrow> 'abi \<Rightarrow> 'h option \<Rightarrow> 'h option \<Rightarrow> 'h option \<Rightarrow> ('co, 'log, 'w) bound_contract"
  DeployContract :: "tx_opts \<Rightarrow> 'abi \<Rightarrow> bytes \<Rightarrow> 'h \<Rightarrow> go_value list \<Rightarrow> 'w \<Rightarrow>
    'w \<times> (evm_address \<times> eth_tx \<times> ('co, 'log, 'w) bound_contract) result"

text \<open>The read-only methods: the error of the call, or its converted result.\<close>

definition bound_read ::
  "('co, 'log, 'w) bound_contract \<Rightarrow> (go_value list \<Rightarrow> 'a go) \<Rightarrow> 'co \<Rightarrow> string \<Rightarrow> go_value list \<Rightarrow>
     'w \<Rightarrow> 'a result go" where
  "bound_read c conv opts name params w =
     (case bound_Call c opts name params w of
        Inl err \<Rightarrow> Ret (Inl err)
      | Inr out \<Rightarrow> gbind (conv out) (\<lambda>x. Ret (Inr x)))"

subsection \<open>Unpacking an event\<close>

text \<open>
  \<open>event := new(E); UnpackLog(event, name, log); event.Raw = log\<close>: the fields with the log they come
  from. Fields that are not of the types of \<open>E\<close> are an error of \<open>UnpackLog\<close>.
\<close>

definition parse_event ::
  "('co, 'log, 'w) bound_contract \<Rightarrow> string \<Rightarrow> (go_value list \<Rightarrow> 'e option) \<Rightarrow> 'log \<Rightarrow> ('e \<times> 'log) result" where
  "parse_event c name of_fields log =
     rbind (bound_UnpackLog c name log) (\<lambda>vs.
       case of_fields vs of None \<Rightarrow> Inl ''abi: cannot unmarshal'' | Some e \<Rightarrow> Inr (e, log))"

subsection \<open>The iterator\<close>

text \<open>
  The fields of the generated \<open>...Iterator\<close>, with both ends of its channel: \<open>it_pending\<close> is what
  the goroutine of \<open>FilterLogs\<close> still has to send, \<open>it_sub\<close> what \<open>sub.Err()\<close> gives once that
  goroutine has ended. An \<open>Event\<close> whose unpacking failed is \<open>None\<close>.
\<close>

record ('e, 'log) event_iterator =
  it_Event :: "('e \<times> 'log) option"
  it_logs :: "'log list"
  it_done :: bool
  it_fail :: "string option"
  it_pending :: "'log list"
  it_sub :: "string option option"

definition new_iterator :: "'log list \<Rightarrow> ('e, 'log) event_iterator" where
  "new_iterator buff = \<lparr>it_Event = None, it_logs = [], it_done = False, it_fail = None,
     it_pending = buff, it_sub = None\<rparr>"

text \<open>A log was received: both places of \<open>Next\<close> that do so go on like this.\<close>

definition iterator_take ::
  "('log \<Rightarrow> ('e \<times> 'log) result) \<Rightarrow> 'log \<Rightarrow> ('e, 'log) event_iterator \<Rightarrow> ('e, 'log) event_iterator \<times> bool" where
  "iterator_take parse log it =
     (case parse log of
        Inl err \<Rightarrow> (it\<lparr>it_Event := None, it_fail := Some err\<rparr>, False)
      | Inr ev \<Rightarrow> (it\<lparr>it_Event := Some ev\<rparr>, True))"

text \<open>\<open>Next\<close> once the subscription has completed: \<open>select\<close> with a default.\<close>

definition Next_completed ::
  "('log \<Rightarrow> ('e \<times> 'log) result) \<Rightarrow> ('e, 'log) event_iterator \<Rightarrow> ('e, 'log) event_iterator \<times> bool" where
  "Next_completed parse it =
     (case it_logs it of
        log # rest \<Rightarrow> iterator_take parse log (it\<lparr>it_logs := rest\<rparr>)
      | [] \<Rightarrow> (it, False))"

text \<open>
  The calls of \<open>Next\<close> that return, with the iterator after and the result. A call that finds
  neither a log nor an end waits; \<open>select\<close> takes either when both are there.
\<close>

inductive iterator_Next ::
  "('log \<Rightarrow> ('e \<times> 'log) result) \<Rightarrow> ('e, 'log) event_iterator \<Rightarrow> ('e, 'log) event_iterator \<Rightarrow> bool \<Rightarrow> bool"
  for parse where
  failed: "it_fail it \<noteq> None \<Longrightarrow> iterator_Next parse it it False"
| completed: "it_fail it = None \<Longrightarrow> it_done it \<Longrightarrow> Next_completed parse it = (it', b) \<Longrightarrow>
    iterator_Next parse it it' b"
| received: "it_fail it = None \<Longrightarrow> \<not> it_done it \<Longrightarrow> it_logs it = log # rest \<Longrightarrow>
    iterator_take parse log (it\<lparr>it_logs := rest\<rparr>) = (it', b) \<Longrightarrow> iterator_Next parse it it' b"
| ended: "it_fail it = None \<Longrightarrow> \<not> it_done it \<Longrightarrow> it_sub it = Some err \<Longrightarrow>
    iterator_Next parse (it\<lparr>it_done := True, it_fail := err\<rparr>) it' b \<Longrightarrow> iterator_Next parse it it' b"

definition iterator_Error :: "('e, 'log) event_iterator \<Rightarrow> string option" where
  "iterator_Error it = it_fail it"

text \<open>\<open>Close\<close> unsubscribes: the goroutine of \<open>FilterLogs\<close> stops, and what it has not sent is gone.\<close>

definition iterator_Close :: "('e, 'log) event_iterator \<Rightarrow> ('e, 'log) event_iterator" where
  "iterator_Close it =
     (if it_sub it = None then it\<lparr>it_sub := Some None, it_pending := []\<rparr> else it)"

text \<open>What happens at the other end: a log is sent, all have been sent, or the subscription fails.\<close>

inductive source_step :: "('e, 'log) event_iterator \<Rightarrow> ('e, 'log) event_iterator \<Rightarrow> bool" where
  send: "it_sub it = None \<Longrightarrow> it_pending it = log # rest \<Longrightarrow>
    source_step it (it\<lparr>it_logs := it_logs it @ [log], it_pending := rest\<rparr>)"
| complete: "it_sub it = None \<Longrightarrow> it_pending it = [] \<Longrightarrow> source_step it (it\<lparr>it_sub := Some None\<rparr>)"
| break: "it_sub it = None \<Longrightarrow> source_step it (it\<lparr>it_sub := Some (Some err)\<rparr>)"

text \<open>\<open>for it.Next() { events = append(events, it.Event) }\<close>: the events so far, and whether the loop
  has ended.\<close>

inductive iterate ::
  "('log \<Rightarrow> ('e \<times> 'log) result) \<Rightarrow> 'log list \<Rightarrow> ('e, 'log) event_iterator \<Rightarrow> ('e \<times> 'log) list \<Rightarrow> bool \<Rightarrow> bool"
  for parse buff where
  start: "iterate parse buff (new_iterator buff) [] False"
| source: "iterate parse buff it es fin \<Longrightarrow> source_step it it' \<Longrightarrow> iterate parse buff it' es fin"
| step: "iterate parse buff it es False \<Longrightarrow> iterator_Next parse it it' True \<Longrightarrow> it_Event it' = Some ev \<Longrightarrow>
    iterate parse buff it' (es @ [ev]) False"
| stop: "iterate parse buff it es False \<Longrightarrow> iterator_Next parse it it' False \<Longrightarrow> iterate parse buff it' es True"

text \<open>What a call of \<open>Next\<close> does: nothing, or it takes one log.\<close>

lemma take_cases:
  assumes "iterator_take parse log it = (it', b)" and "it_fail it = None"
  shows "b \<and> (\<exists>ev. parse log = Inr ev \<and> it' = it\<lparr>it_Event := Some ev\<rparr>)
    \<or> \<not> b \<and> (\<exists>err. parse log = Inl err \<and> it' = it\<lparr>it_Event := None, it_fail := Some err\<rparr>)"
  using assms by (auto simp: iterator_take_def split: sum.splits)

lemma Next_cases:
  assumes "iterator_Next parse it it' b"
  shows "(b \<and> (\<exists>log ev. it_logs it = log # it_logs it' \<and> parse log = Inr ev \<and> it_Event it' = Some ev
           \<and> it_fail it = None \<and> it_fail it' = None)
      \<or> \<not> b \<and> (it_logs it' = it_logs it \<and> (it_fail it' \<noteq> None \<or> it_logs it = [] \<and> it_done it')
           \<or> it_fail it' \<noteq> None \<and> (\<exists>log err. it_logs it = log # it_logs it' \<and> parse log = Inl err)))
    \<and> it_pending it' = it_pending it \<and> it_sub it' = it_sub it
    \<and> (it_done it' \<longrightarrow> it_done it \<or> it_sub it \<noteq> None \<and> (it_fail it' \<noteq> None \<or> it_sub it = Some None))
    \<and> (it_fail it \<noteq> None \<longrightarrow> it' = it)"
  using assms
proof induction
  case (completed it it' b)
  then show ?case
    by (cases "it_logs it") (auto simp: Next_completed_def dest!: take_cases)
next
  case (received it log rest it' b)
  then show ?case by (auto dest!: take_cases)
next
  case (ended it err it' b)
  then show ?case by (cases err) auto
qed simp

text \<open>
  Every log is in one of four places: handed out as an event, the one that could not be unpacked, in
  the channel, or not yet sent; and an iteration ends on a failure or when nothing is left.
\<close>

definition iterate_inv ::
  "('log \<Rightarrow> ('e \<times> 'log) result) \<Rightarrow> 'log list \<Rightarrow> ('e, 'log) event_iterator \<Rightarrow> ('e \<times> 'log) list \<Rightarrow> bool \<Rightarrow> bool" where
  "iterate_inv parse buff it es fin \<longleftrightarrow>
     (\<exists>taken bad. buff = taken @ bad @ it_logs it @ it_pending it
        \<and> list_all2 (\<lambda>log ev. parse log = Inr ev) taken es
        \<and> (bad = [] \<or> it_fail it \<noteq> None \<and> (\<exists>log err. bad = [log] \<and> parse log = Inl err)))
     \<and> (it_sub it = Some None \<longrightarrow> it_pending it = [])
     \<and> (it_done it \<longrightarrow> it_sub it = Some None \<or> it_fail it \<noteq> None)
     \<and> (fin \<longrightarrow> it_fail it \<noteq> None \<or> it_logs it = [] \<and> it_pending it = [])"

lemma iterate_inv_source:
  "iterate_inv parse buff it es fin \<Longrightarrow> source_step it it' \<Longrightarrow> iterate_inv parse buff it' es fin"
  by (erule source_step.cases) (auto simp: iterate_inv_def)

lemma iterate_inv_event:
  assumes "iterate_inv parse buff it es False" "iterator_Next parse it it' True" "it_Event it' = Some ev"
  shows "iterate_inv parse buff it' (es @ [ev]) False"
proof -
  obtain log where log: "it_logs it = log # it_logs it'" "parse log = Inr ev"
      and f: "it_fail it = None" "it_pending it' = it_pending it" "it_sub it' = it_sub it"
      and d: "it_done it' \<longrightarrow> it_done it \<or> it_sub it = Some None"
    using Next_cases [OF assms(2)] assms(3) by auto
  obtain taken where t: "buff = taken @ it_logs it @ it_pending it"
      "list_all2 (\<lambda>log ev. parse log = Inr ev) taken es"
    using assms(1) f(1) by (auto simp: iterate_inv_def)
  then have "buff = (taken @ [log]) @ [] @ it_logs it' @ it_pending it'"
      "list_all2 (\<lambda>log ev. parse log = Inr ev) (taken @ [log]) (es @ [ev])"
    using log f by (simp_all add: list_all2_appendI)
  then show ?thesis using assms(1) f d unfolding iterate_inv_def by auto
qed

lemma iterate_inv_stop:
  assumes "iterate_inv parse buff it es False" "iterator_Next parse it it' False"
  shows "iterate_inv parse buff it' es True"
proof (cases "it_fail it = None")
  case True
  then obtain taken where t: "buff = taken @ it_logs it @ it_pending it"
      "list_all2 (\<lambda>log ev. parse log = Inr ev) taken es"
    using assms(1) by (auto simp: iterate_inv_def)
  note N = Next_cases [OF assms(2)]
  from N consider "it_logs it' = it_logs it" | log err where "it_fail it' \<noteq> None"
      "it_logs it = log # it_logs it'" "parse log = Inl err" by auto
  then show ?thesis
  proof cases
    case 1
    then show ?thesis using N t assms(1) True by (auto simp: iterate_inv_def)
  next
    case 2
    then have "buff = taken @ [log] @ it_logs it' @ it_pending it'" using N t by simp
    with 2 show ?thesis using N t assms(1) by (fastforce simp: iterate_inv_def)
  qed
next
  case False
  then have "it' = it" using Next_cases [OF assms(2)] by simp
  with False assms(1) show ?thesis by (simp add: iterate_inv_def)
qed

lemma iterate_inv: "iterate parse buff it es fin \<Longrightarrow> iterate_inv parse buff it es fin"
proof (induction rule: iterate.induct)
  case start
  then show ?case by (simp add: iterate_inv_def new_iterator_def)
qed (auto intro: iterate_inv_source iterate_inv_event iterate_inv_stop)

subsection \<open>The subscription\<close>

text \<open>
  The goroutine of a generated \<open>Watch...\<close>: \<open>w_arrived\<close> are the logs the node has delivered so far,
  \<open>w_logs\<close> those still in the channel, \<open>w_hand\<close> the event it is trying to send, \<open>w_sink\<close> what the
  user has received, \<open>w_result\<close> what the function returned, which is what the user gets from
  \<open>Err()\<close>.
\<close>

record ('e, 'log) watch_run =
  w_arrived :: "'log list"
  w_logs :: "'log list"
  w_sub :: "string option option"
  w_quit :: bool
  w_hand :: "('e \<times> 'log) option"
  w_sink :: "('e \<times> 'log) list"
  w_result :: "string option option"

definition watch_start :: "('e, 'log) watch_run" where
  "watch_start = \<lparr>w_arrived = [], w_logs = [], w_sub = None, w_quit = False, w_hand = None,
     w_sink = [], w_result = None\<rparr>"

inductive watch_step ::
  "('log \<Rightarrow> ('e \<times> 'log) result) \<Rightarrow> ('e, 'log) watch_run \<Rightarrow> ('e, 'log) watch_run \<Rightarrow> bool" for parse where
  arrive: "w_sub w = None \<Longrightarrow>
    watch_step parse w (w\<lparr>w_arrived := w_arrived w @ [log], w_logs := w_logs w @ [log]\<rparr>)"
| sub_ends: "w_sub w = None \<Longrightarrow> watch_step parse w (w\<lparr>w_sub := Some err\<rparr>)"
| unsubscribe: "watch_step parse w (w\<lparr>w_quit := True\<rparr>)"
| parsed: "w_result w = None \<Longrightarrow> w_hand w = None \<Longrightarrow> w_logs w = log # rest \<Longrightarrow> parse log = Inr ev \<Longrightarrow>
    watch_step parse w (w\<lparr>w_logs := rest, w_hand := Some ev\<rparr>)"
| not_parsed: "w_result w = None \<Longrightarrow> w_hand w = None \<Longrightarrow> w_logs w = log # rest \<Longrightarrow> parse log = Inl err \<Longrightarrow>
    watch_step parse w (w\<lparr>w_logs := rest, w_result := Some (Some err)\<rparr>)"
| forward: "w_result w = None \<Longrightarrow> w_hand w = Some ev \<Longrightarrow>
    watch_step parse w (w\<lparr>w_sink := w_sink w @ [ev], w_hand := None\<rparr>)"
| sub_error: "w_result w = None \<Longrightarrow> w_sub w = Some err \<Longrightarrow> watch_step parse w (w\<lparr>w_result := Some err\<rparr>)"
| quit: "w_result w = None \<Longrightarrow> w_quit w \<Longrightarrow> watch_step parse w (w\<lparr>w_result := Some None\<rparr>)"

abbreviation watch_reaches ::
  "('log \<Rightarrow> ('e \<times> 'log) result) \<Rightarrow> ('e, 'log) watch_run \<Rightarrow> ('e, 'log) watch_run \<Rightarrow> bool" where
  "watch_reaches parse \<equiv> (watch_step parse)\<^sup>*\<^sup>*"

text \<open>
  What \<open>Filter...\<close> and \<open>Watch...\<close> return: an iterator with its \<open>Next\<close>, and a subscription, that is
  the goroutine's state with its steps.
\<close>

type_synonym ('e, 'log) iterator_object =
  "('e, 'log) event_iterator \<times> (('e, 'log) event_iterator \<Rightarrow> ('e, 'log) event_iterator \<Rightarrow> bool \<Rightarrow> bool)"

type_synonym ('e, 'log) subscription =
  "('e, 'log) watch_run \<times> (('e, 'log) watch_run \<Rightarrow> ('e, 'log) watch_run \<Rightarrow> bool)"

text \<open>
  What has been received, then the event in hand, then a log that could not be unpacked, then the
  channel: together what arrived.
\<close>

definition watch_inv :: "('log \<Rightarrow> ('e \<times> 'log) result) \<Rightarrow> ('e, 'log) watch_run \<Rightarrow> bool" where
  "watch_inv parse w \<longleftrightarrow>
     (\<exists>taken bad. w_arrived w = taken @ bad @ w_logs w
        \<and> list_all2 (\<lambda>log ev. parse log = Inr ev) taken
             (w_sink w @ (case w_hand w of None \<Rightarrow> [] | Some ev \<Rightarrow> [ev]))
        \<and> (bad = [] \<or> w_hand w = None \<and> (\<exists>log err. bad = [log] \<and> parse log = Inl err \<and> w_result w = Some (Some err))))
     \<and> (\<forall>e. w_result w = Some e \<longrightarrow> w_sub w = Some e \<or> w_quit w \<and> e = None
          \<or> (\<exists>log err. log \<in> set (w_arrived w) \<and> parse log = Inl err \<and> e = Some err))"

lemma watch_inv_start: "watch_inv parse watch_start"
  by (simp add: watch_inv_def watch_start_def)

lemma watch_inv_returned:
  assumes "watch_inv parse w" "w_result w = None" and e: "w_sub w = Some e \<or> w_quit w \<and> e = None"
  shows "watch_inv parse (w\<lparr>w_result := Some e\<rparr>)"
proof -
  obtain taken where "w_arrived w = taken @ [] @ w_logs w"
      "list_all2 (\<lambda>log ev. parse log = Inr ev) taken
         (w_sink w @ (case w_hand w of None \<Rightarrow> [] | Some ev \<Rightarrow> [ev]))"
    using assms(1,2) by (auto simp: watch_inv_def)
  with e show ?thesis unfolding watch_inv_def by (intro conjI exI [of _ taken] exI [of _ "[]"]) auto
qed

lemma watch_inv_step: "watch_inv parse w \<Longrightarrow> watch_step parse w w' \<Longrightarrow> watch_inv parse w'"
proof (erule watch_step.cases)
  fix v log assume "watch_inv parse w" "w = v"
    "w' = v\<lparr>w_arrived := w_arrived v @ [log], w_logs := w_logs v @ [log]\<rparr>"
  then show "watch_inv parse w'" by (auto simp: watch_inv_def)
next
  fix v log rest ev assume "watch_inv parse w" "w = v" "w_result v = None" "w_hand v = None"
    and s: "w_logs v = log # rest" "parse log = Inr ev" "w' = v\<lparr>w_logs := rest, w_hand := Some ev\<rparr>"
  then obtain taken where "w_arrived v = taken @ w_logs v"
      "list_all2 (\<lambda>log ev. parse log = Inr ev) taken (w_sink v)"
    by (auto simp: watch_inv_def)
  with s have "w_arrived w' = (taken @ [log]) @ [] @ w_logs w'"
      "list_all2 (\<lambda>log ev. parse log = Inr ev) (taken @ [log]) (w_sink w' @ [ev])"
    by (simp_all add: list_all2_appendI)
  with s \<open>w_result v = None\<close> show "watch_inv parse w'"
    unfolding watch_inv_def by (intro conjI exI [of _ "taken @ [log]"] exI [of _ "[]"]) simp_all
next
  fix v log rest err assume "watch_inv parse w" "w = v" "w_result v = None" "w_hand v = None"
    and s: "w_logs v = log # rest" "parse log = Inl err"
      "w' = v\<lparr>w_logs := rest, w_result := Some (Some err)\<rparr>"
  then obtain taken where "w_arrived v = taken @ w_logs v"
      "list_all2 (\<lambda>log ev. parse log = Inr ev) taken (w_sink v)"
    by (auto simp: watch_inv_def)
  with s \<open>w_hand v = None\<close> show "watch_inv parse w'"
    unfolding watch_inv_def by (intro conjI exI [of _ taken] exI [of _ "[log]"]) auto
next
  fix v e assume "watch_inv parse w" "w = v" "w_result v = None" "w_sub v = Some e"
    "w' = v\<lparr>w_result := Some e\<rparr>"
  then show "watch_inv parse w'" using watch_inv_returned by blast
next
  fix v assume "watch_inv parse w" "w = v" "w_result v = None" "w_quit v"
    "w' = v\<lparr>w_result := Some None\<rparr>"
  then show "watch_inv parse w'" using watch_inv_returned by blast
next
  fix v assume "watch_inv parse w" "w = v" "w' = v\<lparr>w_quit := True\<rparr>"
  then show "watch_inv parse w'" unfolding watch_inv_def by auto
qed (simp_all add: watch_inv_def)

lemma watch_reaches_inv: "watch_reaches parse watch_start w \<Longrightarrow> watch_inv parse w"
  by (induction rule: rtranclp_induct) (auto intro: watch_inv_start watch_inv_step)

text \<open>Once the goroutine has returned, nothing is delivered any more.\<close>

lemma watch_ended:
  "watch_reaches parse w w' \<Longrightarrow> w_result w = Some e \<Longrightarrow> w_result w' = Some e \<and> w_sink w' = w_sink w"
  by (induction rule: rtranclp_induct) (auto elim!: watch_step.cases)

lemma list_all2_parse: "list_all2 (\<lambda>log ev. parse log = Inr ev) logs evs \<longleftrightarrow> map parse logs = map Inr evs"
proof -
  have "map parse logs = map Inr evs \<longleftrightarrow> list_all2 (=) (map parse logs) (map Inr evs)"
    by (simp add: list.rel_eq)
  then show ?thesis by (simp add: list_all2_map1 list_all2_map2)
qed

lemma watch_delivers_prefix:
  assumes "watch_reaches parse watch_start w"
  shows "\<exists>n. map parse (take n (w_arrived w)) = map Inr (w_sink w) \<and> length (w_sink w) = n"
proof -
  obtain taken rest where t: "w_arrived w = taken @ rest"
      "list_all2 (\<lambda>log ev. parse log = Inr ev) taken
         (w_sink w @ (case w_hand w of None \<Rightarrow> [] | Some ev \<Rightarrow> [ev]))"
    using watch_reaches_inv [OF assms] by (auto simp: watch_inv_def)
  then have "map parse taken = map Inr (w_sink w @ (case w_hand w of None \<Rightarrow> [] | Some ev \<Rightarrow> [ev]))"
    by (simp add: list_all2_parse)
  then have "take (length (w_sink w)) (map parse taken) = map Inr (w_sink w)" by simp
  moreover have "length (w_sink w) \<le> length taken" using t(2) by (auto dest!: list_all2_lengthD)
  ultimately show ?thesis by (intro exI [of _ "length (w_sink w)"]) (simp add: t(1) take_map)
qed

lemma watch_running:
  assumes "watch_reaches parse watch_start w" "w_result w = None"
  shows "map parse (w_arrived w) =
    map Inr (w_sink w @ (case w_hand w of None \<Rightarrow> [] | Some ev \<Rightarrow> [ev])) @ map parse (w_logs w)"
proof -
  obtain taken where "w_arrived w = taken @ w_logs w"
      "list_all2 (\<lambda>log ev. parse log = Inr ev) taken
         (w_sink w @ (case w_hand w of None \<Rightarrow> [] | Some ev \<Rightarrow> [ev]))"
    using watch_reaches_inv [OF assms(1)] assms(2) by (auto simp: watch_inv_def)
  then show ?thesis by (simp add: list_all2_parse)
qed

subsection \<open>Properties\<close>

text \<open>Unpacking for the witnesses: a log is a number, and 0 is malformed.\<close>

definition parse_number :: "nat \<Rightarrow> (nat \<times> nat) result" where
  "parse_number n = (if n = 0 then Inl ''malformed'' else Inr (10 * n, n))"

text \<open>The loop over an iterator of past events hands out, in order and under every interleaving with
  the goroutine that feeds it, the unpacked events of the first logs of the filter; if it ends and
  \<open>Error\<close> is nil, those of all logs, and if it ends with an error, the subscription failed with it
  or the next log could not be unpacked.\<close>

theorem iteration_hands_out_the_logs:
  assumes "iterate parse buff it es fin"
  shows "\<exists>n. map parse (take n buff) = map Inr es
    \<and> (fin \<and> iterator_Error it = None \<longrightarrow> es = map (projr \<circ> parse) buff)"
proof -
  obtain taken bad where t: "buff = taken @ bad @ it_logs it @ it_pending it"
      "list_all2 (\<lambda>log ev. parse log = Inr ev) taken es"
      and bad: "bad = [] \<or> it_fail it \<noteq> None"
      and fin: "fin \<longrightarrow> it_fail it \<noteq> None \<or> it_logs it = [] \<and> it_pending it = []"
    using iterate_inv [OF assms] by (auto simp: iterate_inv_def)
  have m: "map parse taken = map Inr es" using t(2) by (simp add: list_all2_parse)
  have "es = map (projr \<circ> parse) taken"
    using arg_cong [OF m, of "map projr"] by (simp add: comp_def)
  then show ?thesis
    using m t(1) bad fin by (intro exI [of _ "length taken"]) (auto simp: iterator_Error_def)
qed

lemma two_logs_run:
  "\<exists>it :: (nat, nat) event_iterator. iterate parse_number [1, 2] it [(10, 1), (20, 2)] True \<and> iterator_Error it = None"
proof -
  let ?i0 = "new_iterator [1, 2] :: (nat, nat) event_iterator"
  let ?i1 = "?i0\<lparr>it_logs := [1], it_pending := [2]\<rparr>"
  let ?i2 = "?i0\<lparr>it_logs := [1, 2], it_pending := []\<rparr>"
  let ?i3 = "?i2\<lparr>it_sub := Some None\<rparr>"
  let ?i4 = "?i3\<lparr>it_logs := [2], it_Event := Some (10, 1)\<rparr>"
  let ?i5 = "?i4\<lparr>it_logs := [], it_Event := Some (20, 2)\<rparr>"
  let ?i6 = "?i5\<lparr>it_done := True\<rparr>"
  have "source_step ?i0 ?i1" using source_step.send [of ?i0 1 "[2]"] by (simp add: new_iterator_def)
  moreover have "source_step ?i1 ?i2" using source_step.send [of ?i1 2 "[]"] by (simp add: new_iterator_def)
  moreover have "source_step ?i2 ?i3" using source_step.complete [of ?i2] by (simp add: new_iterator_def)
  ultimately have 3: "iterate parse_number [1, 2] ?i3 [] False"
    using iterate.start iterate.source by meson
  have "iterator_Next parse_number ?i3 ?i4 True"
    by (rule iterator_Next.received [of _ 1 "[2]"])
      (simp_all add: iterator_take_def parse_number_def new_iterator_def)
  from iterate.step [OF 3 this] have 4: "iterate parse_number [1, 2] ?i4 [(10, 1)] False" by simp
  have "iterator_Next parse_number ?i4 ?i5 True"
    by (rule iterator_Next.received [of _ 2 "[]"])
      (simp_all add: iterator_take_def parse_number_def new_iterator_def)
  from iterate.step [OF 4 this] have 5: "iterate parse_number [1, 2] ?i5 [(10, 1), (20, 2)] False" by simp
  have "iterator_Next parse_number ?i6 ?i6 False"
    by (rule iterator_Next.completed) (simp_all add: Next_completed_def new_iterator_def)
  then have "iterator_Next parse_number ?i5 ?i6 False"
    using iterator_Next.ended [of ?i5 None parse_number ?i6 False] by (simp add: new_iterator_def)
  have "iterate parse_number [1, 2] ?i6 [(10, 1), (20, 2)] True" by (rule iterate.stop [OF 5]) fact
  then show ?thesis by (intro exI [of _ ?i6]) (simp add: iterator_Error_def new_iterator_def)
qed

theorem iteration_hands_out_the_logs_witness:
  "[(10, 1), (20, 2)] = map (projr \<circ> parse_number) [1, 2]"
proof -
  obtain it :: "(nat, nat) event_iterator" where
    it: "iterate parse_number [1, 2] it [(10, 1), (20, 2)] True" "iterator_Error it = None"
    using two_logs_run by blast
  show ?thesis using iteration_hands_out_the_logs [OF it(1)] it(2) by blast
qed

text \<open>C19: A subscription gives its user the unpacked events of the logs in the order they arrive and
  without gaps, under every interleaving; it ends only because the node's subscription ended (with
  the same error), because the user unsubscribed, or with the error of a log that could not be
  unpacked; and after its end nothing is delivered, whatever had arrived.\<close>

theorem subscription_delivers_in_order:
  assumes "watch_reaches parse watch_start w"
  shows "(\<exists>n. map parse (take n (w_arrived w)) = map Inr (w_sink w))
    \<and> (\<forall>e. w_result w = Some e \<longrightarrow>
         (w_sub w = Some e \<or> w_quit w \<and> e = None
          \<or> (\<exists>log err. log \<in> set (w_arrived w) \<and> parse log = Inl err \<and> e = Some err))
         \<and> (\<forall>w'. watch_reaches parse w w' \<longrightarrow> w_sink w' = w_sink w))"
  using watch_delivers_prefix [OF assms] watch_reaches_inv [OF assms] watch_ended
  unfolding watch_inv_def by meson

lemma lost_event_run:
  "\<exists>w :: (nat, nat) watch_run. watch_reaches parse_number watch_start w \<and> w_arrived w = [1]
     \<and> w_sink w = [] \<and> w_result w = Some (Some ''closed'')"
proof -
  let ?w0 = "watch_start :: (nat, nat) watch_run"
  let ?w1 = "?w0\<lparr>w_arrived := [1], w_logs := [1]\<rparr>"
  let ?w2 = "?w1\<lparr>w_sub := Some (Some ''closed'')\<rparr>"
  let ?w3 = "?w2\<lparr>w_result := Some (Some ''closed'')\<rparr>"
  have "watch_step parse_number ?w0 ?w1"
    using watch_step.arrive [of ?w0 parse_number 1] by (simp add: watch_start_def)
  moreover have "watch_step parse_number ?w1 ?w2"
    by (rule watch_step.sub_ends) (simp add: watch_start_def)
  moreover have "watch_step parse_number ?w2 ?w3"
    by (rule watch_step.sub_error) (simp_all add: watch_start_def)
  ultimately have "watch_reaches parse_number ?w0 ?w3"
    by (meson converse_rtranclp_into_rtranclp rtranclp.rtrancl_refl)
  then show ?thesis by (intro exI [of _ ?w3]) (simp add: watch_start_def)
qed

theorem subscription_delivers_in_order_witness:
  "\<exists>w :: (nat, nat) watch_run. w_arrived w = [1]
     \<and> (\<forall>w'. watch_reaches parse_number w w' \<longrightarrow> w_sink w' = [])"
proof -
  obtain w :: "(nat, nat) watch_run" where w: "watch_reaches parse_number watch_start w"
      "w_arrived w = [1]" "w_sink w = []" "w_result w = Some (Some ''closed'')"
    using lost_event_run by blast
  show ?thesis using subscription_delivers_in_order [OF w(1)] w(2-4) by (intro exI [of _ w]) simp
qed

end
