(* ===== verification/Service_Manager_Binding.thy ===== *)
theory Service_Manager_Binding
  imports Contract_Binding Service_Manager Agg_Response
begin

text \<open>
  The Go binding of the service manager (\<open>contracts/bindings/AlignedLayerServiceManager\<close>): its
  construction, the read-only and the paying methods, and its six events, over the parts that all
  bindings share (theory \<open>Contract_Binding\<close>). Methods are prefixed with \<open>ServiceManager_\<close>. Their
  receivers \<open>\<dots>Caller\<close> and \<open>\<dots>Transactor\<close> are structs around the bound contract, here that contract.
  The sessions and the raw wrappers are in the theory \<open>Binding_Sessions\<close>.
\<close>

subsection \<open>Structs\<close>

record IRewardsCoordinatorStrategyAndMultiplier =
  Strategy :: evm_address
  Multiplier :: int

record IRewardsCoordinatorRewardsSubmission =
  StrategiesAndMultipliers :: "IRewardsCoordinatorStrategyAndMultiplier list"
  Token :: evm_address
  Amount :: int
  StartTimestamp :: u32
  Duration :: u32

record ISignatureUtilsSignatureWithSaltAndExpiry =
  Signature :: bytes
  Salt :: bytes32
  Expiry :: int

record IBLSSignatureCheckerQuorumStakeTotals =
  SignedStakeForQuorum :: "int list"
  TotalStakeForQuorum :: "int list"

text \<open>Their values, field by field.\<close>

definition g1_value :: "BN254G1Point \<Rightarrow> go_value" where
  "g1_value p = GoStruct [GoBig (bn1_X p), GoBig (bn1_Y p)]"

definition big_pair :: "int \<times> int \<Rightarrow> go_value" where
  "big_pair p = GoSlice [GoBig (fst p), GoBig (snd p)]"

definition g2_value :: "BN254G2Point \<Rightarrow> go_value" where
  "g2_value p = GoStruct [big_pair (bn2_X p), big_pair (bn2_Y p)]"

definition uint32s_value :: "u32 list \<Rightarrow> go_value" where
  "uint32s_value ns = GoSlice (map GoUint32 ns)"

definition signature_value :: "NonSignerStakesAndSignature \<Rightarrow> go_value" where
  "signature_value s = GoStruct
     [uint32s_value (NonSignerQuorumBitmapIndices s), GoSlice (map g1_value (NonSignerPubkeys s)),
      GoSlice (map g1_value (QuorumApks s)), g2_value (ApkG2 s), g1_value (Sigma s),
      uint32s_value (QuorumApkIndices s), uint32s_value (TotalStakeIndices s),
      GoSlice (map uint32s_value (NonSignerStakeIndices s))]"

definition multiplier_value :: "IRewardsCoordinatorStrategyAndMultiplier \<Rightarrow> go_value" where
  "multiplier_value m = GoStruct [GoAddress (Strategy m), GoBig (Multiplier m)]"

definition submission_value :: "IRewardsCoordinatorRewardsSubmission \<Rightarrow> go_value" where
  "submission_value s = GoStruct
     [GoSlice (map multiplier_value (StrategiesAndMultipliers s)), GoAddress (Token s),
      GoBig (Amount s), GoUint32 (StartTimestamp s), GoUint32 (Duration s)]"

definition salted_value :: "ISignatureUtilsSignatureWithSaltAndExpiry \<Rightarrow> go_value" where
  "salted_value s = GoStruct [GoBytes (Signature s), GoBytes32 (Salt s), GoBig (Expiry s)]"

fun as_totals :: "go_value \<Rightarrow> IBLSSignatureCheckerQuorumStakeTotals option" where
  "as_totals (GoStruct [sg, tot]) =
     (case (as_slice as_big sg, as_slice as_big tot) of
        (Some s, Some t) \<Rightarrow> Some \<lparr>SignedStakeForQuorum = s, TotalStakeForQuorum = t\<rparr>
      | _ \<Rightarrow> None)"
| "as_totals _ = None"

subsection \<open>Construction\<close>

text \<open>
  The struct embeds a reader, a writer and a filterer, each with its bound contract. A missing
  backend is \<open>None\<close>.
\<close>

record ('co, 'log, 'w) ServiceManager_binding =
  sm_Caller :: "('co, 'log, 'w) bound_contract"
  sm_Transactor :: "('co, 'log, 'w) bound_contract"
  sm_Filterer :: "('co, 'log, 'w) bound_contract"

definition bindContractAlignedLayerServiceManager ::
  "('abi, 'h, 'co, 'log, 'w) bind_lib \<Rightarrow> evm_address \<Rightarrow> 'h option \<Rightarrow> 'h option \<Rightarrow> 'h option \<Rightarrow>
     ('co, 'log, 'w) bound_contract result go" where
  "bindContractAlignedLayerServiceManager L address caller transactor filterer =
     (case GetAbi L of
        Inl err \<Rightarrow> Ret (Inl err)
      | Inr None \<Rightarrow> Panic
      | Inr (Some parsed) \<Rightarrow> Ret (Inr (NewBoundContract L address parsed caller transactor filterer)))"

definition ServiceManager_New ::
  "('abi, 'h, 'co, 'log, 'w) bind_lib \<Rightarrow> evm_address \<Rightarrow> 'h \<Rightarrow>
     ('co, 'log, 'w) ServiceManager_binding result go" where
  "ServiceManager_New L address backend =
     gbind (bindContractAlignedLayerServiceManager L address (Some backend) (Some backend) (Some backend))
       (\<lambda>r. Ret (rbind r (\<lambda>contract.
         Inr \<lparr>sm_Caller = contract, sm_Transactor = contract, sm_Filterer = contract\<rparr>)))"

definition ServiceManager_NewCaller ::
  "('abi, 'h, 'co, 'log, 'w) bind_lib \<Rightarrow> evm_address \<Rightarrow> 'h \<Rightarrow> ('co, 'log, 'w) bound_contract result go" where
  "ServiceManager_NewCaller L address caller =
     bindContractAlignedLayerServiceManager L address (Some caller) None None"

definition ServiceManager_NewTransactor ::
  "('abi, 'h, 'co, 'log, 'w) bind_lib \<Rightarrow> evm_address \<Rightarrow> 'h \<Rightarrow> ('co, 'log, 'w) bound_contract result go" where
  "ServiceManager_NewTransactor L address transactor =
     bindContractAlignedLayerServiceManager L address None (Some transactor) None"

definition ServiceManager_NewFilterer ::
  "('abi, 'h, 'co, 'log, 'w) bind_lib \<Rightarrow> evm_address \<Rightarrow> 'h \<Rightarrow> ('co, 'log, 'w) bound_contract result go" where
  "ServiceManager_NewFilterer L address filterer =
     bindContractAlignedLayerServiceManager L address None None (Some filterer)"

text \<open>Deployment; the byte code is an argument.\<close>

definition ServiceManager_Deploy ::
  "('abi, 'h, 'co, 'log, 'w) bind_lib \<Rightarrow> bytes \<Rightarrow> tx_opts \<Rightarrow> 'h \<Rightarrow>
     evm_address \<Rightarrow> evm_address \<Rightarrow> evm_address \<Rightarrow> evm_address \<Rightarrow> 'w \<Rightarrow>
     'w \<times> (evm_address \<times> eth_tx \<times> ('co, 'log, 'w) ServiceManager_binding) result" where
  "ServiceManager_Deploy L bin auth backend avsDirectory rewardsCoordinator registryCoordinator
     stakeRegistry w =
     (case GetAbi L of
        Inl err \<Rightarrow> (w, Inl err)
      | Inr None \<Rightarrow> (w, Inl ''GetABI returned nil'')
      | Inr (Some parsed) \<Rightarrow>
          (case DeployContract L auth parsed bin backend
                  [GoAddress avsDirectory, GoAddress rewardsCoordinator,
                   GoAddress registryCoordinator, GoAddress stakeRegistry] w of
             (w, Inl err) \<Rightarrow> (w, Inl err)
           | (w, Inr (address, tx, contract)) \<Rightarrow>
               (w, Inr (address, tx,
                  \<lparr>sm_Caller = contract, sm_Transactor = contract, sm_Filterer = contract\<rparr>))))"

subsection \<open>Read-only methods\<close>

text \<open>The one value a method returns, the error of the call, or a panic.\<close>

definition read_single ::
  "('co, 'log, 'w) bound_contract \<Rightarrow> (go_value \<Rightarrow> 'a option) \<Rightarrow> 'co \<Rightarrow> string \<Rightarrow> go_value list \<Rightarrow>
     'w \<Rightarrow> 'a result go" where
  "read_single c as = bound_read c (\<lambda>out. ConvertType as out 0)"

definition ServiceManager_AvsDirectory ::
  "('co, 'log, 'w) bound_contract \<Rightarrow> 'co \<Rightarrow> 'w \<Rightarrow> evm_address result go" where
  "ServiceManager_AvsDirectory c opts = read_single c as_address opts ''avsDirectory'' []"

definition ServiceManager_BlsApkRegistry ::
  "('co, 'log, 'w) bound_contract \<Rightarrow> 'co \<Rightarrow> 'w \<Rightarrow> evm_address result go" where
  "ServiceManager_BlsApkRegistry c opts = read_single c as_address opts ''blsApkRegistry'' []"

definition ServiceManager_Delegation ::
  "('co, 'log, 'w) bound_contract \<Rightarrow> 'co \<Rightarrow> 'w \<Rightarrow> evm_address result go" where
  "ServiceManager_Delegation c opts = read_single c as_address opts ''delegation'' []"

definition ServiceManager_GetRestakeableStrategies ::
  "('co, 'log, 'w) bound_contract \<Rightarrow> 'co \<Rightarrow> 'w \<Rightarrow> evm_address list result go" where
  "ServiceManager_GetRestakeableStrategies c opts = read_single c (as_slice as_address) opts ''getRestakeableStrategies'' []"

definition ServiceManager_Owner ::
  "('co, 'log, 'w) bound_contract \<Rightarrow> 'co \<Rightarrow> 'w \<Rightarrow> evm_address result go" where
  "ServiceManager_Owner c opts = read_single c as_address opts ''owner'' []"

definition ServiceManager_Ping ::
  "('co, 'log, 'w) bound_contract \<Rightarrow> 'co \<Rightarrow> 'w \<Rightarrow> int result go" where
  "ServiceManager_Ping c opts = read_single c as_big opts ''ping'' []"

definition ServiceManager_RegistryCoordinator ::
  "('co, 'log, 'w) bound_contract \<Rightarrow> 'co \<Rightarrow> 'w \<Rightarrow> evm_address result go" where
  "ServiceManager_RegistryCoordinator c opts = read_single c as_address opts ''registryCoordinator'' []"

definition ServiceManager_RewardsInitiator ::
  "('co, 'log, 'w) bound_contract \<Rightarrow> 'co \<Rightarrow> 'w \<Rightarrow> evm_address result go" where
  "ServiceManager_RewardsInitiator c opts = read_single c as_address opts ''rewardsInitiator'' []"

definition ServiceManager_StakeRegistry ::
  "('co, 'log, 'w) bound_contract \<Rightarrow> 'co \<Rightarrow> 'w \<Rightarrow> evm_address result go" where
  "ServiceManager_StakeRegistry c opts = read_single c as_address opts ''stakeRegistry'' []"

definition ServiceManager_StaleStakesForbidden ::
  "('co, 'log, 'w) bound_contract \<Rightarrow> 'co \<Rightarrow> 'w \<Rightarrow> bool result go" where
  "ServiceManager_StaleStakesForbidden c opts = read_single c as_bool opts ''staleStakesForbidden'' []"

definition ServiceManager_GetOperatorRestakedStrategies ::
  "('co, 'log, 'w) bound_contract \<Rightarrow> 'co \<Rightarrow> evm_address \<Rightarrow> 'w \<Rightarrow> evm_address list result go" where
  "ServiceManager_GetOperatorRestakedStrategies c opts operator =
     read_single c (as_slice as_address) opts ''getOperatorRestakedStrategies'' [GoAddress operator]"

definition ServiceManager_BatchesState ::
  "('co, 'log, 'w) bound_contract \<Rightarrow> 'co \<Rightarrow> bytes32 \<Rightarrow> 'w \<Rightarrow> BatchState result go" where
  "ServiceManager_BatchesState c opts arg0 = bound_read c (\<lambda>out.
     gbind (ConvertType as_uint32 out 0) (\<lambda>TaskCreatedBlock.
     gbind (ConvertType as_bool out 1) (\<lambda>Responded.
     Ret \<lparr>taskCreatedBlock = TaskCreatedBlock, responded = Responded\<rparr>)))
     opts ''batchesState'' [GoBytes32 arg0]"

definition ServiceManager_CheckSignatures ::
  "('co, 'log, 'w) bound_contract \<Rightarrow> 'co \<Rightarrow> bytes32 \<Rightarrow> u32 \<Rightarrow> NonSignerStakesAndSignature \<Rightarrow> 'w \<Rightarrow>
     (IBLSSignatureCheckerQuorumStakeTotals \<times> bytes32) result go" where
  "ServiceManager_CheckSignatures c opts msgHash referenceBlockNumber params = bound_read c (\<lambda>out.
     gbind (ConvertType as_totals out 0) (\<lambda>out0.
     gbind (ConvertType as_bytes32 out 1) (\<lambda>out1. Ret (out0, out1))))
     opts ''checkSignatures'' [GoBytes32 msgHash, GoUint32 referenceBlockNumber, signature_value params]"

definition ServiceManager_TrySignatureAndApkVerification ::
  "('co, 'log, 'w) bound_contract \<Rightarrow> 'co \<Rightarrow> bytes32 \<Rightarrow> BN254G1Point \<Rightarrow> BN254G2Point \<Rightarrow> BN254G1Point \<Rightarrow> 'w \<Rightarrow>
     (bool \<times> bool) result go" where
  "ServiceManager_TrySignatureAndApkVerification c opts msgHash apk apkG2 sigma = bound_read c (\<lambda>out.
     gbind (ConvertType as_bool out 0) (\<lambda>PairingSuccessful.
     gbind (ConvertType as_bool out 1) (\<lambda>SiganatureIsValid. Ret (PairingSuccessful, SiganatureIsValid))))
     opts ''trySignatureAndApkVerification'' [GoBytes32 msgHash, g1_value apk, g2_value apkG2, g1_value sigma]"

subsection \<open>Paying methods\<close>

definition ServiceManager_CreateAVSRewardsSubmission ::
  "('co, 'log, 'w) bound_contract \<Rightarrow> tx_opts \<Rightarrow> IRewardsCoordinatorRewardsSubmission list \<Rightarrow> 'w \<Rightarrow> 'w \<times> eth_tx result" where
  "ServiceManager_CreateAVSRewardsSubmission c opts rewardsSubmissions =
     bound_Transact c opts ''createAVSRewardsSubmission'' [GoSlice (map submission_value rewardsSubmissions)]"

definition ServiceManager_CreateNewTask ::
  "('co, 'log, 'w) bound_contract \<Rightarrow> tx_opts \<Rightarrow> bytes32 \<Rightarrow> string \<Rightarrow> 'w \<Rightarrow> 'w \<times> eth_tx result" where
  "ServiceManager_CreateNewTask c opts batchMerkleRoot batchDataPointer =
     bound_Transact c opts ''createNewTask'' [GoBytes32 batchMerkleRoot, GoText batchDataPointer]"

definition ServiceManager_DeregisterOperatorFromAVS ::
  "('co, 'log, 'w) bound_contract \<Rightarrow> tx_opts \<Rightarrow> evm_address \<Rightarrow> 'w \<Rightarrow> 'w \<times> eth_tx result" where
  "ServiceManager_DeregisterOperatorFromAVS c opts operator =
     bound_Transact c opts ''deregisterOperatorFromAVS'' [GoAddress operator]"

definition ServiceManager_Initialize ::
  "('co, 'log, 'w) bound_contract \<Rightarrow> tx_opts \<Rightarrow> evm_address \<Rightarrow> 'w \<Rightarrow> 'w \<times> eth_tx result" where
  "ServiceManager_Initialize c opts initialOwner =
     bound_Transact c opts ''initialize'' [GoAddress initialOwner]"

definition ServiceManager_RegisterOperatorToAVS ::
  "('co, 'log, 'w) bound_contract \<Rightarrow> tx_opts \<Rightarrow> evm_address \<Rightarrow> ISignatureUtilsSignatureWithSaltAndExpiry \<Rightarrow> 'w \<Rightarrow> 'w \<times> eth_tx result" where
  "ServiceManager_RegisterOperatorToAVS c opts operator operatorSignature =
     bound_Transact c opts ''registerOperatorToAVS'' [GoAddress operator, salted_value operatorSignature]"

definition ServiceManager_RenounceOwnership ::
  "('co, 'log, 'w) bound_contract \<Rightarrow> tx_opts \<Rightarrow> 'w \<Rightarrow> 'w \<times> eth_tx result" where
  "ServiceManager_RenounceOwnership c opts =
     bound_Transact c opts ''renounceOwnership'' []"

definition ServiceManager_RespondToTask ::
  "('co, 'log, 'w) bound_contract \<Rightarrow> tx_opts \<Rightarrow> bytes32 \<Rightarrow> NonSignerStakesAndSignature \<Rightarrow> 'w \<Rightarrow> 'w \<times> eth_tx result" where
  "ServiceManager_RespondToTask c opts batchMerkleRoot nonSignerStakesAndSignature =
     bound_Transact c opts ''respondToTask'' [GoBytes32 batchMerkleRoot, signature_value nonSignerStakesAndSignature]"

definition ServiceManager_SetRewardsInitiator ::
  "('co, 'log, 'w) bound_contract \<Rightarrow> tx_opts \<Rightarrow> evm_address \<Rightarrow> 'w \<Rightarrow> 'w \<times> eth_tx result" where
  "ServiceManager_SetRewardsInitiator c opts newRewardsInitiator =
     bound_Transact c opts ''setRewardsInitiator'' [GoAddress newRewardsInitiator]"

definition ServiceManager_SetStaleStakesForbidden ::
  "('co, 'log, 'w) bound_contract \<Rightarrow> tx_opts \<Rightarrow> bool \<Rightarrow> 'w \<Rightarrow> 'w \<times> eth_tx result" where
  "ServiceManager_SetStaleStakesForbidden c opts value =
     bound_Transact c opts ''setStaleStakesForbidden'' [GoBool value]"

definition ServiceManager_TransferOwnership ::
  "('co, 'log, 'w) bound_contract \<Rightarrow> tx_opts \<Rightarrow> evm_address \<Rightarrow> 'w \<Rightarrow> 'w \<times> eth_tx result" where
  "ServiceManager_TransferOwnership c opts newOwner =
     bound_Transact c opts ''transferOwnership'' [GoAddress newOwner]"

definition ServiceManager_UpdateAVSMetadataURI ::
  "('co, 'log, 'w) bound_contract \<Rightarrow> tx_opts \<Rightarrow> string \<Rightarrow> 'w \<Rightarrow> 'w \<times> eth_tx result" where
  "ServiceManager_UpdateAVSMetadataURI c opts metadataURI =
     bound_Transact c opts ''updateAVSMetadataURI'' [GoText metadataURI]"

subsection \<open>The contract's side of a call\<close>

text \<open>
  What the contract makes of the name and the arguments of a transaction: a \<open>big.Int\<close> arrives as a
  \<open>uint256\<close>, the rest as it is. Other methods are those of the base contracts.
\<close>

definition sol_uint256 :: "int \<Rightarrow> int" where
  "sol_uint256 i = i mod 2 ^ 256"

definition sol_uint :: "go_value \<Rightarrow> int option" where
  "sol_uint v = map_option sol_uint256 (as_big v)"

definition sol_pair :: "go_value list option \<Rightarrow> (int \<times> int) option" where
  "sol_pair vs =
     (case vs of
        Some [x, y] \<Rightarrow> (case (sol_uint x, sol_uint y) of (Some a, Some b) \<Rightarrow> Some (a, b) | _ \<Rightarrow> None)
      | _ \<Rightarrow> None)"

definition sol_g1 :: "go_value \<Rightarrow> BN254G1Point option" where
  "sol_g1 v = map_option (\<lambda>(x, y). \<lparr>bn1_X = x, bn1_Y = y\<rparr>) (sol_pair (as_struct v))"

definition sol_g2 :: "go_value \<Rightarrow> BN254G2Point option" where
  "sol_g2 v =
     (case as_struct v of
        Some [x, y] \<Rightarrow>
          (case (sol_pair (as_slice Some x), sol_pair (as_slice Some y)) of
             (Some a, Some b) \<Rightarrow> Some \<lparr>bn2_X = a, bn2_Y = b\<rparr>
           | _ \<Rightarrow> None)
      | _ \<Rightarrow> None)"

definition sol_signature :: "go_value \<Rightarrow> NonSignerStakesAndSignature option" where
  "sol_signature v =
     (case as_struct v of
        Some [bitmaps, keys, apks, apk2, sigma, apkIdx, stakeIdx, nonSignerIdx] \<Rightarrow>
          (case (as_slice as_uint32 bitmaps, as_slice sol_g1 keys, as_slice sol_g1 apks, sol_g2 apk2,
                 sol_g1 sigma, as_slice as_uint32 apkIdx, as_slice as_uint32 stakeIdx,
                 as_slice (as_slice as_uint32) nonSignerIdx) of
             (Some b, Some k, Some a, Some a2, Some s, Some ai, Some si, Some ni) \<Rightarrow>
               Some \<lparr>NonSignerQuorumBitmapIndices = b, NonSignerPubkeys = k, QuorumApks = a, ApkG2 = a2,
                 Sigma = s, QuorumApkIndices = ai, TotalStakeIndices = si, NonSignerStakeIndices = ni\<rparr>
           | _ \<Rightarrow> None)
      | _ \<Rightarrow> None)"

definition service_manager_call ::
  "(bytes32 \<Rightarrow> u32 \<Rightarrow> NonSignerStakesAndSignature \<Rightarrow> (QuorumStakeTotals \<times> bytes32) result) \<Rightarrow> nat \<Rightarrow>
     string \<times> go_value list \<Rightarrow> storage \<Rightarrow> (storage \<times> chain_event list) result" where
  "service_manager_call check block_number tx st =
     (case tx of (method, args) \<Rightarrow>
        if method = ''createNewTask'' then
          (case args of
             [GoBytes32 root, GoText pointer] \<Rightarrow> createNewTask block_number root pointer st
           | _ \<Rightarrow> Inl ''abi'')
        else if method = ''respondToTask'' then
          (case args of
             [GoBytes32 root, v] \<Rightarrow>
               (case sol_signature v of
                  Some sig \<Rightarrow> respondToTask check root sig st
                | None \<Rightarrow> Inl ''abi'')
           | _ \<Rightarrow> Inl ''abi'')
        else Inl ''other method'')"

text \<open>Coordinates that fit a \<open>uint256\<close>; those of curve points do.\<close>

definition fits_uint256 :: "int \<Rightarrow> bool" where
  "fits_uint256 i \<longleftrightarrow> 0 \<le> i \<and> i < 2 ^ 256"

definition g1_fits :: "BN254G1Point \<Rightarrow> bool" where
  "g1_fits p \<longleftrightarrow> fits_uint256 (bn1_X p) \<and> fits_uint256 (bn1_Y p)"

definition g2_fits :: "BN254G2Point \<Rightarrow> bool" where
  "g2_fits p \<longleftrightarrow> list_all fits_uint256 [fst (bn2_X p), snd (bn2_X p), fst (bn2_Y p), snd (bn2_Y p)]"

definition signature_fits :: "NonSignerStakesAndSignature \<Rightarrow> bool" where
  "signature_fits s \<longleftrightarrow> (\<forall>p\<in>set (NonSignerPubkeys s) \<union> set (QuorumApks s) \<union> {Sigma s}. g1_fits p)
     \<and> g2_fits (ApkG2 s)"

lemma sol_uint256_fits: "fits_uint256 i \<Longrightarrow> sol_uint256 i = i"
  by (simp add: sol_uint256_def fits_uint256_def)

lemma sol_uint_fits: "fits_uint256 i \<Longrightarrow> sol_uint (GoBig i) = Some i"
  by (simp add: sol_uint_def sol_uint256_fits)

lemma sol_g1_value: "g1_fits p \<Longrightarrow> sol_g1 (g1_value p) = Some p"
  by (simp add: sol_g1_def sol_pair_def g1_value_def g1_fits_def sol_uint_fits)

lemma sol_g2_value: "g2_fits p \<Longrightarrow> sol_g2 (g2_value p) = Some p"
  by (simp add: sol_g2_def sol_pair_def g2_value_def big_pair_def g2_fits_def sol_uint_fits)

lemma uint32s_read: "as_slice as_uint32 (uint32s_value ns) = Some ns"
  using all_some_map [of ns as_uint32 GoUint32 "\<lambda>n. n"] by (simp add: uint32s_value_def)

lemma uint32ss_read: "as_slice (as_slice as_uint32) (GoSlice (map uint32s_value nss)) = Some nss"
  using all_some_map [of nss "as_slice as_uint32" uint32s_value "\<lambda>n. n"] by (simp add: uint32s_read)

lemma g1s_read: "(\<And>p. p \<in> set ps \<Longrightarrow> g1_fits p) \<Longrightarrow> as_slice sol_g1 (GoSlice (map g1_value ps)) = Some ps"
  using all_some_map [of ps sol_g1 g1_value "\<lambda>p. p"] by (simp add: sol_g1_value)

text \<open>The argument of \<open>respondToTask\<close> arrives as it was sent.\<close>

lemma sol_signature_value: "signature_fits s \<Longrightarrow> sol_signature (signature_value s) = Some s"
  by (simp add: sol_signature_def signature_value_def signature_fits_def uint32s_read uint32ss_read g1s_read
      sol_g1_value sol_g2_value del: as_slice.simps)

subsection \<open>The binding as the writer's client\<close>

text \<open>The two operations the writer needs, over the binding's methods.\<close>

definition binding_backend ::
  "('co, 'log, 'w) ServiceManager_binding \<Rightarrow> ('w, NonSignerStakesAndSignature, 'r) eth_backend \<Rightarrow>
     ('w, NonSignerStakesAndSignature, 'r) eth_backend" where
  "binding_backend s client =
     client\<lparr>RespondToTask := ServiceManager_RespondToTask (sm_Transactor s),
       CreateNewTask := ServiceManager_CreateNewTask (sm_Transactor s)\<rparr>"

text \<open>
  What is assumed of \<open>Transact\<close>: a transaction with the method and the arguments goes into the pool
  (\<open>pool\<close>, a view of the world), unless there is an error or \<open>NoSend\<close> is set.
\<close>

definition submits :: "('co, 'log, 'w) bound_contract \<Rightarrow> ('w \<Rightarrow> (string \<times> go_value list) list) \<Rightarrow> bool" where
  "submits c pool \<longleftrightarrow>
     (\<forall>opts method args w w' r. bound_Transact c opts method args w = (w', r) \<longrightarrow>
        pool w' = pool w @ (case r of Inl err \<Rightarrow> [] | Inr tx \<Rightarrow> if NoSend opts then [] else [(method, args)]))"

lemma submits_pool:
  "submits c pool \<Longrightarrow> bound_Transact c opts method args w = (w', r) \<Longrightarrow>
     pool w' = pool w @ (case r of Inl err \<Rightarrow> [] | Inr tx \<Rightarrow> if NoSend opts then [] else [(method, args)])"
  by (simp add: submits_def)

text \<open>The transactions the contract runs as \<open>createNewTask\<close> and \<open>respondToTask\<close>.\<close>

lemma create_transaction:
  "service_manager_call check n (''createNewTask'', [GoBytes32 root, GoText pointer]) st
     = createNewTask n root pointer st"
  by (simp add: service_manager_call_def)

lemma respond_transaction:
  "signature_fits sig \<Longrightarrow>
   service_manager_call check n (''respondToTask'', [GoBytes32 root, signature_value sig]) st
     = respondToTask check root sig st"
  by (simp add: service_manager_call_def sol_signature_value)

subsection \<open>Properties\<close>

text \<open>C17: Through the generated binding the aggregator's response reaches the contract's function: when
  the writer reports a hash, exactly one transaction was handed to the node (the dry run sends none),
  and the contract executes it, in whatever block and state it gets there, as \<open>respondToTask\<close> with
  that root and that signature; when the writer reports an error, none was.\<close>

theorem response_reaches_contract:
  assumes "submits (sm_Transactor s) pool" and "signature_fits sig"
    and "SendAggregatedResponse (binding_backend s client) opts root sig w = (w', r)"
  shows "case r of
      Inl err \<Rightarrow> pool w' = pool w
    | Inr h \<Rightarrow> \<exists>tx. pool w' = pool w @ [tx] \<and>
        (\<forall>check n st. service_manager_call check n tx st = respondToTask check root sig st)"
proof -
  let ?args = "[GoBytes32 root, signature_value sig]"
  let ?call = "\<lambda>opts. bound_Transact (sm_Transactor s) opts ''respondToTask'' ?args"
  have call: "RespondToTask (binding_backend s client) o1 root sig = ?call o1" for o1
    by (auto simp: binding_backend_def ServiceManager_RespondToTask_def)
  obtain w1 r1 where 1: "?call (opts\<lparr>NoSend := True\<rparr>) w = (w1, r1)" by fastforce
  have p1: "pool w1 = pool w" using submits_pool [OF assms(1) 1] by (simp split: sum.splits)
  show ?thesis
  proof (cases r1)
    case (Inl err)
    then show ?thesis using assms(3) 1 p1 by (auto simp: SendAggregatedResponse_def call)
  next
    case (Inr tx1)
    let ?opts = "opts\<lparr>NoSend := False, GasLimit := raised_gas (Gas tx1)\<rparr>"
    obtain w2 r2 where 2: "?call ?opts w1 = (w2, r2)" by fastforce
    have out: "w' = w2" "r = (case r2 of Inl err \<Rightarrow> Inl err | Inr tx \<Rightarrow> Inr (Hash tx))"
      using assms(3) 1 2 Inr by (auto simp: SendAggregatedResponse_def call split: sum.splits)
    have "pool w2 = pool w @ (case r2 of Inl err \<Rightarrow> [] | Inr tx \<Rightarrow> [(''respondToTask'', ?args)])"
      using submits_pool [OF assms(1) 2] p1 by (simp split: sum.splits)
    then show ?thesis
      using out respond_transaction [OF assms(2)] by (cases r2) auto
  qed
qed

text \<open>A node that only keeps its pool.\<close>

definition example_bound :: "(unit, nat, (string \<times> go_value list) list) bound_contract" where
  "example_bound = \<lparr>bound_Call = \<lambda>q m a w. Inl ''no node'',
     bound_Transact = \<lambda>q m a w. (if NoSend q then w else w @ [(m, a)], Inr \<lparr>Gas = 100, Hash = [1]\<rparr>),
     bound_Transfer = \<lambda>q w. (w, Inl ''no node''),
     bound_FilterLogs = \<lambda>q m r w. Inr [], bound_WatchLogs = \<lambda>q m r w. Inr (),
     bound_UnpackLog = \<lambda>m l. Inl ''no log''\<rparr>"

definition example_binding :: "(unit, nat, (string \<times> go_value list) list) ServiceManager_binding" where
  "example_binding = \<lparr>sm_Caller = example_bound, sm_Transactor = example_bound, sm_Filterer = example_bound\<rparr>"

definition example_sig :: NonSignerStakesAndSignature where
  "example_sig = \<lparr>NonSignerQuorumBitmapIndices = [0], NonSignerPubkeys = [\<lparr>bn1_X = 1, bn1_Y = 2\<rparr>],
     QuorumApks = [], ApkG2 = \<lparr>bn2_X = (1, 2), bn2_Y = (3, 4)\<rparr>, Sigma = \<lparr>bn1_X = 5, bn1_Y = 6\<rparr>,
     QuorumApkIndices = [], TotalStakeIndices = [], NonSignerStakeIndices = [[7]]\<rparr>"

definition example_client ::
  "((string \<times> go_value list) list, NonSignerStakesAndSignature, unit) eth_backend" where
  "example_client = \<lparr>RespondToTask = \<lambda>q r n w. (w, Inl []), CreateNewTask = \<lambda>q r p w. (w, Inl []),
     TransactionReceipt = \<lambda>h w. (w, Inr ()), Sleep = \<lambda>n w. w, HashString = \<lambda>h. []\<rparr>"

theorem response_reaches_contract_witness:
  "\<exists>tx. fst (SendAggregatedResponse (binding_backend example_binding example_client)
       \<lparr>NoSend = False, GasLimit = 0\<rparr> [9] example_sig []) = [tx]
     \<and> (\<forall>check n st. service_manager_call check n tx st = respondToTask check [9] example_sig st)"
proof -
  have pool: "submits (sm_Transactor example_binding) (\<lambda>w. w)"
    by (auto simp: submits_def example_binding_def example_bound_def)
  have fits: "signature_fits example_sig"
    by (simp add: signature_fits_def example_sig_def g1_fits_def g2_fits_def fits_uint256_def)
  have run: "SendAggregatedResponse (binding_backend example_binding example_client)
      \<lparr>NoSend = False, GasLimit = 0\<rparr> [9] example_sig []
      = ([(''respondToTask'', [GoBytes32 [9], signature_value example_sig])], Inr [1])"
    by (simp add: SendAggregatedResponse_def binding_backend_def example_binding_def example_bound_def
        ServiceManager_RespondToTask_def)
  show ?thesis using response_reaches_contract [OF pool fits run] by (simp add: run)
qed

end
