(* ===== verification/Service_Manager_Events.thy ===== *)
theory Service_Manager_Events
  imports Service_Manager_Binding Agg_Subscriber
begin

text \<open>
  The six events of the service manager in its Go binding: for each the struct, what a log of it
  must hold, its iterator, and the methods to parse, filter and watch. Then the way of an event from
  the contract's log to the aggregator's caches and to the user of an iterator.
\<close>

subsection \<open>\<open>BatchVerified\<close>\<close>

record ServiceManager_BatchVerified =
  bv_BatchMerkleRoot :: bytes32

fun ServiceManager_BatchVerified_fields :: "go_value list \<Rightarrow> ServiceManager_BatchVerified option" where
  "ServiceManager_BatchVerified_fields [GoBytes32 x0] = Some \<lparr>bv_BatchMerkleRoot = x0\<rparr>"
| "ServiceManager_BatchVerified_fields _ = None"

definition ServiceManager_ParseBatchVerified ::
  "('co, 'log, 'w) ServiceManager_binding \<Rightarrow> 'log \<Rightarrow> (ServiceManager_BatchVerified \<times> 'log) result" where
  "ServiceManager_ParseBatchVerified s = parse_event (sm_Filterer s) ''BatchVerified'' ServiceManager_BatchVerified_fields"

definition ServiceManager_BatchVerified_Next ::
  "('co, 'log, 'w) ServiceManager_binding \<Rightarrow> (ServiceManager_BatchVerified, 'log) event_iterator \<Rightarrow>
     (ServiceManager_BatchVerified, 'log) event_iterator \<Rightarrow> bool \<Rightarrow> bool" where
  "ServiceManager_BatchVerified_Next s = iterator_Next (parse_event (sm_Filterer s) ''BatchVerified'' ServiceManager_BatchVerified_fields)"

definition ServiceManager_FilterBatchVerified ::
  "('co, 'log, 'w) ServiceManager_binding \<Rightarrow> filter_opts \<Rightarrow> bytes32 list \<Rightarrow> 'w \<Rightarrow>
     (ServiceManager_BatchVerified, 'log) iterator_object result" where
  "ServiceManager_FilterBatchVerified s opts batchMerkleRoot w =
     rbind (bound_FilterLogs (sm_Filterer s) opts ''BatchVerified'' [map GoBytes32 batchMerkleRoot] w) (\<lambda>logs.
       Inr (new_iterator logs, ServiceManager_BatchVerified_Next s))"

definition ServiceManager_WatchBatchVerified ::
  "('co, 'log, 'w) ServiceManager_binding \<Rightarrow> watch_opts \<Rightarrow> bytes32 list \<Rightarrow> 'w \<Rightarrow>
     (ServiceManager_BatchVerified, 'log) subscription result" where
  "ServiceManager_WatchBatchVerified s opts batchMerkleRoot w =
     rbind (bound_WatchLogs (sm_Filterer s) opts ''BatchVerified'' [map GoBytes32 batchMerkleRoot] w) (\<lambda>_.
       Inr (watch_start, watch_step (parse_event (sm_Filterer s) ''BatchVerified'' ServiceManager_BatchVerified_fields)))"

subsection \<open>\<open>Initialized\<close>\<close>

record ServiceManager_Initialized =
  in_Version :: u8

fun ServiceManager_Initialized_fields :: "go_value list \<Rightarrow> ServiceManager_Initialized option" where
  "ServiceManager_Initialized_fields [GoUint8 x0] = Some \<lparr>in_Version = x0\<rparr>"
| "ServiceManager_Initialized_fields _ = None"

definition ServiceManager_ParseInitialized ::
  "('co, 'log, 'w) ServiceManager_binding \<Rightarrow> 'log \<Rightarrow> (ServiceManager_Initialized \<times> 'log) result" where
  "ServiceManager_ParseInitialized s = parse_event (sm_Filterer s) ''Initialized'' ServiceManager_Initialized_fields"

definition ServiceManager_Initialized_Next ::
  "('co, 'log, 'w) ServiceManager_binding \<Rightarrow> (ServiceManager_Initialized, 'log) event_iterator \<Rightarrow>
     (ServiceManager_Initialized, 'log) event_iterator \<Rightarrow> bool \<Rightarrow> bool" where
  "ServiceManager_Initialized_Next s = iterator_Next (parse_event (sm_Filterer s) ''Initialized'' ServiceManager_Initialized_fields)"

definition ServiceManager_FilterInitialized ::
  "('co, 'log, 'w) ServiceManager_binding \<Rightarrow> filter_opts \<Rightarrow> 'w \<Rightarrow>
     (ServiceManager_Initialized, 'log) iterator_object result" where
  "ServiceManager_FilterInitialized s opts w =
     rbind (bound_FilterLogs (sm_Filterer s) opts ''Initialized'' [] w) (\<lambda>logs.
       Inr (new_iterator logs, ServiceManager_Initialized_Next s))"

definition ServiceManager_WatchInitialized ::
  "('co, 'log, 'w) ServiceManager_binding \<Rightarrow> watch_opts \<Rightarrow> 'w \<Rightarrow>
     (ServiceManager_Initialized, 'log) subscription result" where
  "ServiceManager_WatchInitialized s opts w =
     rbind (bound_WatchLogs (sm_Filterer s) opts ''Initialized'' [] w) (\<lambda>_.
       Inr (watch_start, watch_step (parse_event (sm_Filterer s) ''Initialized'' ServiceManager_Initialized_fields)))"

subsection \<open>\<open>NewBatch\<close>\<close>

record ServiceManager_NewBatch =
  nb_BatchMerkleRoot :: bytes32
  nb_TaskCreatedBlock :: u32
  nb_BatchDataPointer :: string

fun ServiceManager_NewBatch_fields :: "go_value list \<Rightarrow> ServiceManager_NewBatch option" where
  "ServiceManager_NewBatch_fields [GoBytes32 x0, GoUint32 x1, GoText x2] = Some \<lparr>nb_BatchMerkleRoot = x0, nb_TaskCreatedBlock = x1, nb_BatchDataPointer = x2\<rparr>"
| "ServiceManager_NewBatch_fields _ = None"

definition ServiceManager_ParseNewBatch ::
  "('co, 'log, 'w) ServiceManager_binding \<Rightarrow> 'log \<Rightarrow> (ServiceManager_NewBatch \<times> 'log) result" where
  "ServiceManager_ParseNewBatch s = parse_event (sm_Filterer s) ''NewBatch'' ServiceManager_NewBatch_fields"

definition ServiceManager_NewBatch_Next ::
  "('co, 'log, 'w) ServiceManager_binding \<Rightarrow> (ServiceManager_NewBatch, 'log) event_iterator \<Rightarrow>
     (ServiceManager_NewBatch, 'log) event_iterator \<Rightarrow> bool \<Rightarrow> bool" where
  "ServiceManager_NewBatch_Next s = iterator_Next (parse_event (sm_Filterer s) ''NewBatch'' ServiceManager_NewBatch_fields)"

definition ServiceManager_FilterNewBatch ::
  "('co, 'log, 'w) ServiceManager_binding \<Rightarrow> filter_opts \<Rightarrow> bytes32 list \<Rightarrow> 'w \<Rightarrow>
     (ServiceManager_NewBatch, 'log) iterator_object result" where
  "ServiceManager_FilterNewBatch s opts batchMerkleRoot w =
     rbind (bound_FilterLogs (sm_Filterer s) opts ''NewBatch'' [map GoBytes32 batchMerkleRoot] w) (\<lambda>logs.
       Inr (new_iterator logs, ServiceManager_NewBatch_Next s))"

definition ServiceManager_WatchNewBatch ::
  "('co, 'log, 'w) ServiceManager_binding \<Rightarrow> watch_opts \<Rightarrow> bytes32 list \<Rightarrow> 'w \<Rightarrow>
     (ServiceManager_NewBatch, 'log) subscription result" where
  "ServiceManager_WatchNewBatch s opts batchMerkleRoot w =
     rbind (bound_WatchLogs (sm_Filterer s) opts ''NewBatch'' [map GoBytes32 batchMerkleRoot] w) (\<lambda>_.
       Inr (watch_start, watch_step (parse_event (sm_Filterer s) ''NewBatch'' ServiceManager_NewBatch_fields)))"

subsection \<open>\<open>OwnershipTransferred\<close>\<close>

record ServiceManager_OwnershipTransferred =
  ot_PreviousOwner :: evm_address
  ot_NewOwner :: evm_address

fun ServiceManager_OwnershipTransferred_fields :: "go_value list \<Rightarrow> ServiceManager_OwnershipTransferred option" where
  "ServiceManager_OwnershipTransferred_fields [GoAddress x0, GoAddress x1] = Some \<lparr>ot_PreviousOwner = x0, ot_NewOwner = x1\<rparr>"
| "ServiceManager_OwnershipTransferred_fields _ = None"

definition ServiceManager_ParseOwnershipTransferred ::
  "('co, 'log, 'w) ServiceManager_binding \<Rightarrow> 'log \<Rightarrow> (ServiceManager_OwnershipTransferred \<times> 'log) result" where
  "ServiceManager_ParseOwnershipTransferred s = parse_event (sm_Filterer s) ''OwnershipTransferred'' ServiceManager_OwnershipTransferred_fields"

definition ServiceManager_OwnershipTransferred_Next ::
  "('co, 'log, 'w) ServiceManager_binding \<Rightarrow> (ServiceManager_OwnershipTransferred, 'log) event_iterator \<Rightarrow>
     (ServiceManager_OwnershipTransferred, 'log) event_iterator \<Rightarrow> bool \<Rightarrow> bool" where
  "ServiceManager_OwnershipTransferred_Next s = iterator_Next (parse_event (sm_Filterer s) ''OwnershipTransferred'' ServiceManager_OwnershipTransferred_fields)"

definition ServiceManager_FilterOwnershipTransferred ::
  "('co, 'log, 'w) ServiceManager_binding \<Rightarrow> filter_opts \<Rightarrow> evm_address list \<Rightarrow> evm_address list \<Rightarrow> 'w \<Rightarrow>
     (ServiceManager_OwnershipTransferred, 'log) iterator_object result" where
  "ServiceManager_FilterOwnershipTransferred s opts previousOwner newOwner w =
     rbind (bound_FilterLogs (sm_Filterer s) opts ''OwnershipTransferred'' [map GoAddress previousOwner, map GoAddress newOwner] w) (\<lambda>logs.
       Inr (new_iterator logs, ServiceManager_OwnershipTransferred_Next s))"

definition ServiceManager_WatchOwnershipTransferred ::
  "('co, 'log, 'w) ServiceManager_binding \<Rightarrow> watch_opts \<Rightarrow> evm_address list \<Rightarrow> evm_address list \<Rightarrow> 'w \<Rightarrow>
     (ServiceManager_OwnershipTransferred, 'log) subscription result" where
  "ServiceManager_WatchOwnershipTransferred s opts previousOwner newOwner w =
     rbind (bound_WatchLogs (sm_Filterer s) opts ''OwnershipTransferred'' [map GoAddress previousOwner, map GoAddress newOwner] w) (\<lambda>_.
       Inr (watch_start, watch_step (parse_event (sm_Filterer s) ''OwnershipTransferred'' ServiceManager_OwnershipTransferred_fields)))"

subsection \<open>\<open>RewardsInitiatorUpdated\<close>\<close>

record ServiceManager_RewardsInitiatorUpdated =
  ri_PrevRewardsInitiator :: evm_address
  ri_NewRewardsInitiator :: evm_address

fun ServiceManager_RewardsInitiatorUpdated_fields :: "go_value list \<Rightarrow> ServiceManager_RewardsInitiatorUpdated option" where
  "ServiceManager_RewardsInitiatorUpdated_fields [GoAddress x0, GoAddress x1] = Some \<lparr>ri_PrevRewardsInitiator = x0, ri_NewRewardsInitiator = x1\<rparr>"
| "ServiceManager_RewardsInitiatorUpdated_fields _ = None"

definition ServiceManager_ParseRewardsInitiatorUpdated ::
  "('co, 'log, 'w) ServiceManager_binding \<Rightarrow> 'log \<Rightarrow> (ServiceManager_RewardsInitiatorUpdated \<times> 'log) result" where
  "ServiceManager_ParseRewardsInitiatorUpdated s = parse_event (sm_Filterer s) ''RewardsInitiatorUpdated'' ServiceManager_RewardsInitiatorUpdated_fields"

definition ServiceManager_RewardsInitiatorUpdated_Next ::
  "('co, 'log, 'w) ServiceManager_binding \<Rightarrow> (ServiceManager_RewardsInitiatorUpdated, 'log) event_iterator \<Rightarrow>
     (ServiceManager_RewardsInitiatorUpdated, 'log) event_iterator \<Rightarrow> bool \<Rightarrow> bool" where
  "ServiceManager_RewardsInitiatorUpdated_Next s = iterator_Next (parse_event (sm_Filterer s) ''RewardsInitiatorUpdated'' ServiceManager_RewardsInitiatorUpdated_fields)"

definition ServiceManager_FilterRewardsInitiatorUpdated ::
  "('co, 'log, 'w) ServiceManager_binding \<Rightarrow> filter_opts \<Rightarrow> 'w \<Rightarrow>
     (ServiceManager_RewardsInitiatorUpdated, 'log) iterator_object result" where
  "ServiceManager_FilterRewardsInitiatorUpdated s opts w =
     rbind (bound_FilterLogs (sm_Filterer s) opts ''RewardsInitiatorUpdated'' [] w) (\<lambda>logs.
       Inr (new_iterator logs, ServiceManager_RewardsInitiatorUpdated_Next s))"

definition ServiceManager_WatchRewardsInitiatorUpdated ::
  "('co, 'log, 'w) ServiceManager_binding \<Rightarrow> watch_opts \<Rightarrow> 'w \<Rightarrow>
     (ServiceManager_RewardsInitiatorUpdated, 'log) subscription result" where
  "ServiceManager_WatchRewardsInitiatorUpdated s opts w =
     rbind (bound_WatchLogs (sm_Filterer s) opts ''RewardsInitiatorUpdated'' [] w) (\<lambda>_.
       Inr (watch_start, watch_step (parse_event (sm_Filterer s) ''RewardsInitiatorUpdated'' ServiceManager_RewardsInitiatorUpdated_fields)))"

subsection \<open>\<open>StaleStakesForbiddenUpdate\<close>\<close>

record ServiceManager_StaleStakesForbiddenUpdate =
  ss_Value :: bool

fun ServiceManager_StaleStakesForbiddenUpdate_fields :: "go_value list \<Rightarrow> ServiceManager_StaleStakesForbiddenUpdate option" where
  "ServiceManager_StaleStakesForbiddenUpdate_fields [GoBool x0] = Some \<lparr>ss_Value = x0\<rparr>"
| "ServiceManager_StaleStakesForbiddenUpdate_fields _ = None"

definition ServiceManager_ParseStaleStakesForbiddenUpdate ::
  "('co, 'log, 'w) ServiceManager_binding \<Rightarrow> 'log \<Rightarrow> (ServiceManager_StaleStakesForbiddenUpdate \<times> 'log) result" where
  "ServiceManager_ParseStaleStakesForbiddenUpdate s = parse_event (sm_Filterer s) ''StaleStakesForbiddenUpdate'' ServiceManager_StaleStakesForbiddenUpdate_fields"

definition ServiceManager_StaleStakesForbiddenUpdate_Next ::
  "('co, 'log, 'w) ServiceManager_binding \<Rightarrow> (ServiceManager_StaleStakesForbiddenUpdate, 'log) event_iterator \<Rightarrow>
     (ServiceManager_StaleStakesForbiddenUpdate, 'log) event_iterator \<Rightarrow> bool \<Rightarrow> bool" where
  "ServiceManager_StaleStakesForbiddenUpdate_Next s = iterator_Next (parse_event (sm_Filterer s) ''StaleStakesForbiddenUpdate'' ServiceManager_StaleStakesForbiddenUpdate_fields)"

definition ServiceManager_FilterStaleStakesForbiddenUpdate ::
  "('co, 'log, 'w) ServiceManager_binding \<Rightarrow> filter_opts \<Rightarrow> 'w \<Rightarrow>
     (ServiceManager_StaleStakesForbiddenUpdate, 'log) iterator_object result" where
  "ServiceManager_FilterStaleStakesForbiddenUpdate s opts w =
     rbind (bound_FilterLogs (sm_Filterer s) opts ''StaleStakesForbiddenUpdate'' [] w) (\<lambda>logs.
       Inr (new_iterator logs, ServiceManager_StaleStakesForbiddenUpdate_Next s))"

definition ServiceManager_WatchStaleStakesForbiddenUpdate ::
  "('co, 'log, 'w) ServiceManager_binding \<Rightarrow> watch_opts \<Rightarrow> 'w \<Rightarrow>
     (ServiceManager_StaleStakesForbiddenUpdate, 'log) subscription result" where
  "ServiceManager_WatchStaleStakesForbiddenUpdate s opts w =
     rbind (bound_WatchLogs (sm_Filterer s) opts ''StaleStakesForbiddenUpdate'' [] w) (\<lambda>_.
       Inr (watch_start, watch_step (parse_event (sm_Filterer s) ''StaleStakesForbiddenUpdate'' ServiceManager_StaleStakesForbiddenUpdate_fields)))"

subsection \<open>From the contract's log to the aggregator\<close>

text \<open>
  What is assumed of \<open>UnpackLog\<close>: it gives back the arguments of the event the contract emitted
  (\<open>emit\<close> is the log record the chain makes of it).
\<close>

definition reads_logs :: "('co, 'log, 'w) bound_contract \<Rightarrow> (chain_event \<Rightarrow> 'log) \<Rightarrow> bool" where
  "reads_logs c emit \<longleftrightarrow> (\<forall>root blk pointer.
     bound_UnpackLog c ''NewBatch'' (emit (NewBatch root blk pointer))
       = Inr [GoBytes32 root, GoUint32 blk, GoText pointer])"

fun new_batches :: "chain_event list \<Rightarrow> (bytes32 \<times> u32 \<times> string) list" where
  "new_batches [] = []"
| "new_batches (NewBatch root blk pointer # log) = (root, blk, pointer) # new_batches log"
| "new_batches (BatchVerified root # log) = new_batches log"

definition batch_logs :: "(chain_event \<Rightarrow> 'log) \<Rightarrow> chain_event list \<Rightarrow> 'log list" where
  "batch_logs emit log = map (\<lambda>(root, blk, pointer). emit (NewBatch root blk pointer)) (new_batches log)"

definition batch_event :: "(chain_event \<Rightarrow> 'log) \<Rightarrow> bytes32 \<times> u32 \<times> string \<Rightarrow> ServiceManager_NewBatch \<times> 'log" where
  "batch_event emit b = (case b of (root, blk, pointer) \<Rightarrow>
     (\<lparr>nb_BatchMerkleRoot = root, nb_TaskCreatedBlock = blk, nb_BatchDataPointer = pointer\<rparr>,
      emit (NewBatch root blk pointer)))"

text \<open>The event as the aggregator's loop takes it from its channel.\<close>

definition task_event :: "ServiceManager_NewBatch \<times> 'log \<Rightarrow> sub_event" where
  "task_event ev = NewBatchLog (nb_BatchMerkleRoot (fst ev)) (nb_TaskCreatedBlock (fst ev))"

lemma parse_batch_log:
  "reads_logs (sm_Filterer s) emit \<Longrightarrow>
   ServiceManager_ParseNewBatch s (emit (NewBatch root blk pointer)) = Inr (batch_event emit (root, blk, pointer))"
  by (simp add: ServiceManager_ParseNewBatch_def parse_event_def reads_logs_def batch_event_def)

lemma parse_batch_logs:
  "reads_logs (sm_Filterer s) emit \<Longrightarrow>
   map (ServiceManager_ParseNewBatch s) (batch_logs emit log) = map Inr (map (batch_event emit) (new_batches log))"
  by (auto simp: batch_logs_def parse_batch_log)

lemma watched_events:
  assumes "reads_logs (sm_Filterer s) emit" "watch_reaches (ServiceManager_ParseNewBatch s) watch_start w"
    and "w_result w = None" "w_arrived w = batch_logs emit log"
  shows "\<exists>k. w_sink w = map (batch_event emit) (take k (new_batches log))
    \<and> (w_logs w = [] \<and> w_hand w = None \<longrightarrow> k = length (new_batches log))"
proof -
  let ?evs = "map (batch_event emit) (new_batches log)"
  have m: "map Inr ?evs = map Inr (w_sink w @ (case w_hand w of None \<Rightarrow> [] | Some ev \<Rightarrow> [ev]))
      @ map (ServiceManager_ParseNewBatch s) (w_logs w)"
    using watch_running [OF assms(2,3)] parse_batch_logs [OF assms(1), of log] assms(4) by simp
  have "?evs = map projr (map (Inr :: _ \<Rightarrow> string + _) ?evs)" by simp
  also have "\<dots> = w_sink w @ (case w_hand w of None \<Rightarrow> [] | Some ev \<Rightarrow> [ev])
      @ map (projr \<circ> ServiceManager_ParseNewBatch s) (w_logs w)"
    unfolding m by (simp add: comp_def)
  finally have e: "?evs = w_sink w @ (case w_hand w of None \<Rightarrow> [] | Some ev \<Rightarrow> [ev])
      @ map (projr \<circ> ServiceManager_ParseNewBatch s) (w_logs w)" .
  then have "w_sink w = take (length (w_sink w)) ?evs" by (metis append_eq_conv_conj)
  moreover have "length (w_sink w) = length (new_batches log)" if "w_logs w = []" "w_hand w = None"
    using arg_cong [OF e, of length] that by simp
  ultimately show ?thesis by (intro exI [of _ "length (w_sink w)"]) (simp add: take_map)
qed

lemma delivered_task_events:
  "delivered (map task_event (map (batch_event emit) bs)) = map fst bs
   \<and> first_error (map task_event (map (batch_event emit) bs)) = None"
  by (induction bs) (auto simp: task_event_def batch_event_def)

subsection \<open>Property\<close>

text \<open>C18: The aggregator numbers the batches as the contract created them: when it runs on a subscription
  of the generated \<open>WatchNewBatch\<close> that is still alive and to which the node delivered the logs of the
  contract, its caches are the distinct roots of the first events of the contract's log, in that
  order, and those of all of them once nothing is under way in the goroutine.\<close>

theorem aggregator_numbers_contract_batches:
  assumes "accepts_tasks init" and "reads_logs (sm_Filterer s) emit"
    and "ServiceManager_WatchNewBatch s opts [] world = Inr (w0, watch)" and "watch\<^sup>*\<^sup>* w0 w"
    and "w_result w = None" and "w_arrived w = batch_logs emit log"
    and "script 0 = (None, map task_event (w_sink w))"
  shows "\<exists>a k. SubscribeToNewTasks init script (new_aggregator b) = Ret (Listening a)
    \<and> (w_logs w = [] \<and> w_hand w = None \<longrightarrow> k = length (new_batches log))
    \<and> (let rs = fold spec_add (map fst (take k (new_batches log))) [] in
        \<forall>r i. batchesIdxByRoot a r = Some i \<longleftrightarrow> unat i < length rs \<and> rs ! unat i = r)"
proof -
  have "w0 = watch_start" "watch = watch_step (ServiceManager_ParseNewBatch s)"
    using assms(3) by (auto simp: ServiceManager_WatchNewBatch_def ServiceManager_ParseNewBatch_def go_simps)
  then have "watch_reaches (ServiceManager_ParseNewBatch s) watch_start w" using assms(4) by simp
  from watched_events [OF assms(2) this assms(5,6)] obtain k where
    k: "w_sink w = map (batch_event emit) (take k (new_batches log))"
      "w_logs w = [] \<and> w_hand w = None \<longrightarrow> k = length (new_batches log)" by blast
  have script: "snd (script 0) = map task_event (map (batch_event emit) (take k (new_batches log)))"
    using assms(7) k(1) by simp
  have d: "delivered (snd (script 0)) = map fst (take k (new_batches log))" "first_error (snd (script 0)) = None"
    unfolding script using delivered_task_events [of emit "take k (new_batches log)"] by simp_all
  show ?thesis
    using tasks_get_arrival_index [OF assms(1), of script b] assms(7) d k(2) by (auto simp: Let_def)
qed

text \<open>A binding whose logs are the contract's events.\<close>

definition log_binding :: "(unit, chain_event, unit) ServiceManager_binding" where
  "log_binding = (let c = \<lparr>bound_Call = \<lambda>q m a w. Inl [], bound_Transact = \<lambda>q m a w. (w, Inl []),
     bound_Transfer = \<lambda>q w. (w, Inl []),
     bound_FilterLogs = \<lambda>q m r w. Inr [], bound_WatchLogs = \<lambda>q m r w. Inr (),
     bound_UnpackLog = \<lambda>m l. case l of
         NewBatch root blk pointer \<Rightarrow> Inr [GoBytes32 root, GoUint32 blk, GoText pointer]
       | BatchVerified root \<Rightarrow> Inr [GoBytes32 root]\<rparr>
     in \<lparr>sm_Caller = c, sm_Transactor = c, sm_Filterer = c\<rparr>)"

lemma log_binding_reads: "reads_logs (sm_Filterer log_binding) id"
  by (simp add: reads_logs_def log_binding_def Let_def)

lemma one_batch_watched:
  "\<exists>w. watch_reaches (ServiceManager_ParseNewBatch log_binding) watch_start w \<and> w_result w = None
     \<and> w_arrived w = [NewBatch [7] 1 ''u''] \<and> w_logs w = [] \<and> w_hand w = None
     \<and> w_sink w = [batch_event id ([7], 1, ''u'')]"
proof -
  let ?parse = "ServiceManager_ParseNewBatch log_binding"
  let ?l = "NewBatch [7] 1 ''u''" and ?e = "batch_event id ([7], 1, ''u'')"
  let ?w1 = "watch_start\<lparr>w_arrived := [?l], w_logs := [?l]\<rparr>"
  let ?w2 = "?w1\<lparr>w_logs := [], w_hand := Some ?e\<rparr>"
  let ?w3 = "?w2\<lparr>w_sink := [?e], w_hand := None\<rparr>"
  have "watch_step ?parse watch_start ?w1"
    using watch_step.arrive [of watch_start ?parse ?l] by (simp add: watch_start_def)
  moreover have "watch_step ?parse ?w1 ?w2"
    using watch_step.parsed [of ?w1 ?l "[]" ?parse ?e]
      parse_batch_log [OF log_binding_reads, of "[7]" 1 "''u''"] by (simp add: watch_start_def)
  moreover have "watch_step ?parse ?w2 ?w3"
    using watch_step.forward [of ?w2 ?e ?parse] by (simp add: watch_start_def)
  ultimately have "watch_reaches ?parse watch_start ?w3"
    by (meson converse_rtranclp_into_rtranclp rtranclp.rtrancl_refl)
  then show ?thesis by (intro exI [of _ ?w3]) (simp add: watch_start_def)
qed

theorem aggregator_numbers_contract_batches_witness:
  "\<exists>script a. SubscribeToNewTasks logging_init script (new_aggregator []) = Ret (Listening a)
     \<and> batchesIdxByRoot a [7] = Some 0"
proof -
  let ?log = "[NewBatch [7] 1 ''u'', BatchVerified [7]]"
  obtain w where w: "watch_reaches (ServiceManager_ParseNewBatch log_binding) watch_start w" "w_result w = None"
      "w_arrived w = [NewBatch [7] 1 ''u'']" "w_logs w = []" "w_hand w = None"
      "w_sink w = [batch_event id ([7], 1, ''u'')]"
    using one_batch_watched by blast
  let ?script = "\<lambda>_ :: nat. (None :: string option, map task_event (w_sink w))"
  have sub: "ServiceManager_WatchNewBatch log_binding \<lparr>wo_Start = None\<rparr> [] ()
      = Inr (watch_start, watch_step (ServiceManager_ParseNewBatch log_binding))"
    by (simp add: ServiceManager_WatchNewBatch_def ServiceManager_ParseNewBatch_def log_binding_def Let_def)
  have logs: "w_arrived w = batch_logs id ?log" using w(3) by (simp add: batch_logs_def)
  from aggregator_numbers_contract_batches [OF logging_init_accepts log_binding_reads sub w(1,2) logs, of ?script "[]"]
  obtain a where a: "SubscribeToNewTasks logging_init ?script (new_aggregator []) = Ret (Listening a)"
      "\<forall>r i. batchesIdxByRoot a r = Some i \<longleftrightarrow>
         unat i < length (fold spec_add [[7]] []) \<and> fold spec_add [[7]] [] ! unat i = r"
    using w(4,5) by (auto simp: Let_def)
  then have "batchesIdxByRoot a [7] = Some 0" by (simp add: spec_add_def)
  with a(1) show ?thesis by blast
qed

end
