(* ===== verification/Erc20_Mock.thy ===== *)
theory Erc20_Mock
  imports Contract_Binding
begin

text \<open>
  The mock token (\<open>contracts/src/core/ERC20Mock.sol\<close>) that operators deposit in tests, and its Go
  binding (\<open>contracts/bindings/ERC20Mock\<close>). A call that reverts is \<open>Inl\<close> of its reason.
\<close>

subsection \<open>The contract\<close>

record erc20 =
  erc_balances :: "evm_address \<Rightarrow> uint256"
  erc_allowances :: "evm_address \<Rightarrow> evm_address \<Rightarrow> uint256"
  erc_totalSupply :: uint256

definition erc20_deployed :: erc20 where
  "erc20_deployed = \<lparr>erc_balances = \<lambda>_. 0, erc_allowances = \<lambda>_ _. 0, erc_totalSupply = 0\<rparr>"

datatype erc20_event = Transfer_event evm_address evm_address uint256

definition erc20_totalSupply :: "erc20 \<Rightarrow> uint256" where
  "erc20_totalSupply s = erc_totalSupply s"

definition erc20_balanceOf :: "evm_address \<Rightarrow> erc20 \<Rightarrow> uint256" where
  "erc20_balanceOf account s = erc_balances s account"

definition erc20_allowance :: "evm_address \<Rightarrow> evm_address \<Rightarrow> erc20 \<Rightarrow> uint256" where
  "erc20_allowance owner spender s = erc_allowances s owner spender"

text \<open>The addition to the supply is checked, the one to the balance is not.\<close>

definition erc20_mint :: "evm_address \<Rightarrow> uint256 \<Rightarrow> erc20 \<Rightarrow> (erc20 \<times> erc20_event list) result" where
  "erc20_mint account amount s =
     (if account = 0 then Inl ''ERC20: mint to the zero address''
      else if 2 ^ 256 \<le> unat (erc_totalSupply s) + unat amount then Inl ''Panic(0x11)''
      else
        let s = s\<lparr>erc_totalSupply := erc_totalSupply s + amount\<rparr>;
            s = s\<lparr>erc_balances := (erc_balances s)(account := erc_balances s account + amount)\<rparr>
        in Inr (s, [Transfer_event 0 account amount]))"

definition erc20_move ::
  "evm_address \<Rightarrow> evm_address \<Rightarrow> uint256 \<Rightarrow> erc20 \<Rightarrow> (erc20 \<times> erc20_event list) result" where
  "erc20_move from_addr to_addr amount s =
     (if from_addr = 0 then Inl ''ERC20: transfer from the zero address''
      else if to_addr = 0 then Inl ''ERC20: transfer to the zero address''
      else if erc_balances s from_addr < amount then Inl ''ERC20: transfer amount exceeds balance''
      else
        let s = s\<lparr>erc_balances := (erc_balances s)(from_addr := erc_balances s from_addr - amount)\<rparr>;
            s = s\<lparr>erc_balances := (erc_balances s)(to_addr := erc_balances s to_addr + amount)\<rparr>
        in Inr (s, [Transfer_event from_addr to_addr amount]))"

definition erc20_transfer ::
  "evm_address \<Rightarrow> evm_address \<Rightarrow> uint256 \<Rightarrow> erc20 \<Rightarrow> (erc20 \<times> erc20_event list) result" where
  "erc20_transfer sender to_addr amount s = erc20_move sender to_addr amount s"

text \<open>\<open>transferFrom\<close> asks for no allowance, whoever calls it, and \<open>approve\<close> sets none.\<close>

definition erc20_transferFrom ::
  "evm_address \<Rightarrow> evm_address \<Rightarrow> evm_address \<Rightarrow> uint256 \<Rightarrow> erc20 \<Rightarrow> (erc20 \<times> erc20_event list) result" where
  "erc20_transferFrom sender from_addr to_addr amount s = erc20_move from_addr to_addr amount s"

definition erc20_approve ::
  "evm_address \<Rightarrow> evm_address \<Rightarrow> uint256 \<Rightarrow> erc20 \<Rightarrow> (erc20 \<times> erc20_event list) result" where
  "erc20_approve sender spender amount s = Inr (s, [])"

subsection \<open>Runs\<close>

inductive erc20_step :: "erc20 \<Rightarrow> erc20_event list \<Rightarrow> erc20 \<Rightarrow> bool" where
  mint: "erc20_mint a n s = Inr (s', ev) \<Longrightarrow> erc20_step s ev s'"
| transfer: "erc20_transfer c b n s = Inr (s', ev) \<Longrightarrow> erc20_step s ev s'"
| transferFrom: "erc20_transferFrom c a b n s = Inr (s', ev) \<Longrightarrow> erc20_step s ev s'"
| approve: "erc20_approve c b n s = Inr (s', ev) \<Longrightarrow> erc20_step s ev s'"

inductive erc20_run :: "erc20 \<Rightarrow> erc20_event list \<Rightarrow> bool" where
  deployed: "erc20_run erc20_deployed []"
| stepped: "erc20_run s log \<Longrightarrow> erc20_step s ev s' \<Longrightarrow> erc20_run s' (log @ ev)"

definition supply_inv :: "erc20 \<Rightarrow> bool" where
  "supply_inv s \<longleftrightarrow> (\<Sum>a\<in>UNIV. unat (erc_balances s a)) = unat (erc_totalSupply s)"

lemma sum_upd:
  fixes f :: "'a::finite \<Rightarrow> uint256"
  shows "(\<Sum>x\<in>UNIV. unat ((f(a := v)) x)) + unat (f a) = (\<Sum>x\<in>UNIV. unat (f x)) + unat v"
proof -
  have "(\<Sum>x\<in>UNIV. unat (g x)) = unat (g a) + (\<Sum>x\<in>UNIV - {a}. unat (g x))" for g :: "'a \<Rightarrow> uint256"
    by (rule sum.remove) simp_all
  from this [of f] this [of "f(a := v)"] show ?thesis by simp
qed

lemma balance_le_sum:
  fixes f :: "'a::finite \<Rightarrow> uint256"
  shows "unat (f a) \<le> (\<Sum>x\<in>UNIV. unat (f x))"
  by (rule member_le_sum) simp_all

lemma unat_add_small: "unat (x :: uint256) + unat y < 2 ^ 256 \<Longrightarrow> unat (x + y) = unat x + unat y"
  by (simp add: unat_add_lem [symmetric])

lemma supply_inv_mint:
  assumes "supply_inv s" "erc20_mint a n s = Inr (s', ev)"
  shows "supply_inv s'"
proof -
  have small: "unat (erc_totalSupply s) + unat n < 2 ^ 256"
    and s': "erc_balances s' = (erc_balances s)(a := erc_balances s a + n)" "erc_totalSupply s' = erc_totalSupply s + n"
    using assms(2) by (auto simp: erc20_mint_def Let_def split: if_splits)
  have "unat (erc_balances s a) \<le> unat (erc_totalSupply s)"
    using balance_le_sum [of "erc_balances s" a] assms(1) by (simp add: supply_inv_def)
  then have "unat (erc_balances s a + n) = unat (erc_balances s a) + unat n"
    using small by (intro unat_add_small) simp
  then show ?thesis
    using sum_upd [of "erc_balances s" a "erc_balances s a + n"] assms(1) unat_add_small [OF small]
    unfolding supply_inv_def s' by simp
qed

lemma supply_inv_move:
  assumes "supply_inv s" "erc20_move a b n s = Inr (s', ev)"
  shows "supply_inv s'"
proof -
  let ?f = "(erc_balances s)(a := erc_balances s a - n)"
  have le: "n \<le> erc_balances s a"
    and s': "erc_balances s' = ?f(b := ?f b + n)" "erc_totalSupply s' = erc_totalSupply s"
    using assms(2) by (auto simp: erc20_move_def Let_def not_less split: if_splits)
  have sub: "unat (erc_balances s a - n) = unat (erc_balances s a) - unat n"
    "unat n \<le> unat (erc_balances s a)"
    using le by (simp_all add: unat_sub word_le_nat_alt)
  have 1: "(\<Sum>x\<in>UNIV. unat (?f x)) + unat n = unat (erc_totalSupply s)"
    using sum_upd [of "erc_balances s" a "erc_balances s a - n"] sub assms(1) by (simp add: supply_inv_def)
  have "unat (?f b) + unat n \<le> unat (erc_totalSupply s)"
    using 1 balance_le_sum [of ?f b] by simp
  also have "\<dots> < 2 ^ LENGTH(256)" by (rule unsigned_less)
  finally have "unat (?f b) + unat n < 2 ^ 256" by simp
  from unat_add_small [OF this] show ?thesis
    using sum_upd [of ?f b "?f b + n"] 1 unfolding supply_inv_def s' by linarith
qed

lemma erc20_run_inv: "erc20_run s log \<Longrightarrow> supply_inv s"
proof (induction rule: erc20_run.induct)
  case deployed
  then show ?case by (simp add: supply_inv_def erc20_deployed_def)
next
  case (stepped s log ev s')
  from stepped(2) show ?case
    using stepped.IH by cases
      (auto simp: erc20_transfer_def erc20_transferFrom_def erc20_approve_def
        intro: supply_inv_mint supply_inv_move)
qed

subsection \<open>The binding\<close>

record ('co, 'log, 'w) ERC20Mock_binding =
  erc_Caller :: "('co, 'log, 'w) bound_contract"
  erc_Transactor :: "('co, 'log, 'w) bound_contract"
  erc_Filterer :: "('co, 'log, 'w) bound_contract"

definition bindContractERC20Mock ::
  "('abi, 'h, 'co, 'log, 'w) bind_lib \<Rightarrow> evm_address \<Rightarrow> 'h option \<Rightarrow> 'h option \<Rightarrow> 'h option \<Rightarrow>
     ('co, 'log, 'w) bound_contract result go" where
  "bindContractERC20Mock L address caller transactor filterer =
     (case GetAbi L of
        Inl err \<Rightarrow> Ret (Inl err)
      | Inr None \<Rightarrow> Panic
      | Inr (Some parsed) \<Rightarrow> Ret (Inr (NewBoundContract L address parsed caller transactor filterer)))"

definition ERC20Mock_New ::
  "('abi, 'h, 'co, 'log, 'w) bind_lib \<Rightarrow> evm_address \<Rightarrow> 'h \<Rightarrow> ('co, 'log, 'w) ERC20Mock_binding result go" where
  "ERC20Mock_New L address backend =
     gbind (bindContractERC20Mock L address (Some backend) (Some backend) (Some backend))
       (\<lambda>r. Ret (rbind r (\<lambda>contract.
         Inr \<lparr>erc_Caller = contract, erc_Transactor = contract, erc_Filterer = contract\<rparr>)))"

definition ERC20Mock_NewCaller ::
  "('abi, 'h, 'co, 'log, 'w) bind_lib \<Rightarrow> evm_address \<Rightarrow> 'h \<Rightarrow> ('co, 'log, 'w) bound_contract result go" where
  "ERC20Mock_NewCaller L address caller = bindContractERC20Mock L address (Some caller) None None"

definition ERC20Mock_NewTransactor ::
  "('abi, 'h, 'co, 'log, 'w) bind_lib \<Rightarrow> evm_address \<Rightarrow> 'h \<Rightarrow> ('co, 'log, 'w) bound_contract result go" where
  "ERC20Mock_NewTransactor L address transactor = bindContractERC20Mock L address None (Some transactor) None"

definition ERC20Mock_NewFilterer ::
  "('abi, 'h, 'co, 'log, 'w) bind_lib \<Rightarrow> evm_address \<Rightarrow> 'h \<Rightarrow> ('co, 'log, 'w) bound_contract result go" where
  "ERC20Mock_NewFilterer L address filterer = bindContractERC20Mock L address None None (Some filterer)"

definition ERC20Mock_Deploy ::
  "('abi, 'h, 'co, 'log, 'w) bind_lib \<Rightarrow> bytes \<Rightarrow> tx_opts \<Rightarrow> 'h \<Rightarrow> 'w \<Rightarrow>
     'w \<times> (evm_address \<times> eth_tx \<times> ('co, 'log, 'w) ERC20Mock_binding) result" where
  "ERC20Mock_Deploy L bin auth backend w =
     (case GetAbi L of
        Inl err \<Rightarrow> (w, Inl err)
      | Inr None \<Rightarrow> (w, Inl ''GetABI returned nil'')
      | Inr (Some parsed) \<Rightarrow>
          (case DeployContract L auth parsed bin backend [] w of
             (w, Inl err) \<Rightarrow> (w, Inl err)
           | (w, Inr (address, tx, contract)) \<Rightarrow>
               (w, Inr (address, tx,
                  \<lparr>erc_Caller = contract, erc_Transactor = contract, erc_Filterer = contract\<rparr>))))"

definition ERC20Mock_Allowance ::
  "('co, 'log, 'w) bound_contract \<Rightarrow> 'co \<Rightarrow> evm_address \<Rightarrow> evm_address \<Rightarrow> 'w \<Rightarrow> int result go" where
  "ERC20Mock_Allowance c opts owner spender = bound_read c (\<lambda>out. ConvertType as_big out 0)
     opts ''allowance'' [GoAddress owner, GoAddress spender]"

definition ERC20Mock_BalanceOf ::
  "('co, 'log, 'w) bound_contract \<Rightarrow> 'co \<Rightarrow> evm_address \<Rightarrow> 'w \<Rightarrow> int result go" where
  "ERC20Mock_BalanceOf c opts account = bound_read c (\<lambda>out. ConvertType as_big out 0)
     opts ''balanceOf'' [GoAddress account]"

definition ERC20Mock_TotalSupply ::
  "('co, 'log, 'w) bound_contract \<Rightarrow> 'co \<Rightarrow> 'w \<Rightarrow> int result go" where
  "ERC20Mock_TotalSupply c opts = bound_read c (\<lambda>out. ConvertType as_big out 0)
     opts ''totalSupply'' []"

definition ERC20Mock_Approve ::
  "('co, 'log, 'w) bound_contract \<Rightarrow> tx_opts \<Rightarrow> evm_address \<Rightarrow> int \<Rightarrow> 'w \<Rightarrow> 'w \<times> eth_tx result" where
  "ERC20Mock_Approve c opts arg0 arg1 =
     bound_Transact c opts ''approve'' [GoAddress arg0, GoBig arg1]"

definition ERC20Mock_Mint ::
  "('co, 'log, 'w) bound_contract \<Rightarrow> tx_opts \<Rightarrow> evm_address \<Rightarrow> int \<Rightarrow> 'w \<Rightarrow> 'w \<times> eth_tx result" where
  "ERC20Mock_Mint c opts account amount =
     bound_Transact c opts ''mint'' [GoAddress account, GoBig amount]"

definition ERC20Mock_Transfer ::
  "('co, 'log, 'w) bound_contract \<Rightarrow> tx_opts \<Rightarrow> evm_address \<Rightarrow> int \<Rightarrow> 'w \<Rightarrow> 'w \<times> eth_tx result" where
  "ERC20Mock_Transfer c opts to_addr amount =
     bound_Transact c opts ''transfer'' [GoAddress to_addr, GoBig amount]"

definition ERC20Mock_TransferFrom ::
  "('co, 'log, 'w) bound_contract \<Rightarrow> tx_opts \<Rightarrow> evm_address \<Rightarrow> evm_address \<Rightarrow> int \<Rightarrow> 'w \<Rightarrow>
     'w \<times> eth_tx result" where
  "ERC20Mock_TransferFrom c opts from_addr to_addr amount =
     bound_Transact c opts ''transferFrom''
       [GoAddress from_addr, GoAddress to_addr, GoBig amount]"

subsection \<open>\<open>Approval\<close>\<close>

record ERC20Mock_ApprovalEvent =
  ap_Owner :: evm_address
  ap_Spender :: evm_address
  ap_Value :: int

fun ERC20Mock_Approval_fields :: "go_value list \<Rightarrow> ERC20Mock_ApprovalEvent option" where
  "ERC20Mock_Approval_fields [GoAddress x0, GoAddress x1, GoBig x2] = Some \<lparr>ap_Owner = x0, ap_Spender = x1, ap_Value = x2\<rparr>"
| "ERC20Mock_Approval_fields _ = None"

definition ERC20Mock_ParseApproval ::
  "('co, 'log, 'w) ERC20Mock_binding \<Rightarrow> 'log \<Rightarrow> (ERC20Mock_ApprovalEvent \<times> 'log) result" where
  "ERC20Mock_ParseApproval s = parse_event (erc_Filterer s) ''Approval'' ERC20Mock_Approval_fields"

definition ERC20Mock_Approval_Next ::
  "('co, 'log, 'w) ERC20Mock_binding \<Rightarrow> (ERC20Mock_ApprovalEvent, 'log) event_iterator \<Rightarrow>
     (ERC20Mock_ApprovalEvent, 'log) event_iterator \<Rightarrow> bool \<Rightarrow> bool" where
  "ERC20Mock_Approval_Next s = iterator_Next (parse_event (erc_Filterer s) ''Approval'' ERC20Mock_Approval_fields)"

definition ERC20Mock_FilterApproval ::
  "('co, 'log, 'w) ERC20Mock_binding \<Rightarrow> filter_opts \<Rightarrow> evm_address list \<Rightarrow> evm_address list \<Rightarrow> 'w \<Rightarrow>
     (ERC20Mock_ApprovalEvent, 'log) iterator_object result" where
  "ERC20Mock_FilterApproval s opts owner spender w =
     rbind (bound_FilterLogs (erc_Filterer s) opts ''Approval'' [map GoAddress owner, map GoAddress spender] w) (\<lambda>logs.
       Inr (new_iterator logs, ERC20Mock_Approval_Next s))"

definition ERC20Mock_WatchApproval ::
  "('co, 'log, 'w) ERC20Mock_binding \<Rightarrow> watch_opts \<Rightarrow> evm_address list \<Rightarrow> evm_address list \<Rightarrow> 'w \<Rightarrow>
     (ERC20Mock_ApprovalEvent, 'log) subscription result" where
  "ERC20Mock_WatchApproval s opts owner spender w =
     rbind (bound_WatchLogs (erc_Filterer s) opts ''Approval'' [map GoAddress owner, map GoAddress spender] w) (\<lambda>_.
       Inr (watch_start, watch_step (parse_event (erc_Filterer s) ''Approval'' ERC20Mock_Approval_fields)))"

subsection \<open>\<open>Transfer\<close>\<close>

record ERC20Mock_TransferEvent =
  tr_From :: evm_address
  tr_To :: evm_address
  tr_Value :: int

fun ERC20Mock_Transfer_fields :: "go_value list \<Rightarrow> ERC20Mock_TransferEvent option" where
  "ERC20Mock_Transfer_fields [GoAddress x0, GoAddress x1, GoBig x2] = Some \<lparr>tr_From = x0, tr_To = x1, tr_Value = x2\<rparr>"
| "ERC20Mock_Transfer_fields _ = None"

definition ERC20Mock_ParseTransfer ::
  "('co, 'log, 'w) ERC20Mock_binding \<Rightarrow> 'log \<Rightarrow> (ERC20Mock_TransferEvent \<times> 'log) result" where
  "ERC20Mock_ParseTransfer s = parse_event (erc_Filterer s) ''Transfer'' ERC20Mock_Transfer_fields"

definition ERC20Mock_Transfer_Next ::
  "('co, 'log, 'w) ERC20Mock_binding \<Rightarrow> (ERC20Mock_TransferEvent, 'log) event_iterator \<Rightarrow>
     (ERC20Mock_TransferEvent, 'log) event_iterator \<Rightarrow> bool \<Rightarrow> bool" where
  "ERC20Mock_Transfer_Next s = iterator_Next (parse_event (erc_Filterer s) ''Transfer'' ERC20Mock_Transfer_fields)"

definition ERC20Mock_FilterTransfer ::
  "('co, 'log, 'w) ERC20Mock_binding \<Rightarrow> filter_opts \<Rightarrow> evm_address list \<Rightarrow> evm_address list \<Rightarrow> 'w \<Rightarrow>
     (ERC20Mock_TransferEvent, 'log) iterator_object result" where
  "ERC20Mock_FilterTransfer s opts from to w =
     rbind (bound_FilterLogs (erc_Filterer s) opts ''Transfer'' [map GoAddress from, map GoAddress to] w) (\<lambda>logs.
       Inr (new_iterator logs, ERC20Mock_Transfer_Next s))"

definition ERC20Mock_WatchTransfer ::
  "('co, 'log, 'w) ERC20Mock_binding \<Rightarrow> watch_opts \<Rightarrow> evm_address list \<Rightarrow> evm_address list \<Rightarrow> 'w \<Rightarrow>
     (ERC20Mock_TransferEvent, 'log) subscription result" where
  "ERC20Mock_WatchTransfer s opts from to w =
     rbind (bound_WatchLogs (erc_Filterer s) opts ''Transfer'' [map GoAddress from, map GoAddress to] w) (\<lambda>_.
       Inr (watch_start, watch_step (parse_event (erc_Filterer s) ''Transfer'' ERC20Mock_Transfer_fields)))"

subsection \<open>Property\<close>

text \<open>After any sequence of calls of the mock token the balances of all addresses add up to the
  total supply, so no balance exceeds it and the unchecked additions never wrap around.\<close>

theorem token_balances_add_up:
  assumes "erc20_run s log"
  shows "(\<Sum>a\<in>UNIV. unat (erc20_balanceOf a s)) = unat (erc20_totalSupply s)
    \<and> erc20_balanceOf b s \<le> erc20_totalSupply s"
  using erc20_run_inv [OF assms] balance_le_sum [of "erc_balances s" b]
  by (simp add: supply_inv_def erc20_balanceOf_def erc20_totalSupply_def word_le_nat_alt)

text \<open>Somebody else moves the tokens: 3 sends what 1 owns to 2, with no allowance.\<close>

lemma example_token_run:
  "\<exists>s. erc20_run s [Transfer_event 0 1 10, Transfer_event 1 2 4] \<and> erc20_balanceOf 2 s = 4
     \<and> erc20_allowance 1 3 s = 0"
proof -
  let ?s1 = "erc20_deployed\<lparr>erc_totalSupply := 10, erc_balances := (\<lambda>_. 0)(1 := 10)\<rparr>"
  let ?s2 = "?s1\<lparr>erc_balances := ((\<lambda>_. 0)(1 := 10))(1 := 6, 2 := 4)\<rparr>"
  have "erc20_step erc20_deployed [Transfer_event 0 1 10] ?s1"
    by (rule erc20_step.mint [of 1 10]) (simp add: erc20_mint_def erc20_deployed_def)
  from erc20_run.stepped [OF erc20_run.deployed this]
  have "erc20_run ?s1 [Transfer_event 0 1 10]" by simp
  moreover have "erc20_step ?s1 [Transfer_event 1 2 4] ?s2"
    by (rule erc20_step.transferFrom [of 3 1 2 4])
      (simp add: erc20_transferFrom_def erc20_move_def erc20_deployed_def)
  ultimately have "erc20_run ?s2 ([Transfer_event 0 1 10] @ [Transfer_event 1 2 4])"
    by (rule erc20_run.stepped)
  then show ?thesis by (intro exI [of _ ?s2]) (simp add: erc20_balanceOf_def erc20_allowance_def erc20_deployed_def)
qed

theorem token_balances_add_up_witness:
  "\<exists>s. erc20_balanceOf 2 s = 4 \<and> (\<Sum>a\<in>UNIV. unat (erc20_balanceOf a s)) = unat (erc20_totalSupply s)"
proof -
  obtain s where s: "erc20_run s [Transfer_event 0 1 10, Transfer_event 1 2 4]" "erc20_balanceOf 2 s = 4"
    using example_token_run by blast
  then show ?thesis using token_balances_add_up [OF s(1), of 2] by blast
qed

end
