(* ===== verification/Operator_Commands.thy ===== *)
theory Operator_Commands
  imports Operator Go_Script
begin

text \<open>
  The commands of the operator's program (\<open>operator/cmd/actions\<close>): \<open>register\<close>, \<open>start\<close> up to the
  main loop (theory \<open>Operator\<close>), and \<open>deposit-into-strategy\<close>. The command line's values are
  arguments, and what they do outside is done by the SDK's calls in the argument records.
\<close>

subsection \<open>\<open>register\<close>\<close>

definition registerOperatorMain ::
  "'h config_env \<Rightarrow> 'h sdk \<Rightarrow> ('h, 's) bls_lib \<Rightarrow> string \<Rightarrow> string \<Rightarrow> int \<Rightarrow> string option go" where
  "registerOperatorMain env S L configFile now_text now =
     gbind (NewOperatorConfig env configFile) (\<lambda>config.
       let salt = registration_salt L config now_text in
       case RegisterOperator S config salt now of
         Some err \<Rightarrow> Ret (Some err)
       | None \<Rightarrow> Ret None)"

subsection \<open>\<open>start\<close>\<close>

text \<open>
  The configuration is read twice: \<open>ReadYamlConfig\<close> decodes the same file again into the
  configuration that was just built (\<open>reread\<close>). The result is the operator whose loop runs.
\<close>

definition operatorMain ::
  "'h config_env \<Rightarrow> (string \<Rightarrow> 'h OperatorConfig \<Rightarrow> 'h OperatorConfig result) \<Rightarrow> 'h sdk \<Rightarrow>
     ('h, 's) bls_lib \<Rightarrow> ('c, 's, 'w) rpc_net \<Rightarrow> string \<Rightarrow> string \<Rightarrow> int \<Rightarrow>
     ('w, ('h, 'c) operator result) script" where
  "operatorMain env reread S L net configFile now_text now =
     sbind (pure_go (NewOperatorConfig env configFile)) (\<lambda>operatorConfig.
     or_return (sret (reread configFile operatorConfig)) (\<lambda>operatorConfig.
     or_return (NewOperatorFromConfig S L net operatorConfig now_text now) (\<lambda>operator.
     sret (Inr operator))))"

subsection \<open>\<open>deposit-into-strategy\<close>\<close>

record ('h, 'w) strategy_lib =
  HexToAddress :: "string \<Rightarrow> address"
  SignerFromConfig :: "'h \<Rightarrow> int \<Rightarrow> 'h result"
  NewPrivateKeyWallet :: "'h \<Rightarrow> 'h \<Rightarrow> address \<Rightarrow> 'h \<Rightarrow> 'h result"
  NewSimpleTxManager :: "'h \<Rightarrow> 'h \<Rightarrow> 'h \<Rightarrow> address \<Rightarrow> 'h"
  BuildELChainWriter :: "address \<Rightarrow> address \<Rightarrow> 'h \<Rightarrow> 'h \<Rightarrow> 'h \<Rightarrow> 'h result"
  DepositERC20IntoStrategy :: "'h \<Rightarrow> address \<Rightarrow> int \<Rightarrow> 'w \<Rightarrow> 'w \<times> string option"

definition depositIntoStrategyMain ::
  "'h config_env \<Rightarrow> ('h, 'w) strategy_lib \<Rightarrow> string \<Rightarrow> int \<Rightarrow> string \<Rightarrow> ('w, string option) script" where
  "depositIntoStrategyMain env D configFile amount strategyAddressStr =
     (if amount \<le> 0 then sret None
      else
        sbind (pure_go (NewOperatorConfig env configFile)) (\<lambda>config.
        if strategyAddressStr = [] then sret None
        else
          let base = op_BaseConfig config;
              strategyAddr = HexToAddress D strategyAddressStr;
              eigen = Base_EigenLayerDeploymentConfig base in
          case rbind (SignerFromConfig D (PrivateKey (op_EcdsaConfig config)) (ChainId base)) (\<lambda>signerFn.
               rbind (NewPrivateKeyWallet D (EthRpcClient base) signerFn (Address (op_Section config)) (Logger base)) (\<lambda>w.
               let txMgr = NewSimpleTxManager D w (EthRpcClient base) (Logger base) (Address (op_Section config)) in
               BuildELChainWriter D (DelegationManagerAddr eigen) (AVSDirectoryAddr eigen)
                 (EthRpcClient base) (Logger base) txMgr)) of
            Inl err \<Rightarrow> sret (Some err)
          | Inr eigenLayerWriter \<Rightarrow>
              (\<lambda>w. case DepositERC20IntoStrategy D eigenLayerWriter strategyAddr amount w of
                     (w, Some err) \<Rightarrow> (w, Ret (Some err))
                   | (w, None) \<Rightarrow> (w, Ret None))))"

subsection \<open>What the commands guarantee\<close>

text \<open>\<open>start\<close> registers an operator that is not registered, with the key of its configuration.\<close>

lemma registration_salt_length [simp]: "length (registration_salt L c now) = 32"
  by (simp add: registration_salt_def Let_def)

lemma NewOperatorFromConfig_built:
  assumes "NewOperatorFromConfig S L net c now_text now w = (w', Ret (Inr oper))"
  shows "op_Config oper = c
    \<and> op_OperatorId oper = OperatorIdFromKeyPair L (KeyPair (op_BlsConfig c))
    \<and> (\<exists>rdr. NewAvsReaderFromConfig S (op_BaseConfig c) (op_EcdsaConfig c) = Inr rdr
        \<and> (IsOperatorRegistered S rdr (Address (op_Section c)) = Inr True
           \<or> IsOperatorRegistered S rdr (Address (op_Section c)) = Inr False
             \<and> RegisterOperator S c (registration_salt L c now_text) now = None))
    \<and> NewAvsSubscriberFromConfig S (op_BaseConfig c) = Inr (op_avsSubscriber oper)"
proof -
  let ?sec = "op_Section c"
  let ?reg = "\<lambda>registered. if registered then Ret () else
      (case RegisterOperator S c (registration_salt L c now_text) now of
         None \<Rightarrow> Ret () | Some err \<Rightarrow> Fatal ''Could not register operator'')"
  let ?head = "gbind (or_die ''Could not create AVS reader''
          (NewAvsReaderFromConfig S (op_BaseConfig c) (op_EcdsaConfig c))) (\<lambda>avsReader.
        gbind (or_die ''Could not check if operator is registered''
          (IsOperatorRegistered S avsReader (Address ?sec))) (\<lambda>registered.
        gbind (?reg registered) (\<lambda>_.
        or_die ''Could not create AVS subscriber''
          (NewAvsSubscriberFromConfig S (op_BaseConfig c)))))"
  have die: "or_die m r = Ret x \<longleftrightarrow> r = Inr x" for m r and x :: 'x by (cases r) auto
  obtain sub where sub: "?head = Ret sub"
    using assms by (cases ?head) (auto simp: NewOperatorFromConfig_def Let_def)
  obtain rdr b where rdr: "NewAvsReaderFromConfig S (op_BaseConfig c) (op_EcdsaConfig c) = Inr rdr"
    and b: "IsOperatorRegistered S rdr (Address ?sec) = Inr b" "?reg b = Ret ()"
    and s: "NewAvsSubscriberFromConfig S (op_BaseConfig c) = Inr sub"
    using sub by (auto simp: go_simps die)
  have reg: "b \<or> RegisterOperator S c (registration_salt L c now_text) now = None"
    using b(2) by (auto split: if_splits option.splits)
  have "op_Config oper = c \<and> op_OperatorId oper = OperatorIdFromKeyPair L (KeyPair (op_BlsConfig c))
      \<and> op_avsSubscriber oper = sub"
    using assms sub by (auto simp: NewOperatorFromConfig_def Let_def split: prod.splits sum.splits)
  with rdr b(1) s reg show ?thesis by (cases b) auto
qed

text \<open>Nothing is deposited when the amount is not positive or no strategy is named.\<close>

lemma deposit_refused:
  "amount \<le> 0 \<or> strategy = [] \<Longrightarrow> fst (depositIntoStrategyMain env D file amount strategy w) = w"
  by (auto simp: depositIntoStrategyMain_def sret_def sbind_def pure_go_def split: go.splits)

subsection \<open>Properties\<close>

lemma example_operator_config: "\<exists>c. NewOperatorConfig example_env path = Ret c"
proof -
  obtain b where "NewBaseConfig example_env path = Ret (Some b)" using example_base_config by blast
  moreover have "not_exist example_env f = False" for f by (simp add: example_env_def)
  moreover have "\<exists>k. NewBlsConfig example_env path = Ret k"
    by (simp add: NewBlsConfig_def example_env_def fatal_if_def)
  moreover have "\<exists>y. read_operator example_env path = Inr y" by (simp add: example_env_def)
  ultimately show ?thesis
    by (auto simp: NewOperatorConfig_def read_base_config_def fatal_if_def example_ecdsa)
qed

lemma example_operator_built:
  "\<exists>oper. NewOperatorFromConfig example_sdk example_bls counting_net c now_text now w = (w, Ret (Inr oper))"
  by (simp add: NewOperatorFromConfig_def Let_def NewAvsReaderFromConfig_def example_sdk_def
      base_bindings_def NewAvsServiceBindings_def IsOperatorRegistered_def NewAvsSubscriberFromConfig_def
      NewAggregatorRpcClient_def counting_net_def)

text \<open>C36: An operator that \<open>start\<close> brings to its main loop is one the registry knows: it was
  registered when the program looked, or the registration with its own keys and a salt of 32
  bytes has just succeeded; it runs with the configuration that was loaded and read again, listens
  to the contract of that configuration, and the identifier it will put under its signatures is
  that of the key it signs with.\<close>

theorem started_operator_is_registered:
  assumes "operatorMain env reread S L net file now_text now w = (w', Ret (Inr oper))"
  shows "\<exists>c0. NewOperatorConfig env file = Ret c0 \<and> reread file c0 = Inr (op_Config oper)
    \<and> op_OperatorId oper = OperatorIdFromKeyPair L (KeyPair (op_BlsConfig (op_Config oper)))
    \<and> NewAvsSubscriberFromConfig S (op_BaseConfig (op_Config oper)) = Inr (op_avsSubscriber oper)
    \<and> (\<exists>rdr. NewAvsReaderFromConfig S (op_BaseConfig (op_Config oper)) (op_EcdsaConfig (op_Config oper)) = Inr rdr
        \<and> (IsOperatorRegistered S rdr (Address (op_Section (op_Config oper))) = Inr True
          \<or> IsOperatorRegistered S rdr (Address (op_Section (op_Config oper))) = Inr False
            \<and> (\<exists>salt. length salt = 32 \<and> RegisterOperator S (op_Config oper) salt now = None)))"
proof -
  obtain c0 c where "NewOperatorConfig env file = Ret c0" "reread file c0 = Inr c"
    and b: "NewOperatorFromConfig S L net c now_text now w = (w', Ret (Inr oper))"
    using assms by (auto simp: operatorMain_def go_simps)
  with NewOperatorFromConfig_built [OF b] registration_salt_length [of L c now_text]
  show ?thesis by metis
qed

theorem started_operator_is_registered_witness:
  "\<exists>oper. operatorMain example_env (\<lambda>f c. Inr c) example_sdk example_bls counting_net ''f'' ''now'' 0 0
      = (0, Ret (Inr oper))
    \<and> op_OperatorId oper = OperatorIdFromKeyPair example_bls (KeyPair (op_BlsConfig (op_Config oper)))"
proof -
  obtain c where c: "NewOperatorConfig example_env ''f'' = Ret c" using example_operator_config by blast
  obtain oper :: "(nat, nat) operator" where
    "NewOperatorFromConfig example_sdk example_bls counting_net c ''now'' 0 0 = (0, Ret (Inr oper))"
    using example_operator_built by blast
  then have m: "operatorMain example_env (\<lambda>f c. Inr c) example_sdk example_bls counting_net ''f'' ''now'' 0 0
      = (0, Ret (Inr oper))"
    using c by (simp add: operatorMain_def sbind_def pure_go_def or_return_def sret_def)
  with started_operator_is_registered [OF m] show ?thesis by blast
qed

end
