(* ===== verification/Cli.thy ===== *)
theory Cli
  imports Task_Sender Operator_Commands Aggregator_Main
begin

text \<open>
  The three command-line programs: their flags and commands (\<open>task_sender/cmd/main.go\<close>,
  \<open>operator/cmd/main.go\<close> with \<open>operator/cmd/actions\<close>, \<open>aggregator/cmd/main.go\<close>,
  \<open>core/config/base.go\<close>), and what \<open>main\<close> does with the outcome. The library urfave/cli is an
  argument: \<open>select\<close> turns the arguments into a command with the values of its flags, or says that
  it printed a help text. Usage texts are left out.
\<close>

subsection \<open>Flags\<close>

datatype flag_kind = StringFlag | PathFlag | IntFlag | UintFlag

datatype flag_value = TextValue string | NumberValue int

record cli_flag =
  flag_kind :: flag_kind
  flag_Name :: string
  flag_Aliases :: "string list"
  flag_Required :: bool
  flag_Value :: flag_value
  flag_EnvVars :: "string list"

definition ConfigFileFlag :: cli_flag where
  "ConfigFileFlag = \<lparr>flag_kind = StringFlag, flag_Name = ''config'', flag_Aliases = [],
     flag_Required = True, flag_Value = TextValue [], flag_EnvVars = []\<rparr>"

definition provingSystemFlag :: cli_flag where
  "provingSystemFlag = \<lparr>flag_kind = StringFlag, flag_Name = ''proving-system'', flag_Aliases = [''s''],
     flag_Required = True, flag_Value = TextValue [], flag_EnvVars = []\<rparr>"

definition proofFlag :: cli_flag where
  "proofFlag = \<lparr>flag_kind = PathFlag, flag_Name = ''proof'', flag_Aliases = [''p''],
     flag_Required = True, flag_Value = TextValue [], flag_EnvVars = []\<rparr>"

definition publicInputFlag :: cli_flag where
  "publicInputFlag = \<lparr>flag_kind = PathFlag, flag_Name = ''public-input'', flag_Aliases = [''i''],
     flag_Required = True, flag_Value = TextValue [], flag_EnvVars = []\<rparr>"

definition verificationKeyFlag :: cli_flag where
  "verificationKeyFlag = \<lparr>flag_kind = PathFlag, flag_Name = ''verification-key'', flag_Aliases = [''v''],
     flag_Required = False, flag_Value = TextValue [], flag_EnvVars = []\<rparr>"

definition intervalFlag :: cli_flag where
  "intervalFlag = \<lparr>flag_kind = IntFlag, flag_Name = ''interval'', flag_Aliases = [''t''],
     flag_Required = False, flag_Value = NumberValue 1, flag_EnvVars = []\<rparr>"

definition feeFlag :: cli_flag where
  "feeFlag = \<lparr>flag_kind = IntFlag, flag_Name = ''fee'', flag_Aliases = [],
     flag_Required = False, flag_Value = NumberValue 1, flag_EnvVars = []\<rparr>"

definition quorumThresholdFlag :: cli_flag where
  "quorumThresholdFlag = \<lparr>flag_kind = UintFlag, flag_Name = ''quorum-threshold'', flag_Aliases = [''q''],
     flag_Required = False, flag_Value = NumberValue 100, flag_EnvVars = []\<rparr>"

definition AmountFlag :: cli_flag where
  "AmountFlag = \<lparr>flag_kind = IntFlag, flag_Name = ''amount'', flag_Aliases = [],
     flag_Required = True, flag_Value = NumberValue 100, flag_EnvVars = []\<rparr>"

definition StrategyAddressFlag :: cli_flag where
  "StrategyAddressFlag = \<lparr>flag_kind = StringFlag, flag_Name = ''strategy-address'', flag_Aliases = [],
     flag_Required = True, flag_Value = TextValue [], flag_EnvVars = [''STRATEGY_ADDRESS'']\<rparr>"

lemmas flag_defs = ConfigFileFlag_def provingSystemFlag_def proofFlag_def publicInputFlag_def
  verificationKeyFlag_def intervalFlag_def feeFlag_def quorumThresholdFlag_def AmountFlag_def
  StrategyAddressFlag_def

subsection \<open>Contexts\<close>

text \<open>
  The values of the declared flags, given or default. \<open>String\<close> of a flag that is not declared is
  empty and \<open>Int\<close> of one that is not declared, or not a number, is 0; neither is an error.
\<close>

type_synonym flag_values = "string \<Rightarrow> flag_value option"

definition flag_context :: "flag_values \<Rightarrow> cli_context" where
  "flag_context vals = \<lparr>
     cli_String = (\<lambda>name. case vals name of
         None \<Rightarrow> []
       | Some (TextValue s) \<Rightarrow> s
       | Some (NumberValue i) \<Rightarrow> show_int i),
     cli_Int = (\<lambda>name. case vals name of Some (NumberValue i) \<Rightarrow> i | _ \<Rightarrow> 0)\<rparr>"

text \<open>A command line as the library resolves it: \<open>None\<close> when it showed a help text.\<close>

type_synonym cli_select =
  "(string \<times> cli_flag list) list \<Rightarrow> string list \<Rightarrow> (string \<times> flag_values) option result"

text \<open>What is documented of it: the command is one of the program's, and its flags have values.\<close>

definition has_kind :: "flag_kind \<Rightarrow> flag_value \<Rightarrow> bool" where
  "has_kind k v = (case v of TextValue s \<Rightarrow> k \<in> {StringFlag, PathFlag} | NumberValue i \<Rightarrow> k \<in> {IntFlag, UintFlag})"

definition selects_commands :: "cli_select \<Rightarrow> bool" where
  "selects_commands select \<longleftrightarrow>
     (\<forall>cmds args name vals. select cmds args = Inr (Some (name, vals)) \<longrightarrow>
        (\<exists>flags. map_of cmds name = Some flags \<and>
           (\<forall>f\<in>set flags. \<exists>v. vals (flag_Name f) = Some v \<and> has_kind (flag_kind f) v)
           \<and> (\<forall>n. n \<notin> flag_Name ` set flags \<longrightarrow> vals n = None)))"

subsection \<open>The task sender\<close>

definition sendTaskFlags :: "cli_flag list" where
  "sendTaskFlags = [provingSystemFlag, proofFlag, publicInputFlag, verificationKeyFlag,
     ConfigFileFlag, feeFlag, quorumThresholdFlag]"

definition loopTasksFlags :: "cli_flag list" where
  "loopTasksFlags = [provingSystemFlag, proofFlag, publicInputFlag, verificationKeyFlag,
     ConfigFileFlag, intervalFlag, feeFlag, quorumThresholdFlag]"

definition infiniteTasksFlags :: "cli_flag list" where
  "infiniteTasksFlags = [provingSystemFlag, ConfigFileFlag, intervalFlag, feeFlag, quorumThresholdFlag]"

text \<open>Name, flags and action; the loops are looked at for a number of rounds.\<close>

type_synonym 'a cli_command = "string \<times> cli_flag list \<times> (cli_context \<Rightarrow> 'a)"

definition task_sender_commands ::
  "'h config_env \<Rightarrow> 'h sdk \<Rightarrow> ('h, 'w, 'n, 'r) sender_lib \<Rightarrow>
     ('w, 'ccs, 'pk, 'vk, 'wit, 'proof) groth16_prover \<Rightarrow> nat \<Rightarrow> ('w \<Rightarrow> 'w \<times> loop_end) cli_command list" where
  "task_sender_commands env S L P k =
     [(''send-task'', sendTaskFlags,
        \<lambda>c w. case taskSenderMain env S L c [] w of (w, r) \<Rightarrow> (w, Ended r)),
      (''loop-tasks'', loopTasksFlags, \<lambda>c. taskSenderLoopMain env S L c k),
      (''infinite-tasks'', infiniteTasksFlags, \<lambda>c. taskSenderInfiniteMain env S L P c k)]"

definition declared :: "'a cli_command list \<Rightarrow> (string \<times> cli_flag list) list" where
  "declared cmds = map (\<lambda>(name, flags, action). (name, flags)) cmds"

text \<open>\<open>err := app.Run(os.Args); if err != nil { log.Fatalln(...) }\<close>\<close>

fun exit_on_error :: "string \<Rightarrow> string option go \<Rightarrow> string option go" where
  "exit_on_error msg (Ret (Some err)) = Fatal (msg @ '' Message: '' @ err)"
| "exit_on_error msg r = r"

definition task_sender_main ::
  "cli_select \<Rightarrow> 'h config_env \<Rightarrow> 'h sdk \<Rightarrow> ('h, 'w, 'n, 'r) sender_lib \<Rightarrow>
     ('w, 'ccs, 'pk, 'vk, 'wit, 'proof) groth16_prover \<Rightarrow> nat \<Rightarrow> string list \<Rightarrow> 'w \<Rightarrow> 'w \<times> loop_end" where
  "task_sender_main select env S L P k args w =
     (let cmds = task_sender_commands env S L P k; msg = ''Task sender application failed.'' in
      case select (declared cmds) args of
        Inl err \<Rightarrow> (w, Ended (exit_on_error msg (Ret (Some err))))
      | Inr None \<Rightarrow> (w, Ended (Ret None))
      | Inr (Some (name, vals)) \<Rightarrow>
          (case map_of cmds name of
             None \<Rightarrow> (w, Ended (Ret None))
           | Some (flags, action) \<Rightarrow>
               (case action (flag_context vals) w of
                  (w, Looping) \<Rightarrow> (w, Looping)
                | (w, Ended r) \<Rightarrow> (w, Ended (exit_on_error msg r)))))"

subsection \<open>The operator and the aggregator\<close>

text \<open>A command of the operator returns nil or an error, or goes on in the loop of an operator.\<close>

datatype 'o command_end = Returns "string option" | Runs 'o

definition started :: "'o result \<Rightarrow> 'o command_end" where
  "started r = (case r of Inl err \<Rightarrow> Returns (Some err) | Inr oper \<Rightarrow> Runs oper)"

definition StartFlags :: "cli_flag list" where
  "StartFlags = [ConfigFileFlag]"

definition registerFlags :: "cli_flag list" where
  "registerFlags = [ConfigFileFlag]"

definition depositFlags :: "cli_flag list" where
  "depositFlags = [AmountFlag, StrategyAddressFlag, ConfigFileFlag]"

definition RegisterCommand ::
  "'h config_env \<Rightarrow> 'h sdk \<Rightarrow> ('h, 's) bls_lib \<Rightarrow> string \<Rightarrow> int \<Rightarrow>
     ('w, ('h, 'c) operator command_end) script cli_command" where
  "RegisterCommand env S L now_text now = (''register'', registerFlags, \<lambda>ctx.
     sbind (pure_go (registerOperatorMain env S L (cli_String ctx (flag_Name ConfigFileFlag)) now_text now))
       (\<lambda>err. sret (Returns err)))"

definition StartCommand ::
  "'h config_env \<Rightarrow> (string \<Rightarrow> 'h OperatorConfig \<Rightarrow> 'h OperatorConfig result) \<Rightarrow> 'h sdk \<Rightarrow>
     ('h, 's) bls_lib \<Rightarrow> ('c, 's, 'w) rpc_net \<Rightarrow> string \<Rightarrow> int \<Rightarrow>
     ('w, ('h, 'c) operator command_end) script cli_command" where
  "StartCommand env reread S L net now_text now = (''start'', StartFlags, \<lambda>ctx.
     sbind (operatorMain env reread S L net (cli_String ctx ''config'') now_text now)
       (\<lambda>r. sret (started r)))"

definition DepositIntoStrategyCommand ::
  "'h config_env \<Rightarrow> ('h, 'w) strategy_lib \<Rightarrow> ('w, ('h, 'c) operator command_end) script cli_command" where
  "DepositIntoStrategyCommand env D = (''deposit-into-strategy'', depositFlags, \<lambda>ctx.
     sbind (depositIntoStrategyMain env D (cli_String ctx (flag_Name ConfigFileFlag))
              (cli_Int ctx (flag_Name AmountFlag)) (cli_String ctx (flag_Name StrategyAddressFlag)))
       (\<lambda>err. sret (Returns err)))"

definition operator_commands ::
  "'h config_env \<Rightarrow> (string \<Rightarrow> 'h OperatorConfig \<Rightarrow> 'h OperatorConfig result) \<Rightarrow> 'h sdk \<Rightarrow>
     ('h, 's) bls_lib \<Rightarrow> ('c, 's, 'w) rpc_net \<Rightarrow> ('h, 'w) strategy_lib \<Rightarrow> string \<Rightarrow> int \<Rightarrow>
     ('w, ('h, 'c) operator command_end) script cli_command list" where
  "operator_commands env reread S L net D now_text now =
     [RegisterCommand env S L now_text now, StartCommand env reread S L net now_text now,
      DepositIntoStrategyCommand env D]"

fun exit_on_command_error :: "string \<Rightarrow> 'o command_end go \<Rightarrow> 'o command_end go" where
  "exit_on_command_error msg (Ret (Returns (Some err))) = Fatal (msg @ '' Message: '' @ err)"
| "exit_on_command_error msg r = r"

definition operator_main ::
  "cli_select \<Rightarrow> ('w, 'o command_end) script cli_command list \<Rightarrow> string list \<Rightarrow> ('w, 'o command_end) script" where
  "operator_main select cmds args w =
     (let msg = ''Operator failed.'' in
      case select (declared cmds) args of
        Inl err \<Rightarrow> (w, exit_on_command_error msg (Ret (Returns (Some err))))
      | Inr None \<Rightarrow> (w, Ret (Returns None))
      | Inr (Some (name, vals)) \<Rightarrow>
          (case map_of cmds name of
             None \<Rightarrow> (w, Ret (Returns None))
           | Some (flags, action) \<Rightarrow>
               (case action (flag_context vals) w of (w, r) \<Rightarrow> (w, exit_on_command_error msg r))))"

text \<open>The aggregator has no commands: its flags and its action are those of the application.\<close>

definition aggregator_flags :: "cli_flag list" where
  "aggregator_flags = [ConfigFileFlag]"

definition aggregator_action ::
  "'h config_env \<Rightarrow> 'h sdk \<Rightarrow> ('h, 'b) bls_services \<Rightarrow> 'f main_event list \<Rightarrow> cli_context \<Rightarrow>
     (string + ('h, 'b) aggregator_program \<times> 'f bls_response list \<times> main_status) go" where
  "aggregator_action env S B evs ctx =
     aggregatorMain env S B (cli_String ctx (flag_Name ConfigFileFlag)) evs"

definition aggregator_main ::
  "cli_select \<Rightarrow> 'h config_env \<Rightarrow> 'h sdk \<Rightarrow> ('h, 'b) bls_services \<Rightarrow> 'f main_event list \<Rightarrow> string list \<Rightarrow>
     (('h, 'b) aggregator_program \<times> 'f bls_response list \<times> main_status) option go" where
  "aggregator_main select env S B evs args =
     (let msg = ''Application failed. Message: '' in
      case select [(''aligned-layer-aggregator'', aggregator_flags)] args of
        Inl err \<Rightarrow> Fatal (msg @ err)
      | Inr None \<Rightarrow> Ret None
      | Inr (Some (name, vals)) \<Rightarrow>
          gbind (aggregator_action env S B evs (flag_context vals)) (\<lambda>r.
            case r of Inl err \<Rightarrow> Fatal (msg @ err) | Inr run \<Rightarrow> Ret (Some run)))"

subsection \<open>What the actions read\<close>

definition contexts_agree :: "cli_flag list \<Rightarrow> cli_context \<Rightarrow> cli_context \<Rightarrow> bool" where
  "contexts_agree flags c c' \<longleftrightarrow> (\<forall>f\<in>set flags.
     cli_String c (flag_Name f) = cli_String c' (flag_Name f) \<and> cli_Int c (flag_Name f) = cli_Int c' (flag_Name f))"

definition reads_only :: "cli_flag list \<Rightarrow> (cli_context \<Rightarrow> 'a) \<Rightarrow> bool" where
  "reads_only flags action \<longleftrightarrow> (\<forall>c c'. contexts_agree flags c c' \<longrightarrow> action c = action c')"

lemma contexts_agree_simps [simp]:
  "contexts_agree [] c c'"
  "contexts_agree (f # fs) c c' \<longleftrightarrow> cli_String c (flag_Name f) = cli_String c' (flag_Name f)
     \<and> cli_Int c (flag_Name f) = cli_Int c' (flag_Name f) \<and> contexts_agree fs c c'"
  by (auto simp: contexts_agree_def)

lemma task_data_reads:
  assumes "cli_String c ''proving-system'' = cli_String c' ''proving-system''"
    and "x = 0 \<Longrightarrow> cli_String c ''proof'' = cli_String c' ''proof''
      \<and> cli_String c ''public-input'' = cli_String c' ''public-input''
      \<and> cli_String c ''verification-key'' = cli_String c' ''verification-key''"
  shows "task_data L c x w = task_data L c' x w"
  using assms by (auto simp: task_data_def proof_files_def)

lemma taskSenderMain_reads:
  assumes "cli_String c ''config'' = cli_String c' ''config''" and "\<And>w. task_data L c x w = task_data L c' x w"
  shows "taskSenderMain env S L c [x] w = taskSenderMain env S L c' [x] w"
proof -
  have g: "getAndUploadProofData L c x = getAndUploadProofData L c' x"
    using assms(2) by (intro ext) (simp add: getAndUploadProofData_def)
  show ?thesis unfolding taskSenderMain_def Let_def list.case assms(1) g by (rule refl)
qed

lemma taskSenderMain_default: "taskSenderMain env S L c [] = taskSenderMain env S L c [0]"
  by (intro ext) (simp add: taskSenderMain_def)

lemma round_loop_cong:
  "(\<And>y w. x \<le> y \<Longrightarrow> body y w = body' y w) \<Longrightarrow> round_loop n body pause x w = round_loop n body' pause x w"
proof (induction n arbitrary: x w)
  case (Suc n)
  show ?case using Suc.prems [of x] Suc.IH [of "Suc x"] Suc.prems
    by (auto split: prod.split go.split option.split)
qed simp

text \<open>The flags a command of the task sender makes use of.\<close>

definition used_flags :: "cli_flag list \<Rightarrow> cli_flag list" where
  "used_flags flags = filter (\<lambda>f. f \<noteq> feeFlag \<and> f \<noteq> quorumThresholdFlag) flags"

lemma send_reads:
  assumes "contexts_agree [provingSystemFlag, proofFlag, publicInputFlag, verificationKeyFlag, ConfigFileFlag] c c'"
  shows "taskSenderMain env S L c [] = taskSenderMain env S L c' []"
  unfolding taskSenderMain_default
  by (intro ext taskSenderMain_reads task_data_reads) (use assms in \<open>simp_all add: flag_defs\<close>)

lemma used_flags_simps:
  "used_flags sendTaskFlags = [provingSystemFlag, proofFlag, publicInputFlag, verificationKeyFlag, ConfigFileFlag]"
  "used_flags loopTasksFlags = [provingSystemFlag, proofFlag, publicInputFlag, verificationKeyFlag, ConfigFileFlag, intervalFlag]"
  "used_flags infiniteTasksFlags = [provingSystemFlag, ConfigFileFlag, intervalFlag]"
  by (simp_all add: used_flags_def sendTaskFlags_def loopTasksFlags_def infiniteTasksFlags_def flag_defs)

lemma loop_reads:
  assumes "contexts_agree (used_flags loopTasksFlags) c c'"
  shows "taskSenderLoopMain env S L c k = taskSenderLoopMain env S L c' k"
proof -
  have s: "taskSenderMain env S L c [] = taskSenderMain env S L c' []"
    by (rule send_reads) (use assms in \<open>simp add: used_flags_simps\<close>)
  have i: "cli_Int c ''interval'' = cli_Int c' ''interval''"
    using assms by (simp add: used_flags_simps intervalFlag_def)
  show ?thesis by (intro ext) (simp only: taskSenderLoopMain_def s i)
qed

lemma infinite_reads:
  assumes "contexts_agree (used_flags infiniteTasksFlags) c c'"
  shows "taskSenderInfiniteMain env S L P c k = taskSenderInfiniteMain env S L P c' k"
proof
  fix w
  have a: "cli_String c ''proving-system'' = cli_String c' ''proving-system''"
    "cli_String c ''config'' = cli_String c' ''config''" "cli_Int c ''interval'' = cli_Int c' ''interval''"
    using assms by (simp_all add: used_flags_simps flag_defs)
  have "taskSenderMain env S L c [y] w = taskSenderMain env S L c' [y] w" if "1 \<le> y" for y w
    by (intro taskSenderMain_reads task_data_reads) (use a that in simp_all)
  then have "infinite_round env S L P c y w = infinite_round env S L P c' y w" if "1 \<le> y" for y w
    using that by (simp add: infinite_round_def sbind_def split: prod.split go.split)
  then show "taskSenderInfiniteMain env S L P c k w = taskSenderInfiniteMain env S L P c' k w"
    using a(3) by (auto simp: taskSenderInfiniteMain_def Let_def intro: round_loop_cong)
qed

subsection \<open>Without a verification key\<close>

lemma keyless_task_fails:
  assumes "cli_String c ''verification-key'' = []" and "\<And>w. \<exists>err. os_ReadFile L [] w = Inl err"
  shows "taskSenderMain env S L c [] w \<noteq> (w', Ret None)"
proof
  assume "taskSenderMain env S L c [] w = (w', Ret None)"
  from taskSenderMain_sent [OF this] obtain root pointer w1
    where "getAndUploadProofData L c 0 w = (w1, Ret (Inr (root, pointer)))" by auto
  from uploaded_task [OF this] obtain d where "task_data L c 0 w = Inr [d]" by blast
  then show False using assms(2) [of w] assms(1) by (auto simp: task_data_def proof_files_def go_simps)
qed

lemma keyless_loop_fails:
  assumes "\<And>w w'. taskSenderMain env S L c [] w \<noteq> (w', Ret None)"
  shows "\<exists>w' r. taskSenderLoopMain env S L c (Suc k) w = (w', Ended r) \<and> r \<noteq> Ret None"
proof (cases "cli_Int c ''interval'' < 1")
  case False
  obtain w' r where r: "taskSenderMain env S L c [] w = (w', r)" by fastforce
  then have "r \<noteq> Ret None" using assms by auto
  with False r show ?thesis by (auto simp: taskSenderLoopMain_def Let_def split: go.splits option.splits)
qed (simp add: taskSenderLoopMain_def)

subsection \<open>Properties\<close>

text \<open>C39: Every command of the three programs reads only flags it declares (reading another would silently
  give an empty value), and those of the task sender do not even depend on the fee and the quorum
  threshold they declare.\<close>

theorem commands_read_declared_flags:
  "list_all (\<lambda>(name, flags, action). reads_only (used_flags flags) action) (task_sender_commands env S L P k)
   \<and> list_all (\<lambda>(name, flags, action). reads_only flags action) (operator_commands env reread S' L' net D now_text now)
   \<and> reads_only aggregator_flags (aggregator_action env S B evs)"
proof (intro conjI)
  have "reads_only (used_flags sendTaskFlags) (\<lambda>c w. case taskSenderMain env S L c [] w of (w, r) \<Rightarrow> (w, Ended r))"
    unfolding reads_only_def used_flags_simps
    by (intro allI impI, drule send_reads [where env = env and S = S and L = L]) (simp only:)
  moreover have "reads_only (used_flags loopTasksFlags) (\<lambda>c. taskSenderLoopMain env S L c k)"
    unfolding reads_only_def using loop_reads by blast
  moreover have "reads_only (used_flags infiniteTasksFlags) (\<lambda>c. taskSenderInfiniteMain env S L P c k)"
    unfolding reads_only_def using infinite_reads by blast
  ultimately show "list_all (\<lambda>(name, flags, action). reads_only (used_flags flags) action) (task_sender_commands env S L P k)"
    by (simp add: task_sender_commands_def)
  show "list_all (\<lambda>(name, flags, action). reads_only flags action) (operator_commands env reread S' L' net D now_text now)"
    by (simp add: operator_commands_def RegisterCommand_def StartCommand_def DepositIntoStrategyCommand_def
        reads_only_def StartFlags_def registerFlags_def depositFlags_def ConfigFileFlag_def)
  show "reads_only aggregator_flags (aggregator_action env S B evs)"
    by (simp add: reads_only_def aggregator_flags_def aggregator_action_def)
qed

text \<open>C38: The verification key is declared as optional, but a task sender that is asked to send tasks
  without one always ends with a failure, given that a file with the empty name cannot be read.\<close>

theorem tasks_need_a_verification_key:
  assumes "selects_commands select"
    and "select (declared (task_sender_commands env S L P (Suc k))) args = Inr (Some (name, vals))"
    and "name \<noteq> ''infinite-tasks''"
    and "vals (flag_Name verificationKeyFlag) = Some (flag_Value verificationKeyFlag)"
    and "\<And>w. \<exists>err. os_ReadFile L [] w = Inl err"
  shows "\<exists>w'. task_sender_main select env S L P (Suc k) args w = (w', Ended Panic)
    \<or> (\<exists>msg. task_sender_main select env S L P (Suc k) args w = (w', Ended (Fatal msg)))"
proof -
  let ?c = "flag_context vals" and ?msg = "''Task sender application failed.''"
  have "cli_String ?c ''verification-key'' = []"
    using assms(4) by (simp add: flag_context_def verificationKeyFlag_def)
  note fails = keyless_task_fails [OF this assms(5), of env S]
  obtain flags action where action: "map_of (task_sender_commands env S L P (Suc k)) name = Some (flags, action)"
    and name: "name = ''send-task'' \<or> name = ''loop-tasks''"
    using assms(1-3) unfolding selects_commands_def
    by (fastforce simp: declared_def task_sender_commands_def split: if_splits)
  have "\<exists>w' r. action ?c w = (w', Ended r) \<and> r \<noteq> Ret None"
    using name
  proof
    assume "name = ''send-task''"
    then have "action = (\<lambda>c w. case taskSenderMain env S L c [] w of (w, r) \<Rightarrow> (w, Ended r))"
      using action by (simp add: task_sender_commands_def)
    then show ?thesis using fails by (cases "taskSenderMain env S L ?c [] w") auto
  next
    assume "name = ''loop-tasks''"
    then have "action = (\<lambda>c. taskSenderLoopMain env S L c (Suc k))"
      using action by (simp add: task_sender_commands_def)
    then show ?thesis using keyless_loop_fails [OF fails] by blast
  qed
  then obtain w' r where r: "action ?c w = (w', Ended r)" "r \<noteq> Ret None" by blast
  have "task_sender_main select env S L P (Suc k) args w = (w', Ended (exit_on_error ?msg r))"
    using assms(2) action r(1) by (simp add: task_sender_main_def Let_def)
  then show ?thesis using r(2) by (cases "(?msg, r)" rule: exit_on_error.cases) auto
qed

text \<open>A library that takes a command's name and gives every flag its default.\<close>

definition default_values :: "cli_flag list \<Rightarrow> flag_values" where
  "default_values flags = map_of (map (\<lambda>f. (flag_Name f, flag_Value f)) flags)"

definition default_select :: cli_select where
  "default_select cmds args =
     (case args of
        [name] \<Rightarrow>
          (case map_of cmds name of
             None \<Rightarrow> Inr None
           | Some flags \<Rightarrow>
               if \<forall>f\<in>set flags. has_kind (flag_kind f) (the (default_values flags (flag_Name f)))
               then Inr (Some (name, default_values flags)) else Inl ''bad flag'')
      | _ \<Rightarrow> Inr None)"

lemma default_values_declared:
  "f \<in> set flags \<Longrightarrow> \<exists>v. default_values flags (flag_Name f) = Some v"
  "n \<notin> flag_Name ` set flags \<Longrightarrow> default_values flags n = None"
  by (force simp: default_values_def map_of_eq_None_iff
      intro: weak_map_of_SomeI dest: map_of_SomeD)+

lemma default_select_selects: "selects_commands default_select"
proof -
  have "default_select cmds args = Inr (Some (name, vals)) \<Longrightarrow> \<exists>flags. map_of cmds name = Some flags
      \<and> (\<forall>f\<in>set flags. has_kind (flag_kind f) (the (vals (flag_Name f)))) \<and> vals = default_values flags"
    for cmds args name vals
    by (auto simp: default_select_def split: list.splits option.splits if_splits)
  then show ?thesis
    unfolding selects_commands_def using default_values_declared by (metis option.sel)
qed

definition keyless_lib :: "(nat, nat, unit, unit) sender_lib" where
  "keyless_lib = example_sender_lib\<lparr>os_ReadFile := \<lambda>f w. if f = [] then Inl ''no such file'' else Inr [7]\<rparr>"

theorem tasks_need_a_verification_key_witness:
  "\<forall>P :: (nat, unit, unit, unit, unit, unit) groth16_prover. \<exists>w'.
     task_sender_main default_select example_env example_sdk keyless_lib P 1 [''send-task''] 0 = (w', Ended Panic)
     \<or> (\<exists>msg. task_sender_main default_select example_env example_sdk keyless_lib P 1 [''send-task''] 0
              = (w', Ended (Fatal msg)))"
proof
  fix P :: "(nat, unit, unit, unit, unit, unit) groth16_prover"
  have sel: "default_select (declared (task_sender_commands example_env example_sdk keyless_lib P (Suc 0))) [''send-task'']
      = Inr (Some (''send-task'', default_values sendTaskFlags))"
    by (simp add: default_select_def declared_def task_sender_commands_def default_values_def
        sendTaskFlags_def flag_defs has_kind_def)
  have key: "default_values sendTaskFlags (flag_Name verificationKeyFlag) = Some (flag_Value verificationKeyFlag)"
    by (simp add: default_values_def sendTaskFlags_def flag_defs)
  have unreadable: "\<exists>err. os_ReadFile keyless_lib [] w = Inl err" for w by (simp add: keyless_lib_def)
  have "''send-task'' \<noteq> ''infinite-tasks''" by simp
  from tasks_need_a_verification_key [OF default_select_selects sel this key unreadable, of 0]
  show "\<exists>w'. task_sender_main default_select example_env example_sdk keyless_lib P 1 [''send-task''] 0 = (w', Ended Panic)
     \<or> (\<exists>msg. task_sender_main default_select example_env example_sdk keyless_lib P 1 [''send-task''] 0
              = (w', Ended (Fatal msg)))" by simp
qed

end
