(* ===== verification/Batcher_Verify.thy ===== *)
theory Batcher_Verify
  imports Operator_Verify Batch_Json
begin

text \<open>
  The pre-verification of the batcher (Rust, \<open>batcher/aligned-batcher/src/zk_utils/mod.rs\<close>
  and the verifiers it dispatches to: \<open>gnark/mod.rs\<close>, \<open>sp1/mod.rs\<close>,
  \<open>halo2/ipa/mod.rs\<close>, \<open>halo2/kzg/mod.rs\<close>), and how its verdicts compare with the
  operators'. The Rust results use the types of the prelude: a panic (\<open>expect\<close>, an index out
  of range, slices of different lengths) is \<open>Panic\<close>.
\<close>

subsection \<open>SP1\<close>

text \<open>The key is set up before the proof is read; the operator's library does it after.\<close>

definition verify_sp1_proof :: "('proof, 'vk) sp1_lib \<Rightarrow> bytes \<Rightarrow> bytes \<Rightarrow> bool go" where
  "verify_sp1_proof lib proof elf =
     gbind (sp1_setup lib elf) (\<lambda>vk.
     if_let (sp1_deserialize lib proof) (\<lambda>proof.
     gbind (verify_compressed lib proof vk) (\<lambda>res. if res then Ret True else Ret False)))"

subsection \<open>gnark\<close>

definition verify_gnark ::
  "('p, 'w, 'k) gnark_backend \<Rightarrow> ('p, 'w, 'k) gnark_backend \<Rightarrow>
   ProvingSystemId \<Rightarrow> bytes \<Rightarrow> bytes \<Rightarrow> bytes \<Rightarrow> bool go" where
  "verify_gnark plonk groth16 system proof pub vkey =
     (let proof = list_ref_of proof; pub = list_ref_of pub;
          vkey = list_ref_of vkey in
      if system = GnarkPlonkBn254 then
        batcher_VerifyPlonkProofBN254 plonk proof pub vkey
      else if system = GnarkPlonkBls12_381 then
        batcher_VerifyPlonkProofBLS12_381 plonk proof pub vkey
      else if system = Groth16Bn254 then
        batcher_VerifyGroth16ProofBN254 groth16 proof pub vkey
      else Panic)"

subsection \<open>Halo2\<close>

record key_sizes =
  MAX_CONSTRAINT_SYSTEM_SIZE :: nat
  MAX_VERIFIER_KEY_SIZE :: nat
  MAX_PARAMS_SIZE :: nat

definition ipa_key_sizes :: key_sizes where
  "ipa_key_sizes = \<lparr>MAX_CONSTRAINT_SYSTEM_SIZE = 2 * 1024, MAX_VERIFIER_KEY_SIZE = 1024,
     MAX_PARAMS_SIZE = 4 * 1024\<rparr>"

definition kzg_key_sizes :: key_sizes where
  "kzg_key_sizes = \<lparr>MAX_CONSTRAINT_SYSTEM_SIZE = 2 * 1024, MAX_VERIFIER_KEY_SIZE = 1024,
     MAX_PARAMS_SIZE = 4 * 1024\<rparr>"

text \<open>\<open>&s[lo..hi]\<close>, and \<open>buf[..n].clone_from_slice(src)\<close> into a zeroed buffer of \<open>cap\<close>
  bytes, which panics unless the lengths are equal.\<close>

definition rust_slice :: "bytes \<Rightarrow> nat \<Rightarrow> nat \<Rightarrow> bytes go" where
  "rust_slice s lo hi =
     (if lo \<le> hi \<and> hi \<le> length s then Ret (take (hi - lo) (drop lo s)) else Panic)"

definition clone_into :: "nat \<Rightarrow> nat \<Rightarrow> bytes \<Rightarrow> bytes go" where
  "clone_into cap n src =
     (if n \<le> cap \<and> length src = n then Ret (src @ replicate (cap - n) 0) else Panic)"

definition read_u32 :: "bytes \<Rightarrow> nat \<Rightarrow> nat \<Rightarrow> nat go" where
  "read_u32 s lo hi = gbind (rust_slice s lo hi) (\<lambda>b. Ret (unat (le32 b)))"

text \<open>The three buffers the key is taken apart into. The offsets are computed in \<open>usize\<close>, 64
  bits, where sums of lengths of 32 bits do not wrap.\<close>

definition key_buffers :: "key_sizes \<Rightarrow> bytes \<Rightarrow> (bytes \<times> bytes \<times> bytes) go" where
  "key_buffers sz vkey =
     gbind (read_u32 vkey 0 4) (\<lambda>cs_len.
     let cs_offset = 12 in
     gbind (rust_slice vkey cs_offset (cs_offset + cs_len)) (\<lambda>cs.
     gbind (clone_into (MAX_CONSTRAINT_SYSTEM_SIZE sz) cs_len cs) (\<lambda>cs_buffer.
     gbind (read_u32 vkey 4 8) (\<lambda>vk_len.
     let vk_offset = cs_offset + cs_len in
     gbind (rust_slice vkey vk_offset (vk_offset + vk_len)) (\<lambda>vk.
     gbind (clone_into (MAX_VERIFIER_KEY_SIZE sz) vk_len vk) (\<lambda>vk_buffer.
     gbind (read_u32 vkey 8 12) (\<lambda>params_len.
     let params_offset = vk_offset + vk_len in
     gbind (rust_slice vkey params_offset (length vkey)) (\<lambda>params.
     gbind (clone_into (MAX_PARAMS_SIZE sz) params_len params) (\<lambda>params_buffer.
     Ret (cs_buffer, vk_buffer, params_buffer))))))))))"

definition verify_halo2 :: "key_sizes \<Rightarrow> ('cs, 'vk, 'p, 'fr) halo2_lib \<Rightarrow>
    bytes \<Rightarrow> bytes \<Rightarrow> bytes \<Rightarrow> bool go" where
  "verify_halo2 sz lib proof pub vkey =
     gbind (key_buffers sz vkey) (\<lambda>(cs_buffer, vk_buffer, params_buffer).
     if_let (deserialize_cs lib cs_buffer) (\<lambda>cs.
     if_let (read_vk lib vk_buffer cs) (\<lambda>vk.
     if_let (read_params lib params_buffer) (\<lambda>params.
     gbind (read_fr (fr_from_bytes lib) pub) (\<lambda>instances.
     verify_proof lib params vk instances proof)))))"

definition verify_halo2_ipa :: "('cs, 'vk, 'p, 'fr) halo2_lib \<Rightarrow> bytes \<Rightarrow> bytes \<Rightarrow> bytes \<Rightarrow> bool go" where
  "verify_halo2_ipa lib = verify_halo2 ipa_key_sizes lib"

definition verify_halo2_kzg :: "('cs, 'vk, 'p, 'fr) halo2_lib \<Rightarrow> bytes \<Rightarrow> bytes \<Rightarrow> bytes \<Rightarrow> bool go" where
  "verify_halo2_kzg lib = verify_halo2 kzg_key_sizes lib"

subsection \<open>The dispatch\<close>

record ('p, 'w, 'k) batcher_verifiers =
  bv_plonk :: "('p, 'w, 'k) gnark_backend"
  bv_groth16 :: "('p, 'w, 'k) gnark_backend"
  bv_sp1 :: "bytes \<Rightarrow> bytes \<Rightarrow> bool go"
  bv_halo2_ipa :: "bytes \<Rightarrow> bytes \<Rightarrow> bytes \<Rightarrow> bool go"
  bv_halo2_kzg :: "bytes \<Rightarrow> bytes \<Rightarrow> bytes \<Rightarrow> bool go"

fun expect :: "'a option \<Rightarrow> 'a go" where
  "expect None = Panic"
| "expect (Some x) = Ret x"

text \<open>The identifier is one of the six of the Rust enumeration, so the last case is gnark's.\<close>

definition zk_verify :: "('p, 'w, 'k) batcher_verifiers \<Rightarrow> rust_VerificationData \<Rightarrow> bool go" where
  "zk_verify B d =
     (if proving_system d = SP1 then
        (case vm_program_code d of Some elf \<Rightarrow> bv_sp1 B (rs_proof d) elf | None \<Rightarrow> Ret False)
      else if proving_system d = Halo2KZG then
        gbind (expect (verification_key d)) (\<lambda>vk.
        gbind (expect (pub_input d)) (\<lambda>pub. bv_halo2_kzg B (rs_proof d) pub vk))
      else if proving_system d = Halo2IPA then
        gbind (expect (verification_key d)) (\<lambda>vk.
        gbind (expect (pub_input d)) (\<lambda>pub. bv_halo2_ipa B (rs_proof d) pub vk))
      else
        gbind (expect (verification_key d)) (\<lambda>vk.
        gbind (expect (pub_input d)) (\<lambda>pub.
        verify_gnark (bv_plonk B) (bv_groth16 B) (proving_system d) (rs_proof d) pub vk)))"

subsection \<open>When a Halo2 key can be taken apart\<close>

definition params_length :: "bytes \<Rightarrow> nat" where
  "params_length b = unat (le32 (take 4 (drop 8 b)))"

text \<open>The key is its three length fields and exactly the parts they announce, each of which
  fits its buffer.\<close>

definition key_exact :: "key_sizes \<Rightarrow> bytes \<Rightarrow> bool" where
  "key_exact sz key \<longleftrightarrow>
     12 \<le> length key \<and> length key = 12 + cs_length key + vk_length key + params_length key
     \<and> cs_length key \<le> MAX_CONSTRAINT_SYSTEM_SIZE sz \<and> vk_length key \<le> MAX_VERIFIER_KEY_SIZE sz
     \<and> params_length key \<le> MAX_PARAMS_SIZE sz"

definition pad_to :: "nat \<Rightarrow> bytes \<Rightarrow> bytes" where
  "pad_to n b = b @ replicate (n - length b) 0"

lemma rust_slice_Ret_iff [go_simps]:
  "rust_slice s lo hi = Ret b \<longleftrightarrow> lo \<le> hi \<and> hi \<le> length s \<and> b = take (hi - lo) (drop lo s)"
  by (auto simp: rust_slice_def)

lemma clone_into_Ret_iff [go_simps]:
  "clone_into cap n src = Ret b \<longleftrightarrow> n \<le> cap \<and> length src = n \<and> b = pad_to cap src"
  by (auto simp: clone_into_def pad_to_def)

lemma read_u32_Ret_iff [go_simps]:
  "read_u32 s lo (lo + 4) = Ret n \<longleftrightarrow> lo + 4 \<le> length s \<and> n = unat (le32 (take 4 (drop lo s)))"
  by (auto simp: read_u32_def go_simps)

lemma key_buffers_not_Fatal [simp]: "key_buffers sz key \<noteq> Fatal m"
  by (auto simp: key_buffers_def Let_def read_u32_def rust_slice_def clone_into_def)

lemma key_buffers_iff:
  "key_buffers sz key =
     (if key_exact sz key then
        Ret (pad_to (MAX_CONSTRAINT_SYSTEM_SIZE sz) (take (cs_length key) (drop 12 key)),
             pad_to (MAX_VERIFIER_KEY_SIZE sz) (take (vk_length key) (drop (12 + cs_length key) key)),
             pad_to (MAX_PARAMS_SIZE sz) (drop (12 + cs_length key + vk_length key) key))
      else Panic)"
proof (cases "12 \<le> length key")
  case True
  then have r: "read_u32 key 0 4 = Ret (cs_length key)" "read_u32 key 4 8 = Ret (vk_length key)"
    "read_u32 key 8 12 = Ret (params_length key)"
    by (simp_all add: read_u32_def rust_slice_def cs_length_def vk_length_def params_length_def)
  show ?thesis
    using True
    by (auto simp: key_buffers_def Let_def r rust_slice_def clone_into_def key_exact_def pad_to_def)
next
  case False
  then show ?thesis
    by (auto simp: key_buffers_def Let_def read_u32_def rust_slice_def clone_into_def key_exact_def)
qed


subsection \<open>Keys in the writer's format\<close>

text \<open>The halo2 readers take what they need from the front: documented of
  \<open>bincode::deserialize\<close> (trailing bytes are allowed) and of readers of a stream.\<close>

definition trailing_ignored :: "('cs, 'vk, 'p, 'fr) halo2_lib \<Rightarrow> bool" where
  "trailing_ignored lib \<longleftrightarrow>
     (\<forall>b n x. deserialize_cs lib b = Ret (Some x) \<longrightarrow> deserialize_cs lib (b @ replicate n 0) = Ret (Some x))
     \<and> (\<forall>b n cs x. read_vk lib b cs = Ret (Some x) \<longrightarrow> read_vk lib (b @ replicate n 0) cs = Ret (Some x))
     \<and> (\<forall>b n x. read_params lib b = Ret (Some x) \<longrightarrow> read_params lib (b @ replicate n 0) = Ret (Some x))"

definition reads_whole :: "('cs, 'vk, 'p, 'fr) halo2_lib \<Rightarrow> bytes \<Rightarrow> bytes \<Rightarrow> bytes \<Rightarrow> bool" where
  "reads_whole lib cs_buf vk_buf params_buf \<longleftrightarrow>
     (\<exists>cs vk params. deserialize_cs lib cs_buf = Ret (Some cs) \<and> read_vk lib vk_buf cs = Ret (Some vk)
        \<and> read_params lib params_buf = Ret (Some params))"

definition parts_fit :: "bytes \<Rightarrow> bytes \<Rightarrow> bytes \<Rightarrow> bool" where
  "parts_fit cs_buf vk_buf params_buf \<longleftrightarrow>
     length cs_buf \<le> 2048 \<and> length vk_buf \<le> 1024 \<and> length params_buf \<le> 4096"

lemma key_exact_written:
  assumes "parts_fit cs_buf vk_buf params_buf"
  shows "key_exact ipa_key_sizes (write_params cs_buf vk_buf params_buf)"
    and "key_exact kzg_key_sizes (write_params cs_buf vk_buf params_buf)"
  using assms write_params_lengths [of cs_buf vk_buf params_buf]
  by (simp_all add: key_exact_def parts_fit_def params_length_def ipa_key_sizes_def kzg_key_sizes_def)

lemma verify_halo2_written:
  assumes lib: "trailing_ignored lib" "reads_whole lib cs_buf vk_buf params_buf"
    and fit: "parts_fit cs_buf vk_buf params_buf" and sz: "sz \<in> {ipa_key_sizes, kzg_key_sizes}"
  shows "verify_halo2 sz lib proof pub (write_params cs_buf vk_buf params_buf)
    = halo2_check lib cs_buf vk_buf params_buf pub proof"
proof -
  let ?w = "write_params cs_buf vk_buf params_buf"
  have l: "cs_length ?w = length cs_buf" "vk_length ?w = length vk_buf"
    using fit by (simp_all add: write_params_lengths parts_fit_def)
  have k: "key_exact sz ?w" using key_exact_written [OF fit] sz by blast
  obtain cs vk params where r: "deserialize_cs lib cs_buf = Ret (Some cs)"
      "read_vk lib vk_buf cs = Ret (Some vk)" "read_params lib params_buf = Ret (Some params)"
    using lib(2) by (auto simp: reads_whole_def)
  then have "deserialize_cs lib (pad_to n cs_buf) = Ret (Some cs)"
      "read_vk lib (pad_to n vk_buf) cs = Ret (Some vk)"
      "read_params lib (pad_to n params_buf) = Ret (Some params)" for n
    using lib(1) by (simp_all add: trailing_ignored_def pad_to_def)
  then show ?thesis
    using k r by (simp add: verify_halo2_def key_buffers_iff l write_params_parts halo2_check_def if_let_def)
qed

subsection \<open>The two verdicts on one entry\<close>

text \<open>The operators' verifiers call the same libraries as the batcher's.\<close>

definition same_libraries :: "('sp, 'svk) sp1_lib \<Rightarrow> ('cs, 'vk, 'pa, 'fr) halo2_lib \<Rightarrow>
    ('p, 'w, 'k) batcher_verifiers \<Rightarrow> ('p, 'w, 'k) verifiers \<Rightarrow> bool" where
  "same_libraries sp1 halo2 B V \<longleftrightarrow>
     bv_plonk B = plonk_backend V \<and> bv_groth16 B = groth16_backend V
     \<and> bv_sp1 B = verify_sp1_proof sp1 \<and> sp1_verifier V = verify_sp1_proof_ffi sp1
     \<and> bv_halo2_ipa B = verify_halo2_ipa halo2 \<and> halo2ipa_verifier V = verify_halo2_ipa_proof_ffi halo2
     \<and> bv_halo2_kzg B = verify_halo2_kzg halo2 \<and> halo2kzg_verifier V = verify_halo2_kzg_proof_ffi halo2"

text \<open>What the operators ask of an entry beside its proof: lengths that pass their interfaces.\<close>

definition short_parts :: "rust_VerificationData \<Rightarrow> bool" where
  "short_parts e \<longleftrightarrow> length (rs_proof e) < 2 ^ 32 \<and> length (opt_bytes (pub_input e)) < 2 ^ 32
     \<and> length (opt_bytes (verification_key e)) < 2 ^ 32 \<and> length (opt_bytes (vm_program_code e)) < 2 ^ 32"

definition halo2_key :: "('cs, 'vk, 'p, 'fr) halo2_lib \<Rightarrow> bytes option \<Rightarrow> bool" where
  "halo2_key lib key \<longleftrightarrow>
     (\<exists>cs_buf vk_buf params_buf. key = Some (write_params cs_buf vk_buf params_buf)
        \<and> parts_fit cs_buf vk_buf params_buf \<and> reads_whole lib cs_buf vk_buf params_buf)"

definition operators_can_read :: "('cs, 'vk, 'p, 'fr) halo2_lib \<Rightarrow> rust_VerificationData \<Rightarrow> bool" where
  "operators_can_read lib e \<longleftrightarrow> short_parts e
     \<and> (proving_system e = SP1 \<longrightarrow> rs_proof e \<noteq> [] \<and> vm_program_code e \<noteq> Some [])
     \<and> (proving_system e \<in> {Halo2IPA, Halo2KZG} \<longrightarrow> halo2_key lib (verification_key e)
          \<and> length (rs_proof e) \<le> 4096 \<and> length (opt_bytes (pub_input e)) \<le> 4096)"

lemma expect_Ret_iff [go_simps]: "expect x = Ret y \<longleftrightarrow> x = Some y"
  by (cases x) auto

lemma if_let_True_iff [go_simps]:
  "if_let e k = Ret True \<longleftrightarrow> (\<exists>x. e = Ret (Some x) \<and> k x = Ret True)"
  by (cases e) (auto simp: if_let_def split: option.splits)

text \<open>A read entry with its slices, as the operator's dispatch uses them.\<close>

lemma slen_read:
  assumes "rust_entry_read e e'"
  shows "slen (vd_Proof e') = length (rs_proof e)"
    and "slen (vd_PubInput e') = length (opt_bytes (pub_input e))"
    and "slen (vd_VmProgramCode e') = length (opt_bytes (vm_program_code e))"
  using assms length_contents [of "vd_Proof e'"] length_contents [of "vd_PubInput e'"]
    length_contents [of "vd_VmProgramCode e'"] by (simp_all add: rust_entry_read_def)

lemma gnark_verdict:
  assumes "proving_system e \<in> {GnarkPlonkBls12_381, GnarkPlonkBn254, Groth16Bn254}"
    and r: "rust_entry_read e e'" and libs: "same_libraries sp1 halo2 B V" and short: "short_parts e"
    and ok: "zk_verify B e = Ret True"
  shows "verify V e' = Ret True"
proof -
  have sys: "proving_system e \<noteq> SP1" "proving_system e \<noteq> Halo2KZG" "proving_system e \<noteq> Halo2IPA"
    using assms(1) by (auto simp: ps_defs)
  obtain vk pub where o: "verification_key e = Some vk" "pub_input e = Some pub"
    and v: "verify_gnark (plonk_backend V) (groth16_backend V) (proving_system e) (rs_proof e) pub vk = Ret True"
    using ok sys libs by (auto simp: zk_verify_def go_simps same_libraries_def)
  have len: "length (rs_proof e) < 2 ^ 32" "length pub < 2 ^ 32" "length vk < 2 ^ 32"
    using short o by (simp_all add: short_parts_def opt_bytes_def)
  note f = batcher_functions [OF len, of "plonk_backend V" "groth16_backend V", unfolded Let_def]
  have c: "contents (vd_Proof e') = rs_proof e" "contents (vd_PubInput e') = pub"
    "contents (vd_VerificationKey e') = vk" "vd_ProvingSystemId e' = proving_system e"
    using r o by (simp_all add: rust_entry_read_def opt_bytes_def)
  from assms(1) consider (b) "proving_system e = GnarkPlonkBls12_381"
    | (p) "proving_system e = GnarkPlonkBn254" | (g) "proving_system e = Groth16Bn254" by blast
  then show ?thesis
  proof cases
    case b
    then show ?thesis using v f by (simp add: verify_def Let_def c verify_gnark_def ps_defs split: if_splits)
  next
    case p
    then show ?thesis using v f by (simp add: verify_def Let_def c verify_gnark_def ps_defs split: if_splits)
  next
    case g
    then show ?thesis using v f by (simp add: verify_def Let_def c verify_gnark_def ps_defs split: if_splits)
  qed
qed

lemma whole_slice: "slice_ok s \<Longrightarrow> slen s < 2 ^ 32 \<Longrightarrow> take (unat (len32 s)) (backing s) = contents s"
  by (simp add: len32_def contents_def)

lemma sp1_verdict:
  assumes sys: "proving_system e = SP1"
    and r: "rust_entry_read e e'" and libs: "same_libraries sp1 halo2 B V"
    and can: "operators_can_read halo2 e" and ok: "zk_verify B e = Ret True"
  shows "verify V e' = Ret True"
proof -
  obtain elf where elf: "vm_program_code e = Some elf"
    and v: "verify_sp1_proof sp1 (rs_proof e) elf = Ret True"
    using ok sys libs by (auto simp: zk_verify_def same_libraries_def split: option.splits)
  have ne: "rs_proof e \<noteq> []" "elf \<noteq> []" "length (rs_proof e) < 2 ^ 32" "length elf < 2 ^ 32"
    using can sys elf by (auto simp: operators_can_read_def short_parts_def opt_bytes_def)
  have c: "contents (vd_Proof e') = rs_proof e" "contents (vd_VmProgramCode e') = elf"
    "slice_ok (vd_Proof e')" "slice_ok (vd_VmProgramCode e')" "vd_ProvingSystemId e' = SP1"
    using r elf sys by (simp_all add: rust_entry_read_def opt_bytes_def)
  have l: "slen (vd_Proof e') = length (rs_proof e)" "slen (vd_VmProgramCode e') = length elf"
    using slen_read [OF r] elf by (simp_all add: opt_bytes_def)
  have "verify V e' = VerifySp1Proof (verify_sp1_proof_ffi sp1) (vd_Proof e') (len32 (vd_Proof e'))
      (vd_VmProgramCode e') (len32 (vd_VmProgramCode e'))"
    using libs by (simp add: verify_def Let_def c ps_defs same_libraries_def)
  also have "\<dots> = Ret True"
    using v ne whole_slice [OF c(3)] whole_slice [OF c(4)]
    by (auto simp: VerifySp1Proof_def first_addr_def l c verify_sp1_proof_ffi_def verify_sp1_proof_def
        go_simps Let_def split: if_splits)
  finally show ?thesis .
qed

text \<open>A Halo2 entry with a key of the writer: the batcher's verdict is the library's, and the
  operators', up to the size of the proof.\<close>

lemma halo2_zk_verify:
  assumes sys: "proving_system e \<in> {Halo2IPA, Halo2KZG}" and lib: "trailing_ignored halo2"
    and libs: "same_libraries sp1 halo2 B V" and pub: "pub_input e = Some pub"
    and key: "verification_key e = Some (write_params cs_buf vk_buf params_buf)"
      "parts_fit cs_buf vk_buf params_buf" "reads_whole halo2 cs_buf vk_buf params_buf"
  shows "zk_verify B e = halo2_check halo2 cs_buf vk_buf params_buf pub (rs_proof e)"
  using sys libs pub key
  by (auto simp: zk_verify_def same_libraries_def verify_halo2_ipa_def verify_halo2_kzg_def ps_defs
      verify_halo2_written [OF lib key(3,2)])

lemma halo2_operator_verdict:
  assumes sys: "proving_system e \<in> {Halo2IPA, Halo2KZG}" and r: "rust_entry_read e e'"
    and libs: "same_libraries sp1 halo2 B V"
    and pub: "pub_input e = Some pub" "length pub \<le> 4096" and len: "length (rs_proof e) < 2 ^ 32"
    and key: "verification_key e = Some (write_params cs_buf vk_buf params_buf)"
      "parts_fit cs_buf vk_buf params_buf" "reads_whole halo2 cs_buf vk_buf params_buf"
  shows "verify V e' =
    (if length (rs_proof e) \<le> 4096 then halo2_check halo2 cs_buf vk_buf params_buf pub (rs_proof e)
     else Panic)"
proof -
  have c: "contents (vd_VerificationKey e') = write_params cs_buf vk_buf params_buf"
    "slice_ok (vd_VerificationKey e')" "slice_ok (vd_PubInput e')" "slice_ok (vd_Proof e')"
    "contents (vd_Proof e') = rs_proof e" "contents (vd_PubInput e') = pub"
    "vd_ProvingSystemId e' = proving_system e"
    using r pub key by (simp_all add: rust_entry_read_def opt_bytes_def)
  have l: "slen (vd_Proof e') = length (rs_proof e)" "slen (vd_PubInput e') = length pub"
    using slen_read [OF r] pub by (simp_all add: opt_bytes_def)
  have fit: "halo2_sizes_ok halo2ipa_sizes cs_buf vk_buf params_buf (vd_PubInput e')"
    using key pub by (simp add: halo2_sizes_ok_def halo2ipa_sizes_def rust_ipa_sizes_def parts_fit_def l)
  obtain cs vk params where reads: "deserialize_cs halo2 cs_buf = Ret (Some cs)"
      "read_vk halo2 vk_buf cs = Ret (Some vk)" "read_params halo2 params_buf = Ret (Some params)"
    using key(3) by (auto simp: reads_whole_def)
  have d: "verify V e' \<in> {verify_Halo2IPA (verify_halo2_ipa_proof_ffi halo2) e',
      verify_Halo2KZG (verify_halo2_kzg_proof_ffi halo2) e'}"
    using sys libs by (auto simp: verify_def Let_def c ps_defs same_libraries_def)
  show ?thesis
  proof (cases "length (rs_proof e) \<le> 4096")
    case True
    then show ?thesis using d halo2_short_verdict [OF c(1-4) fit, of halo2] by (auto simp: l c)
  next
    case False
    then show ?thesis using d halo2_long_proof_crashes [OF c(1-4) fit _ _ reads] len by (auto simp: l)
  qed
qed

lemma entry_verdict:
  assumes sys: "proving_system e \<in> set known_systems" and lib: "trailing_ignored halo2"
    and r: "rust_entry_read e e'" and libs: "same_libraries sp1 halo2 B V"
    and can: "operators_can_read halo2 e" and ok: "zk_verify B e = Ret True"
  shows "verify V e' = Ret True"
proof -
  have short: "short_parts e" using can by (simp add: operators_can_read_def)
  consider (gnark) "proving_system e \<in> {GnarkPlonkBls12_381, GnarkPlonkBn254, Groth16Bn254}"
    | (sp1) "proving_system e = SP1" | (halo2) "proving_system e \<in> {Halo2IPA, Halo2KZG}"
    using sys by (auto simp: known_systems_def)
  then show ?thesis
  proof cases
    case gnark
    then show ?thesis by (rule gnark_verdict [OF _ r libs short ok])
  next
    case sp1
    then show ?thesis by (rule sp1_verdict [OF _ r libs can ok])
  next
    case halo2
    obtain cs_buf vk_buf params_buf where key: "verification_key e = Some (write_params cs_buf vk_buf params_buf)"
      "parts_fit cs_buf vk_buf params_buf" "reads_whole halo2 cs_buf vk_buf params_buf"
      using can halo2 by (auto simp: operators_can_read_def halo2_key_def)
    obtain pub where pub: "pub_input e = Some pub"
      using ok halo2 by (auto simp: zk_verify_def go_simps ps_defs)
    show ?thesis
      using halo2_operator_verdict [OF halo2 r libs pub _ _ key] halo2_zk_verify [OF halo2 lib libs pub key]
        can halo2 pub short ok
      by (auto simp: operators_can_read_def short_parts_def opt_bytes_def)
  qed
qed

subsection \<open>Properties\<close>

text \<open>Libraries for the witnesses: the readers drop trailing zeros and accept anything, and a
  Halo2 or SP1 proof is accepted when it is not empty.\<close>

definition trim_zeros :: "bytes \<Rightarrow> bytes" where
  "trim_zeros b = rev (dropWhile (\<lambda>x. x = 0) (rev b))"

definition trim_lib :: "(bytes, bytes, bytes, bytes) halo2_lib" where
  "trim_lib = \<lparr>deserialize_cs = \<lambda>b. Ret (Some (trim_zeros b)), read_vk = \<lambda>b cs. Ret (Some (trim_zeros b)),
     read_params = \<lambda>b. Ret (Some (trim_zeros b)), fr_from_bytes = Some,
     verify_proof = \<lambda>p vk xs proof. Ret (proof \<noteq> [])\<rparr>"

definition any_sp1 :: "(bytes, unit) sp1_lib" where
  "any_sp1 = \<lparr>sp1_deserialize = \<lambda>b. Ret (if b = [] then None else Some b), sp1_setup = \<lambda>elf. Ret (),
     verify_compressed = \<lambda>p vk. Ret True\<rparr>"

definition example_batcher_verifiers :: "(bytes, bytes, unit) batcher_verifiers" where
  "example_batcher_verifiers = \<lparr>bv_plonk = echo_gnark, bv_groth16 = echo_gnark,
     bv_sp1 = verify_sp1_proof any_sp1, bv_halo2_ipa = verify_halo2_ipa trim_lib,
     bv_halo2_kzg = verify_halo2_kzg trim_lib\<rparr>"

definition matching_verifiers :: "(bytes, bytes, unit) verifiers" where
  "matching_verifiers = \<lparr>plonk_backend = echo_gnark, groth16_backend = echo_gnark,
     sp1_verifier = verify_sp1_proof_ffi any_sp1, halo2ipa_verifier = verify_halo2_ipa_proof_ffi trim_lib,
     halo2kzg_verifier = verify_halo2_kzg_proof_ffi trim_lib\<rparr>"

lemma example_libraries: "same_libraries any_sp1 trim_lib example_batcher_verifiers matching_verifiers"
  by (simp add: same_libraries_def example_batcher_verifiers_def matching_verifiers_def)

lemma trim_lib_trailing: "trailing_ignored trim_lib"
proof -
  have "dropWhile (\<lambda>x. x = 0) (replicate n (0 :: byte) @ b) = dropWhile (\<lambda>x. x = 0) b" for n b
    by (induction n) simp_all
  then show ?thesis by (simp add: trailing_ignored_def trim_lib_def trim_zeros_def)
qed

definition rust_halo2_entry :: "bytes \<Rightarrow> rust_VerificationData" where
  "rust_halo2_entry proof = \<lparr>proving_system = Halo2KZG, rs_proof = proof, pub_input = Some [],
     verification_key = Some (write_params [1] [2, 3] [4]), vm_program_code = None,
     proof_generator_addr = replicate 20 9\<rparr>"



end
