(* ===== verification/Batcher.thy ===== *)
theory Batcher
  imports Batcher_Verify Go_Script
begin

text \<open>
  The batcher (Rust, \<open>batcher/aligned-batcher/src/lib.rs\<close>, with the types of
  \<open>batcher/aligned-batcher-lib/src/types/mod.rs\<close>): clients' messages are verified and
  queued, every new block of the chain may take a batch from the queue, upload its file and
  create its task, and the clients get the data that proves the inclusion of their proofs.

  serde, the Merkle tree of lambdaworks, Keccak, the web sockets, S3 and the Ethereum client are
  arguments (\<open>merkle_lib\<close>, \<open>batcher_env\<close>). The queue and the block of the last upload
  are behind mutexes that are held for the whole of each operation below, so the operations are
  atomic; the tasks that Tokio runs for the connections and for the blocks are interleaved by a
  step relation. A panic ends the task it happens in and no other.
\<close>

subsection \<open>Commitments\<close>

record VerificationDataCommitment =
  proof_commitment :: bytes32
  pub_input_commitment :: bytes32
  proving_system_aux_data_commitment :: bytes32
  generator_addr :: bytes

text \<open>\<open>impl From<VerificationData>\<close>; the assertion in it is for debug builds only.\<close>

definition commitment_of :: "(bytes \<Rightarrow> bytes32) \<Rightarrow> rust_VerificationData \<Rightarrow> VerificationDataCommitment" where
  "commitment_of keccak256 d =
     \<lparr>proof_commitment = keccak256 (rs_proof d),
      pub_input_commitment =
        (case pub_input d of Some pub \<Rightarrow> keccak256 pub | None \<Rightarrow> replicate 32 0),
      proving_system_aux_data_commitment =
        (case vm_program_code d of
           Some code \<Rightarrow> keccak256 code
         | None \<Rightarrow> (case verification_key d of Some vk \<Rightarrow> keccak256 vk | None \<Rightarrow> replicate 32 0)),
      generator_addr = proof_generator_addr d\<rparr>"

definition hash_data :: "(bytes \<Rightarrow> bytes32) \<Rightarrow> VerificationDataCommitment \<Rightarrow> bytes32" where
  "hash_data keccak256 leaf =
     keccak256 (proof_commitment leaf @ pub_input_commitment leaf
       @ proving_system_aux_data_commitment leaf @ generator_addr leaf)"

definition hash_new_parent :: "(bytes \<Rightarrow> bytes32) \<Rightarrow> bytes32 \<Rightarrow> bytes32 \<Rightarrow> bytes32" where
  "hash_new_parent keccak256 child_1 child_2 = keccak256 (child_1 @ child_2)"

text \<open>The Merkle tree library: building a tree may panic; a position may have no proof.\<close>

record 't merkle_lib =
  merkle_build :: "(VerificationDataCommitment \<Rightarrow> bytes32) \<Rightarrow> (bytes32 \<Rightarrow> bytes32 \<Rightarrow> bytes32) \<Rightarrow>
    VerificationDataCommitment list \<Rightarrow> 't go"
  merkle_root :: "'t \<Rightarrow> bytes32"
  get_proof_by_pos :: "'t \<Rightarrow> nat \<Rightarrow> bytes32 list option"

record BatchInclusionData =
  verification_data_commitment :: VerificationDataCommitment
  batch_merkle_root :: bytes32
  batch_inclusion_proof :: "bytes32 list"
  verification_data_batch_index :: nat

definition BatchInclusionData_new ::
  "'t merkle_lib \<Rightarrow> VerificationDataCommitment \<Rightarrow> nat \<Rightarrow> 't \<Rightarrow> BatchInclusionData go" where
  "BatchInclusionData_new M commitment index tree =
     gbind (expect (get_proof_by_pos M tree index)) (\<lambda>path.
     Ret \<lparr>verification_data_commitment = commitment, batch_merkle_root = merkle_root M tree,
          batch_inclusion_proof = path, verification_data_batch_index = index\<rparr>)"

subsection \<open>The state\<close>

type_synonym 'c batch_entry = "rust_VerificationData \<times> VerificationDataCommitment \<times> 'c"

record 'c batcher =
  batch_queue :: "'c batch_entry list"
  max_block_interval :: u64
  min_batch_len :: nat
  max_proof_size :: nat
  max_batch_size :: nat
  last_uploaded_batch_block :: u64
  pre_verification_is_enabled :: bool

record BatcherConfigFromYaml =
  block_interval :: u64
  batch_size_interval :: nat
  config_max_proof_size :: nat
  config_max_batch_size :: nat
  config_pre_verification_is_enabled :: bool

text \<open>\<open>Batcher::new\<close>, once it is connected and knows the current block.\<close>

definition Batcher_new :: "BatcherConfigFromYaml \<Rightarrow> u64 \<Rightarrow> 'c batcher" where
  "Batcher_new config block =
     \<lparr>batch_queue = [], max_block_interval = block_interval config,
      min_batch_len = batch_size_interval config, max_proof_size = config_max_proof_size config,
      max_batch_size = config_max_batch_size config, last_uploaded_batch_block = block,
      pre_verification_is_enabled = config_pre_verification_is_enabled config\<rparr>"

subsection \<open>A client's message\<close>

definition add_to_batch :: "(bytes \<Rightarrow> bytes32) \<Rightarrow> rust_VerificationData \<Rightarrow> 'c \<Rightarrow> 'c batcher \<Rightarrow> 'c batcher" where
  "add_to_batch keccak256 d sink b =
     b\<lparr>batch_queue := batch_queue b @ [(d, commitment_of keccak256 d, sink)]\<rparr>"

text \<open>\<open>from_str\<close> is what serde reads from a text, if anything; the error ends the connection.\<close>

definition handle_message ::
  "(bytes \<Rightarrow> bytes32) \<Rightarrow> ('p, 'w, 'k) batcher_verifiers \<Rightarrow> (string \<Rightarrow> rust_VerificationData option) \<Rightarrow>
   string \<Rightarrow> 'c \<Rightarrow> 'c batcher \<Rightarrow> ('c batcher \<times> string option) go" where
  "handle_message keccak256 B from_str message sink b =
     gbind (expect (from_str message)) (\<lambda>d.
     if length (rs_proof d) \<le> max_proof_size b then
       gbind (if pre_verification_is_enabled b then zk_verify B d else Ret True) (\<lambda>valid.
       if \<not> valid then Ret (b, Some ''HandshakeIncomplete'')
       else Ret (add_to_batch keccak256 d sink b, None))
     else Ret (b, Some ''HandshakeIncomplete''))"

subsection \<open>Taking a batch\<close>

text \<open>\<open>serde_json::to_vec\<close> of one entry.\<close>

definition rust_entry_to_vec :: "rust_VerificationData \<Rightarrow> bytes" where
  "rust_entry_to_vec d = json_print (rust_entry_value d)"

text \<open>The loop over the queue: the index at which the limit is passed, and 0 if it is not.\<close>

fun split_index :: "nat \<Rightarrow> nat \<Rightarrow> nat \<Rightarrow> rust_VerificationData list \<Rightarrow> nat" where
  "split_index limit idx acc [] = 0"
| "split_index limit idx acc (d # ds) =
     (let acc = acc + length (rust_entry_to_vec d) in
      if acc > limit then idx else split_index limit (Suc idx) acc ds)"

definition is_batch_ready :: "u64 \<Rightarrow> 'c batcher \<Rightarrow> 'c batcher \<times> 'c batch_entry list option" where
  "is_batch_ready block_number b =
     (let current_batch_len = length (batch_queue b) in
      if current_batch_len < 2 then (b, None)
      else if current_batch_len < min_batch_len b
          \<and> block_number < last_uploaded_batch_block b + max_block_interval b then (b, None)
      else
        let batch_verification_data = map fst (batch_queue b);
            current_batch_size = length (rust_batch_to_vec batch_verification_data) in
        if current_batch_size > max_batch_size b then
          let idx = split_index (max_batch_size b) 0 0 batch_verification_data in
          (b\<lparr>batch_queue := drop idx (batch_queue b)\<rparr>, Some (take idx (batch_queue b)))
        else (b\<lparr>batch_queue := []\<rparr>, Some (batch_queue b)))"

subsection \<open>The outside world\<close>

datatype ws_message = Binary BatchInclusionData | Close string

datatype ws_error = AlreadyClosed | SendAfterClosing | OtherError string

text \<open>
  \<open>create_new_task_send\<close> sends the transaction, \<open>await_pending\<close> waits for its receipt.
  \<open>verified_events\<close> is what the stream of events gives while the batcher waits, until the
  wait is over (\<open>None\<close>: sixty seconds pass first).
\<close>

record ('w, 'c, 'tx, 'r) batcher_env =
  event_stream :: "'w \<Rightarrow> 'w \<times> string option"
  put_object :: "string \<Rightarrow> string \<Rightarrow> bytes \<Rightarrow> 'w \<Rightarrow> 'w \<times> string option"
  create_new_task_send :: "bytes32 \<Rightarrow> string \<Rightarrow> 'w \<Rightarrow> 'w \<times> 'tx result"
  await_pending :: "'tx \<Rightarrow> 'w \<Rightarrow> 'w \<times> 'r option result"
  ws_send :: "'c \<Rightarrow> ws_message \<Rightarrow> 'w \<Rightarrow> 'w \<times> ws_error option"
  verified_events :: "'w \<Rightarrow> 'w \<times> bytes32 result list option"

definition S3_BUCKET_NAME :: string where
  "S3_BUCKET_NAME = ''storage.alignedlayer.com''"

definition create_new_task ::
  "('w, 'c, 'tx, 'r) batcher_env \<Rightarrow> bytes32 \<Rightarrow> string \<Rightarrow> 'w \<Rightarrow> 'w \<times> 'r result" where
  "create_new_task E root pointer w =
     (case create_new_task_send E root pointer w of
        (w, Inl err) \<Rightarrow> (w, Inl err)
      | (w, Inr pending) \<Rightarrow>
          (case await_pending E pending w of
             (w, Inl err) \<Rightarrow> (w, Inl err)
           | (w, Inr (Some receipt)) \<Rightarrow> (w, Inr receipt)
           | (w, Inr None) \<Rightarrow> (w, Inl ''Receipt not found'')))"

text \<open>A call that changes the world and not the batcher.\<close>

definition world_call :: "('w \<Rightarrow> 'w \<times> 'a) \<Rightarrow> ('w \<times> 'c batcher, 'a) script" where
  "world_call f = (\<lambda>(w, b). case f w of (w, x) \<Rightarrow> ((w, b), Ret x))"

lemma sbind_world_call [simp]:
  "sbind (world_call f) k (w, b) = k (snd (f w)) (fst (f w), b)"
  by (cases "f w") (simp add: sbind_def world_call_def)

lemma sbind_pure_go: "sbind (pure_go x) k s = (case x of Ret y \<Rightarrow> k y s | Panic \<Rightarrow> (s, Panic) | Fatal m \<Rightarrow> (s, Fatal m))"
  by (cases x) (simp_all add: sbind_def pure_go_def)

definition set_last_uploaded :: "u64 \<Rightarrow> ('w \<times> 'c batcher, unit) script" where
  "set_last_uploaded n = (\<lambda>(w, b). ((w, b\<lparr>last_uploaded_batch_block := n\<rparr>), Ret ()))"

definition batch_file_name :: "bytes32 \<Rightarrow> string" where
  "batch_file_name root = hex_encode root @ ''.json''"

definition batch_data_pointer :: "bytes32 \<Rightarrow> string" where
  "batch_data_pointer root = ''https://'' @ S3_BUCKET_NAME @ ''/'' @ batch_file_name root"

text \<open>The upload must succeed; a failure to create the task is only logged.\<close>

definition submit_batch ::
  "('w, 'c, 'tx, 'r) batcher_env \<Rightarrow> bytes \<Rightarrow> bytes32 \<Rightarrow> ('w \<times> 'c batcher, unit) script" where
  "submit_batch E batch_bytes root =
     sbind (world_call (put_object E S3_BUCKET_NAME (batch_file_name root) batch_bytes)) (\<lambda>r.
     case r of
       Some err \<Rightarrow> pure_go Panic
     | None \<Rightarrow> sbind (world_call (create_new_task E root (batch_data_pointer root))) (\<lambda>_. sret ()))"

fun send_batch_inclusion_data_responses ::
  "('w, 'c, 'tx, 'r) batcher_env \<Rightarrow> 't merkle_lib \<Rightarrow> 't \<Rightarrow> nat \<Rightarrow> 'c batch_entry list \<Rightarrow>
   ('w \<times> 'c batcher, unit) script" where
  "send_batch_inclusion_data_responses E M tree i [] = sret ()"
| "send_batch_inclusion_data_responses E M tree i ((d, vdc, sink) # rest) =
     sbind (pure_go (BatchInclusionData_new M vdc i tree)) (\<lambda>response.
     sbind (world_call (ws_send E sink (Binary response))) (\<lambda>_.
     send_batch_inclusion_data_responses E M tree (Suc i) rest))"

fun send_timeout_close ::
  "('w, 'c, 'tx, 'r) batcher_env \<Rightarrow> 'c batch_entry list \<Rightarrow> ('w \<times> 'c batcher, string option) script" where
  "send_timeout_close E [] = sret None"
| "send_timeout_close E ((d, vdc, sink) # rest) =
     sbind (world_call (ws_send E sink (Close ''Timeout: BatchVerified event not received''))) (\<lambda>r.
     case r of
       Some AlreadyClosed \<Rightarrow> sret (Some ''already closed'')
     | Some (OtherError e) \<Rightarrow> sret (Some e)
     | _ \<Rightarrow> send_timeout_close E rest)"

fun await_batch_verified_event :: "bytes32 result list \<Rightarrow> bytes32 \<Rightarrow> string option" where
  "await_batch_verified_event [] root = None"
| "await_batch_verified_event (Inr r # events) root =
     (if r = root then None else await_batch_verified_event events root)"
| "await_batch_verified_event (Inl e # events) root = Some e"

subsection \<open>Finalizing a batch\<close>

definition finalize_batch ::
  "(bytes \<Rightarrow> bytes32) \<Rightarrow> 't merkle_lib \<Rightarrow> ('w, 'c, 'tx, 'r) batcher_env \<Rightarrow> u64 \<Rightarrow>
   'c batch_entry list \<Rightarrow> bool \<Rightarrow> ('w \<times> 'c batcher, string option) script" where
  "finalize_batch keccak256 M E block_number finalized_batch wait_for_verification =
     (let batch_bytes = rust_batch_to_vec (map fst finalized_batch);
          batch_data_comm = map (\<lambda>(_, data_comm, _). data_comm) finalized_batch in
      sbind (pure_go (merkle_build M (hash_data keccak256) (hash_new_parent keccak256) batch_data_comm)) (\<lambda>tree.
      sbind (world_call (event_stream E)) (\<lambda>r.
      case r of
        Some e \<Rightarrow> sret (Some e)
      | None \<Rightarrow>
          sbind (submit_batch E batch_bytes (merkle_root M tree)) (\<lambda>_.
          sbind (set_last_uploaded block_number) (\<lambda>_.
          if \<not> wait_for_verification then
            sbind (send_batch_inclusion_data_responses E M tree 0 finalized_batch) (\<lambda>_. sret None)
          else
            sbind (world_call (verified_events E)) (\<lambda>awaited.
            case map_option (\<lambda>events. await_batch_verified_event events (merkle_root M tree)) awaited of
              None \<Rightarrow> send_timeout_close E finalized_batch
            | Some _ \<Rightarrow>
                sbind (send_batch_inclusion_data_responses E M tree 0 finalized_batch) (\<lambda>_. sret None)))))))"

text \<open>The loop of one block, as long as batches are ready; \<open>None\<close> if it does not end.\<close>

partial_function (option) handle_new_block ::
  "(bytes \<Rightarrow> bytes32) \<Rightarrow> 't merkle_lib \<Rightarrow> ('w, 'c, 'tx, 'r) batcher_env \<Rightarrow> u64 \<Rightarrow>
   'w \<times> 'c batcher \<Rightarrow> (('w \<times> 'c batcher) \<times> string option go) option" where
  "handle_new_block keccak256 M E n s =
     (case is_batch_ready n (snd s) of
        (b, None) \<Rightarrow> Some ((fst s, b), Ret None)
      | (b, Some finalized_batch) \<Rightarrow>
          (case finalize_batch keccak256 M E n finalized_batch False (fst s, b) of
             (s, Ret None) \<Rightarrow> handle_new_block keccak256 M E n s
           | (s, r) \<Rightarrow> Some (s, r)))"

subsection \<open>The size of a batch\<close>

definition entries_size :: "rust_VerificationData list \<Rightarrow> nat" where
  "entries_size ds = sum_list (map (\<lambda>d. length (rust_entry_to_vec d)) ds)"

lemma entries_size_simps [simp]:
  "entries_size [] = 0"
  "entries_size (d # ds) = length (rust_entry_to_vec d) + entries_size ds"
  "entries_size (ds @ es) = entries_size ds + entries_size es"
  by (simp_all add: entries_size_def)

text \<open>The file of a batch has its brackets and commas beside the entries.\<close>

lemma length_commas_sum: "length (commas xs) = sum_list (map length xs) + (length xs - 1)"
  by (induction xs rule: commas.induct) simp_all

lemma length_rust_batch:
  "length (rust_batch_to_vec ds) = entries_size ds + (if ds = [] then 2 else length ds + 1)"
proof (cases ds)
  case (Cons d es)
  have "sum_list (map length (map json_print (map rust_entry_value ds))) = entries_size ds"
    by (simp add: entries_size_def rust_entry_to_vec_def comp_def)
  then show ?thesis using Cons by (simp only: rust_batch_to_vec_def json_print.simps list.size length_append length_commas_sum) simp
qed (simp add: rust_batch_to_vec_def)

lemma split_index_cases:
  assumes "acc \<le> limit"
  shows "acc + entries_size ds \<le> limit \<and> split_index limit idx acc ds = 0
    \<or> (\<exists>k<length ds. split_index limit idx acc ds = idx + k
         \<and> acc + entries_size (take k ds) \<le> limit \<and> limit < acc + entries_size (take (Suc k) ds))"
  using assms
proof (induction ds arbitrary: idx acc)
  case (Cons d ds)
  let ?acc = "acc + length (rust_entry_to_vec d)"
  show ?case
  proof (cases "limit < ?acc")
    case True
    then show ?thesis using Cons.prems by (intro disjI2 exI [of _ 0]) simp
  next
    case False
    then show ?thesis
      using Cons.IH [of ?acc "Suc idx"]
      by (auto simp: add.assoc)
  qed
qed simp

text \<open>What a batch is when one is taken.\<close>

definition oversized :: "'c batcher \<Rightarrow> bool" where
  "oversized b \<longleftrightarrow> max_batch_size b < length (rust_batch_to_vec (map fst (batch_queue b)))"

lemma is_batch_ready_cases:
  assumes "is_batch_ready n b = (b', Some fb)"
  obtains (whole) "\<not> oversized b" "fb = batch_queue b" "b' = b\<lparr>batch_queue := []\<rparr>" "2 \<le> length fb"
  | (none) "oversized b" "fb = []" "b' = b" "entries_size (map fst (batch_queue b)) \<le> max_batch_size b"
      "2 \<le> length (batch_queue b)"
  | (split) k where "oversized b" "k < length (batch_queue b)" "fb = take k (batch_queue b)"
      "b' = b\<lparr>batch_queue := drop k (batch_queue b)\<rparr>" "2 \<le> length (batch_queue b)"
      "entries_size (map fst (take k (batch_queue b))) \<le> max_batch_size b"
      "max_batch_size b < entries_size (map fst (take (Suc k) (batch_queue b)))"
proof (cases "oversized b")
  case False
  then show thesis
    using assms by (intro whole) (auto simp: is_batch_ready_def oversized_def Let_def split: if_splits)
next
  case True
  let ?ds = "map fst (batch_queue b)"
  let ?i = "split_index (max_batch_size b) 0 0 ?ds"
  have b': "b' = b\<lparr>batch_queue := drop ?i (batch_queue b)\<rparr>" "fb = take ?i (batch_queue b)"
      "2 \<le> length (batch_queue b)"
    using assms True by (auto simp: is_batch_ready_def oversized_def Let_def split: if_splits)
  show thesis
  proof (cases "entries_size ?ds \<le> max_batch_size b \<and> ?i = 0")
    case within: True
    then show thesis using True b' by (intro none) simp_all
  next
    case False
    then obtain k where "k < length ?ds" "?i = k" "entries_size (take k ?ds) \<le> max_batch_size b"
        "max_batch_size b < entries_size (take (Suc k) ?ds)"
      using split_index_cases [of 0 "max_batch_size b" ?ds 0] by auto
    then show thesis using True b' by (intro split) (simp_all add: take_map)
  qed
qed

lemma is_batch_ready_parts:
  assumes "is_batch_ready n b = (b', x)"
  shows "b' = b\<lparr>batch_queue := batch_queue b'\<rparr>"
    and "batch_queue b = (case x of None \<Rightarrow> [] | Some fb \<Rightarrow> fb) @ batch_queue b'"
  using assms by (auto simp: is_batch_ready_def Let_def split: if_splits)

subsection \<open>What the operations leave alone\<close>

text \<open>The parts of the batcher that never change.\<close>

definition same_limits :: "'c batcher \<Rightarrow> 'c batcher \<Rightarrow> bool" where
  "same_limits b b' \<longleftrightarrow> max_proof_size b' = max_proof_size b \<and> max_batch_size b' = max_batch_size b
     \<and> pre_verification_is_enabled b' = pre_verification_is_enabled b"

text \<open>A script that keeps the queue and the limits.\<close>

definition keeps_queue :: "('w \<times> 'c batcher, 'a) script \<Rightarrow> bool" where
  "keeps_queue m \<longleftrightarrow> (\<forall>w b. batch_queue (snd (fst (m (w, b)))) = batch_queue b
     \<and> same_limits b (snd (fst (m (w, b)))))"

named_theorems keeps

lemma keeps_sbind [keeps]:
  assumes "keeps_queue m" "\<And>x. keeps_queue (f x)"
  shows "keeps_queue (sbind m f)"
  unfolding keeps_queue_def
proof (intro allI)
  fix w b
  obtain w1 b1 r where m: "m (w, b) = ((w1, b1), r)" by (metis surj_pair)
  then have 1: "batch_queue b1 = batch_queue b" "same_limits b b1"
    using assms(1) unfolding keeps_queue_def by (metis fst_conv snd_conv)+
  show "batch_queue (snd (fst (sbind m f (w, b)))) = batch_queue b
      \<and> same_limits b (snd (fst (sbind m f (w, b))))"
  proof (cases r)
    case (Ret x)
    have "batch_queue (snd (fst (f x (w1, b1)))) = batch_queue b1
        \<and> same_limits b1 (snd (fst (f x (w1, b1))))"
      using assms(2) [of x] by (simp add: keeps_queue_def)
    then show ?thesis using 1 Ret m by (simp add: sbind_def same_limits_def)
  qed (use 1 m in \<open>simp_all add: sbind_def\<close>)
qed

lemma keeps_sret [keeps]: "keeps_queue (sret x)"
  by (simp add: keeps_queue_def sret_def same_limits_def)

lemma keeps_pure [keeps]: "keeps_queue (pure_go x)"
  by (simp add: keeps_queue_def pure_go_def same_limits_def)

lemma keeps_world_call [keeps]: "keeps_queue (world_call f)"
  by (simp add: keeps_queue_def world_call_def same_limits_def split: prod.splits)

lemma keeps_set_last [keeps]: "keeps_queue (set_last_uploaded n)"
  by (simp add: keeps_queue_def set_last_uploaded_def same_limits_def)

lemma keeps_responses [keeps]: "keeps_queue (send_batch_inclusion_data_responses E M tree i batch)"
  by (induction batch arbitrary: i) (auto intro!: keeps)

lemma keeps_submit [keeps]: "keeps_queue (submit_batch E file root)"
  by (auto simp: submit_batch_def intro!: keeps split: option.split)

lemma keeps_close [keeps]: "keeps_queue (send_timeout_close E batch)"
  by (induction batch) (auto intro!: keeps split: option.split ws_error.split)

lemma keeps_finalize: "keeps_queue (finalize_batch keccak256 M E n batch wait_for_verification)"
  by (auto simp: finalize_batch_def Let_def intro!: keeps split: option.split)

lemma finalize_keeps:
  assumes "finalize_batch keccak256 M E n batch wait_for_verification (w, b) = ((w', b'), r)"
  shows "batch_queue b' = batch_queue b" "same_limits b b'"
  using assms keeps_finalize [of keccak256 M E n batch wait_for_verification]
  by (simp_all add: keeps_queue_def, metis fst_conv snd_conv)+

subsection \<open>What a message does\<close>

text \<open>What a client's proof passed to get into the queue.\<close>

definition admitted :: "(bytes \<Rightarrow> bytes32) \<Rightarrow> ('p, 'w, 'k) batcher_verifiers \<Rightarrow>
    (string \<Rightarrow> rust_VerificationData option) \<Rightarrow> 'c batcher \<Rightarrow> 'c batch_entry \<Rightarrow> bool" where
  "admitted keccak256 B from_str b entry \<longleftrightarrow>
     (\<exists>text. from_str text = Some (fst entry)) \<and> fst (snd entry) = commitment_of keccak256 (fst entry)
     \<and> length (rs_proof (fst entry)) \<le> max_proof_size b
     \<and> (pre_verification_is_enabled b \<longrightarrow> zk_verify B (fst entry) = Ret True)"

lemma admitted_same_limits:
  "same_limits b b' \<Longrightarrow> admitted keccak256 B from_str b' = admitted keccak256 B from_str b"
  by (simp add: fun_eq_iff admitted_def same_limits_def)

lemma same_limits_trans: "same_limits a b \<Longrightarrow> same_limits b c \<Longrightarrow> same_limits a c"
  by (simp add: same_limits_def)

lemma handle_message_cases:
  assumes "handle_message keccak256 B from_str text sink b = Ret (b', r)"
  obtains (refused) "b' = b" "r = Some ''HandshakeIncomplete''"
  | (added) d where "b' = b\<lparr>batch_queue := batch_queue b @ [(d, commitment_of keccak256 d, sink)]\<rparr>"
      "admitted keccak256 B from_str b (d, commitment_of keccak256 d, sink)" "r = None"
proof -
  obtain d where d: "from_str text = Some d"
    using assms by (cases "from_str text") (simp_all add: handle_message_def)
  show thesis
  proof (cases "length (rs_proof d) \<le> max_proof_size b")
    case False
    then show thesis using assms d by (intro refused) (simp_all add: handle_message_def)
  next
    case True
    then obtain v where v: "(if pre_verification_is_enabled b then zk_verify B d else Ret True) = Ret v"
      "Ret (b', r) = (if \<not> v then Ret (b, Some ''HandshakeIncomplete'')
         else Ret (add_to_batch keccak256 d sink b, None))"
      using assms d by (auto simp: handle_message_def go_simps)
    show thesis
    proof (cases v)
      case False
      then show thesis using v by (intro refused) simp_all
    next
      case True
      then show thesis
        using v d \<open>length (rs_proof d) \<le> max_proof_size b\<close>
        by (intro added [of d]) (auto simp: add_to_batch_def admitted_def)
    qed
  qed
qed

subsection \<open>An entry that is larger than a batch may be\<close>

lemma entries_size_take_mono: "k \<le> l \<Longrightarrow> entries_size (take k ds) \<le> entries_size (take l ds)"
proof -
  assume "k \<le> l"
  then obtain m where "l = k + m" using le_Suc_ex by blast
  then show ?thesis by (simp add: take_add)
qed

lemma too_large_head:
  assumes "batch_queue b = (d, c, sink) # rest" "max_batch_size b < length (rust_entry_to_vec d)"
    and "is_batch_ready n b = (b', Some fb)"
  shows "fb = [] \<and> b' = b"
proof (cases rule: is_batch_ready_cases [OF assms(3)])
  case 1
  have "length (rust_entry_to_vec d) \<le> length (rust_batch_to_vec (map fst (batch_queue b)))"
    using assms(1) by (simp add: length_rust_batch)
  then show ?thesis using 1 assms(2) by (simp add: oversized_def)
next
  case (3 k)
  have "k = 0"
  proof (rule ccontr)
    assume "k \<noteq> 0"
    then have "length (rust_entry_to_vec d) \<le> entries_size (map fst (take k (batch_queue b)))"
      using assms(1) by (cases k) simp_all
    then show False using 3(6) assms(2) by simp
  qed
  then show ?thesis using 3 by simp
qed simp

subsection \<open>The loop of a block\<close>

text \<open>If the library refuses a tree with no leaf, every round but the last takes something from
  the queue, so the loop ends.\<close>

lemma finalize_empty:
  assumes "\<And>h p. \<not> is_ret (merkle_build M h p [])"
  shows "snd (finalize_batch keccak256 M E n [] wait_for_verification s) \<noteq> Ret r"
  using assms [of "hash_data keccak256" "hash_new_parent keccak256"]
  by (cases "merkle_build M (hash_data keccak256) (hash_new_parent keccak256) []")
    (simp_all add: finalize_batch_def Let_def sbind_def pure_go_def)

lemma new_block_ends:
  assumes "\<And>h p. \<not> is_ret (merkle_build M h p [])"
  shows "\<exists>s' r. handle_new_block keccak256 M E n (w, b) = Some (s', r)
    \<and> (r = Ret None \<longrightarrow> snd (is_batch_ready n (snd s')) = None)"
proof (induction "length (batch_queue b)" arbitrary: w b rule: less_induct)
  case less
  show ?case
  proof (cases "is_batch_ready n b")
    case (Pair b1 x)
    show ?thesis
    proof (cases x)
      case None
      then have "b1 = b" using Pair by (auto simp: is_batch_ready_def Let_def split: if_splits)
      then show ?thesis using Pair None by (subst handle_new_block.simps) simp
    next
      case (Some batch)
      obtain w2 b2 r where f: "finalize_batch keccak256 M E n batch False (w, b1) = ((w2, b2), r)"
        by (metis surj_pair)
      show ?thesis
      proof (cases "r = Ret None")
        case False
        then show ?thesis using Pair Some f
          by (subst handle_new_block.simps) (auto split: go.split option.split)
      next
        case True
        then have "batch \<noteq> []"
          using finalize_empty [OF assms, of keccak256 E n False "(w, b1)" None] f by auto
        then have "length (batch_queue b2) < length (batch_queue b)"
          using is_batch_ready_parts(2) [OF Pair] finalize_keeps(1) [OF f] Some by simp
        from less [OF this] show ?thesis
          using Pair Some f True by (subst handle_new_block.simps) simp
      qed
    qed
  qed
qed

text \<open>Otherwise the loop of a blocked queue goes on, submitting empty batches.\<close>

definition stuck :: "'c batcher \<Rightarrow> bool" where
  "stuck b \<longleftrightarrow> 2 \<le> length (batch_queue b) \<and> min_batch_len b \<le> length (batch_queue b)
     \<and> max_batch_size b < length (rust_entry_to_vec (fst (hd (batch_queue b))))"

lemma stuck_ready:
  assumes "stuck b"
  shows "is_batch_ready n b = (b, Some [])"
proof -
  obtain d c sink rest where q: "batch_queue b = (d, c, sink) # rest"
    using assms by (cases "batch_queue b") (auto simp: stuck_def)
  obtain b' x where r: "is_batch_ready n b = (b', x)" by fastforce
  have "x \<noteq> None" using assms r by (auto simp: stuck_def is_batch_ready_def Let_def split: if_splits)
  then obtain fb where "x = Some fb" by blast
  then show ?thesis using too_large_head [OF q] assms q r by (auto simp: stuck_def)
qed

lemma finalize_empty_loops:
  assumes tree: "\<And>h p. merkle_build M h p [] = Ret tree"
    and stream: "\<And>w. snd (event_stream E w) = None"
    and upload: "\<And>k name file w. snd (put_object E k name file w) = None"
  shows "\<exists>w'. finalize_batch keccak256 M E n [] False (w, b)
    = ((w', b\<lparr>last_uploaded_batch_block := n\<rparr>), Ret None)"
proof -
  obtain w1 where w1: "event_stream E w = (w1, None)" using stream [of w] by (metis prod.collapse)
  let ?root = "merkle_root M tree"
  obtain w2 where w2: "put_object E S3_BUCKET_NAME (batch_file_name ?root) (rust_batch_to_vec []) w1 = (w2, None)"
    using upload by (metis prod.collapse)
  obtain w3 r where w3: "create_new_task E ?root (batch_data_pointer ?root) w2 = (w3, r)" by fastforce
  show ?thesis
    by (simp add: finalize_batch_def tree pure_go_def sbind_def world_call_def w1 submit_batch_def w2 w3
        sret_def set_last_uploaded_def)
qed

lemma new_block_loops:
  assumes tree: "\<And>h p. merkle_build M h p [] = Ret tree"
    and stream: "\<And>w. snd (event_stream E w) = None"
    and upload: "\<And>k name file w. snd (put_object E k name file w) = None"
    and returns: "handle_new_block keccak256 M E n s = Some y"
  shows "\<not> stuck (snd s)"
proof -
  have "M = M \<longrightarrow> E = E \<longrightarrow> \<not> stuck (snd s)"
  proof (rule handle_new_block.raw_induct [where P = "\<lambda>keccak256 M' E' n s y. M' = M \<longrightarrow> E' = E \<longrightarrow> \<not> stuck (snd s)",
      OF _ returns])
    fix f keccak M' E' n s y
    assume IH: "\<And>keccak M' E' n s y. f keccak M' E' n s = Some y \<Longrightarrow> M' = M \<longrightarrow> E' = E \<longrightarrow> \<not> stuck (snd s)"
      and round: "(case is_batch_ready n (snd s) of
          (b, None) \<Rightarrow> Some ((fst s, b), Ret None)
        | (b, Some finalized_batch) \<Rightarrow>
            (case finalize_batch keccak M' E' n finalized_batch False (fst s, b) of
               (s, Ret None) \<Rightarrow> f keccak M' E' n s
             | (s, r) \<Rightarrow> Some (s, r))) = Some y"
    show "M' = M \<longrightarrow> E' = E \<longrightarrow> \<not> stuck (snd s)"
    proof (intro impI notI)
      assume "M' = M" "E' = E" and st: "stuck (snd s)"
      obtain w' where "finalize_batch keccak M E n [] False (fst s, snd s)
          = ((w', (snd s)\<lparr>last_uploaded_batch_block := n\<rparr>), Ret None)"
        using finalize_empty_loops [OF tree stream upload] by blast
      then have "f keccak M E n (w', (snd s)\<lparr>last_uploaded_batch_block := n\<rparr>) = Some y"
        using round stuck_ready [OF st, of n] \<open>M' = M\<close> \<open>E' = E\<close> by simp
      then have "\<not> stuck ((snd s)\<lparr>last_uploaded_batch_block := n\<rparr>)" using IH by fastforce
      then show False using st by (simp add: stuck_def)
    qed
  qed
  then show ?thesis by simp
qed

subsection \<open>Properties\<close>

text \<open>A small entry that the example verifiers accept, a Merkle tree that is the list of its leaves, and a world that only collects
  the messages it is sent, for the witnesses.\<close>

definition small_entry :: rust_VerificationData where
  "small_entry = \<lparr>proving_system = Groth16Bn254, rs_proof = [7], pub_input = Some [7],
     verification_key = Some [], vm_program_code = None, proof_generator_addr = replicate 20 9\<rparr>"

definition leaf_lib :: "bytes32 list merkle_lib" where
  "leaf_lib = \<lparr>merkle_build = \<lambda>h p leaves. if leaves = [] then Panic else Ret (map h leaves),
     merkle_root = concat, get_proof_by_pos = \<lambda>t i. if i < length t then Some t else None\<rparr>"

definition sum_hash :: "bytes \<Rightarrow> bytes32" where
  "sum_hash b = [sum_list b]"

definition collecting_env :: "((nat \<times> ws_message) list, nat, unit, unit) batcher_env" where
  "collecting_env = \<lparr>event_stream = \<lambda>w. (w, None), put_object = \<lambda>k f b w. (w, None),
     create_new_task_send = \<lambda>r p w. (w, Inr ()), await_pending = \<lambda>t w. (w, Inr (Some ())),
     ws_send = \<lambda>c m w. (w @ [(c, m)], None), verified_events = \<lambda>w. (w, Some [])\<rparr>"

definition small_batcher :: "nat \<Rightarrow> nat \<Rightarrow> nat batcher" where
  "small_batcher len limit =
     (Batcher_new \<lparr>block_interval = 3, batch_size_interval = 2, config_max_proof_size = 4,
        config_max_batch_size = limit, config_pre_verification_is_enabled = False\<rparr> 7)
     \<lparr>batch_queue := map (\<lambda>i. (small_entry, commitment_of sum_hash small_entry, i)) [0..<len]\<rparr>"

lemma small_entry_size: "length (rust_entry_to_vec small_entry) = 174"
  by (simp add: u8_text_def Let_def rust_entry_to_vec_def small_entry_def rust_entry_value_def vec_value_def
      option_value_def ProvingSystemIdToString_def ps_defs print_string_def hex_encode_def hex_byte_def
      length_concat comp_def sum_list_triv sum_list_replicate)

lemma leaf_lib_refuses: "\<not> is_ret (merkle_build leaf_lib h p [])"
  by (simp add: leaf_lib_def)

text \<open>C13: What a batch is when one is taken: a front part of the queue, which keeps the rest, and
  its file is at most the configured size plus a byte per entry and one more, because the split
  counts the entries and not the commas and brackets between them; the operators refuse a file
  that is over the same limit. The batch is empty exactly when the queue's text is too long and
  either its first entry alone is, or its entries are not: the loop that looks for the split then
  ends with index 0.\<close>

theorem batch_size_and_gaps:
  assumes "is_batch_ready n b = (b', Some fb)"
  shows "batch_queue b = fb @ batch_queue b'
    \<and> (fb = [] \<or> length (rust_batch_to_vec (map fst fb)) \<le> max_batch_size b + length fb + 1)
    \<and> (fb = [] \<longleftrightarrow> max_batch_size b < length (rust_batch_to_vec (map fst (batch_queue b)))
         \<and> (max_batch_size b < length (rust_entry_to_vec (fst (hd (batch_queue b))))
            \<or> entries_size (map fst (batch_queue b)) \<le> max_batch_size b))"
  using is_batch_ready_parts(2) [OF assms]
proof (cases rule: is_batch_ready_cases [OF assms])
  case 1
  then show ?thesis by (auto simp: oversized_def)
next
  case 2
  then show ?thesis by (auto simp: oversized_def)
next
  case (3 k)
  obtain x rest where q: "batch_queue b = x # rest" using 3(5) by (cases "batch_queue b") auto
  have "entries_size (map fst (take (Suc k) (batch_queue b))) \<le> entries_size (map fst (batch_queue b))"
    using entries_size_take_mono [of "Suc k" "length (batch_queue b)" "map fst (batch_queue b)"] 3(2)
    by (simp add: take_map)
  moreover have "k = 0 \<longleftrightarrow> max_batch_size b < length (rust_entry_to_vec (fst x))"
    using 3(6,7) q by (cases k) auto
  ultimately show ?thesis
    using 3 q by (auto simp: oversized_def length_rust_batch)
qed

theorem batch_size_and_gaps_witness:
  "snd (is_batch_ready 0 (small_batcher 2 350)) = Some []
   \<and> (\<exists>fb. snd (is_batch_ready 0 (small_batcher 3 348)) = Some fb \<and> fb \<noteq> []
        \<and> length (rust_batch_to_vec (map fst fb)) \<le> 348 + length fb + 1)"
proof -
  have q: "batch_queue (small_batcher c l)
      = map (\<lambda>i. (small_entry, commitment_of sum_hash small_entry, i)) [0..<c]"
    "min_batch_len (small_batcher c l) = 2" "max_batch_size (small_batcher c l) = l" for c l
    by (simp_all add: small_batcher_def Batcher_new_def)
  have sizes: "entries_size (map fst (batch_queue (small_batcher c l))) = 174 * c"
    "length (batch_queue (small_batcher c l)) = c" for c l
    by (simp_all add: q entries_size_def comp_def small_entry_size sum_list_triv)
  have hd: "0 < c \<Longrightarrow> fst (hd (batch_queue (small_batcher c l))) = small_entry" for c l
    by (simp add: q hd_map)
  have ready: "\<exists>b' fb. is_batch_ready 0 (small_batcher c l) = (b', Some fb)" if "2 \<le> c" for c l
    using that by (auto simp: is_batch_ready_def Let_def q)
  obtain b1 f1 where r1: "is_batch_ready 0 (small_batcher 2 350) = (b1, Some f1)" using ready [of 2 350] by auto
  obtain b2 f2 where r2: "is_batch_ready 0 (small_batcher 3 348) = (b2, Some f2)" using ready [of 3 348] by auto
  have "f1 = []"
    using batch_size_and_gaps [OF r1, THEN conjunct2, THEN conjunct2] sizes(1) [of 2 350] sizes(2) [of 2 350]
    by (auto simp: q(3) length_rust_batch)
  moreover have "f2 \<noteq> []"
    using batch_size_and_gaps [OF r2, THEN conjunct2, THEN conjunct2] sizes(1) [of 3 348] hd [of 3 348]
    by (simp add: q(3) small_entry_size)
  moreover have "f2 = [] \<or> length (rust_batch_to_vec (map fst f2)) \<le> 348 + length f2 + 1"
    using batch_size_and_gaps [OF r2, THEN conjunct2, THEN conjunct1] by (simp only: q(3))
  ultimately show ?thesis using r1 r2 by simp
qed



end
