(* ===== verification/Batcher_Run.thy ===== *)
theory Batcher_Run
  imports Batcher "HOL-Library.Multiset"
begin

text \<open>
  The batcher as it runs: the messages of its connections and the tasks of the chain's blocks
  (\<open>listen_connections\<close>, \<open>handle_connection\<close>, \<open>listen_new_blocks\<close> in
  \<open>batcher/aligned-batcher/src/lib.rs\<close>) as a step relation over the operations of
  \<open>Batcher\<close>, with what became of every proof.
\<close>

subsection \<open>Interleaved connections and blocks\<close>

text \<open>
  A task of a block is about to ask for a batch (\<open>Checking\<close>), has taken one (\<open>Finalizing\<close>),
  or is over. Beside the batcher and the world, the state of a run records the entries that were
  queued, in order, those of the batches that were finalized with no error, and those of the
  batches whose finalization failed.
\<close>

datatype 'c block_task = Checking u64 | Finalizing u64 "'c batch_entry list" | Over

record ('w, 'c) batcher_run =
  run_world :: 'w
  run_batcher :: "'c batcher"
  block_tasks :: "'c block_task list"
  queued :: "'c batch_entry list"
  taken :: "'c batch_entry list"
  finalized :: "'c batch_entry list"
  dropped :: "'c batch_entry list"

definition batcher_start :: "BatcherConfigFromYaml \<Rightarrow> u64 \<Rightarrow> 'w \<Rightarrow> ('w, 'c) batcher_run" where
  "batcher_start config block w =
     \<lparr>run_world = w, run_batcher = Batcher_new config block, block_tasks = [], queued = [], taken = [],
      finalized = [], dropped = []\<rparr>"

inductive batcher_step ::
  "(bytes \<Rightarrow> bytes32) \<Rightarrow> ('p, 'q, 'k) batcher_verifiers \<Rightarrow> (string \<Rightarrow> rust_VerificationData option) \<Rightarrow>
   't merkle_lib \<Rightarrow> ('w, 'c, 'tx, 'r) batcher_env \<Rightarrow> ('w, 'c) batcher_run \<Rightarrow> ('w, 'c) batcher_run \<Rightarrow> bool"
  for keccak256 B from_str M E where
  message: "handle_message keccak256 B from_str text sink (run_batcher s) = Ret (b, r) \<Longrightarrow>
    batcher_step keccak256 B from_str M E s
      (s\<lparr>run_batcher := b,
         queued := queued s @ drop (length (batch_queue (run_batcher s))) (batch_queue b)\<rparr>)"
| message_panic: "handle_message keccak256 B from_str text sink (run_batcher s) = Panic \<Longrightarrow>
    batcher_step keccak256 B from_str M E s s"
| block: "batcher_step keccak256 B from_str M E s (s\<lparr>block_tasks := block_tasks s @ [Checking n]\<rparr>)"
| not_ready: "i < length (block_tasks s) \<Longrightarrow> block_tasks s ! i = Checking n \<Longrightarrow>
    is_batch_ready n (run_batcher s) = (b, None) \<Longrightarrow>
    batcher_step keccak256 B from_str M E s
      (s\<lparr>run_batcher := b, block_tasks := (block_tasks s)[i := Over]\<rparr>)"
| ready: "i < length (block_tasks s) \<Longrightarrow> block_tasks s ! i = Checking n \<Longrightarrow>
    is_batch_ready n (run_batcher s) = (b, Some batch) \<Longrightarrow>
    batcher_step keccak256 B from_str M E s
      (s\<lparr>run_batcher := b, block_tasks := (block_tasks s)[i := Finalizing n batch],
         taken := taken s @ batch\<rparr>)"
| finalize: "i < length (block_tasks s) \<Longrightarrow> block_tasks s ! i = Finalizing n batch \<Longrightarrow>
    finalize_batch keccak256 M E n batch False (run_world s, run_batcher s) = ((w, b), Ret None) \<Longrightarrow>
    batcher_step keccak256 B from_str M E s
      (s\<lparr>run_world := w, run_batcher := b, block_tasks := (block_tasks s)[i := Checking n],
         finalized := finalized s @ batch\<rparr>)"
| finalize_failed: "i < length (block_tasks s) \<Longrightarrow> block_tasks s ! i = Finalizing n batch \<Longrightarrow>
    finalize_batch keccak256 M E n batch False (run_world s, run_batcher s) = ((w, b), r) \<Longrightarrow>
    r \<noteq> Ret None \<Longrightarrow>
    batcher_step keccak256 B from_str M E s
      (s\<lparr>run_world := w, run_batcher := b, block_tasks := (block_tasks s)[i := Over],
         dropped := dropped s @ batch\<rparr>)"

inductive_cases batcher_stepE: "batcher_step keccak256 B from_str M E s s'"

subsection \<open>The invariant of a run\<close>

fun task_batch :: "'c block_task \<Rightarrow> 'c batch_entry list" where
  "task_batch (Finalizing n batch) = batch"
| "task_batch _ = []"

definition in_progress :: "'c block_task list \<Rightarrow> 'c batch_entry multiset" where
  "in_progress ts = mset (concat (map task_batch ts))"

lemma in_progress_snoc [simp]: "in_progress (ts @ [t]) = in_progress ts + mset (task_batch t)"
  by (simp add: in_progress_def)

lemma in_progress_update:
  "i < length ts \<Longrightarrow> in_progress (ts[i := t]) + mset (task_batch (ts ! i)) = in_progress ts + mset (task_batch t)"
proof (induction ts arbitrary: i)
  case (Cons u us)
  then show ?case
    using Cons.IH [of "i - 1"] by (cases i) (auto simp: in_progress_def ac_simps)
qed simp

definition batcher_inv :: "(bytes \<Rightarrow> bytes32) \<Rightarrow> ('p, 'q, 'k) batcher_verifiers \<Rightarrow>
    (string \<Rightarrow> rust_VerificationData option) \<Rightarrow> 'c batcher \<Rightarrow> ('w, 'c) batcher_run \<Rightarrow> bool" where
  "batcher_inv keccak256 B from_str b0 s \<longleftrightarrow>
     same_limits b0 (run_batcher s) \<and> queued s = taken s @ batch_queue (run_batcher s)
     \<and> mset (taken s) = in_progress (block_tasks s) + mset (finalized s) + mset (dropped s)
     \<and> (\<forall>entry\<in>set (queued s). admitted keccak256 B from_str b0 entry)"

lemma batcher_inv_start: "batcher_inv keccak256 B from_str (Batcher_new config block) (batcher_start config block w)"
  by (simp add: batcher_inv_def batcher_start_def Batcher_new_def same_limits_def in_progress_def)

lemma batcher_inv_task:
  assumes i: "i < length (block_tasks s)"
    and "mset (taken s) = in_progress (block_tasks s) + mset (finalized s) + mset (dropped s)"
    and "mset tk + mset (task_batch (block_tasks s ! i)) + mset (finalized s) + mset (dropped s)
       = mset (taken s) + mset (task_batch t) + mset fin + mset dr"
  shows "mset tk = in_progress ((block_tasks s)[i := t]) + mset fin + mset dr"
proof -
  let ?ti = "mset (task_batch (block_tasks s ! i))" and ?A = "in_progress ((block_tasks s)[i := t])"
  have "mset tk + ?ti + (mset (finalized s) + mset (dropped s))
      = (in_progress (block_tasks s) + mset (task_batch t)) + mset fin + mset dr
        + (mset (finalized s) + mset (dropped s))"
    using assms(2,3) by (simp add: ac_simps)
  also have "\<dots> = (?A + ?ti) + mset fin + mset dr + (mset (finalized s) + mset (dropped s))"
    using in_progress_update [OF i, of t] by simp
  finally have "mset tk + ?ti = (?A + mset fin + mset dr) + ?ti"
    by (simp add: ac_simps)
  then show ?thesis by simp
qed

lemma batcher_inv_step:
  assumes inv: "batcher_inv keccak256 B from_str b0 s" and step: "batcher_step keccak256 B from_str M E s s'"
  shows "batcher_inv keccak256 B from_str b0 s'"
  using step
proof cases
  case (message msg sink b r)
  have l: "same_limits b0 (run_batcher s)" using inv by (simp add: batcher_inv_def)
  show ?thesis
  proof (cases rule: handle_message_cases [OF message(2)])
    case 1
    then show ?thesis using inv message(1) by (simp add: batcher_inv_def)
  next
    case (2 d)
    then show ?thesis
      using inv message(1) admitted_same_limits [OF l, of keccak256 B from_str]
      by (auto simp: batcher_inv_def same_limits_def)
  qed
next
  case (block n)
  then show ?thesis using inv by (simp add: batcher_inv_def)
next
  case (not_ready i n b)
  have "b = run_batcher s" using not_ready(4) by (auto simp: is_batch_ready_def Let_def split: if_splits)
  then show ?thesis
    using inv not_ready batcher_inv_task [of i s "taken s" Over "finalized s" "dropped s"]
    by (simp add: batcher_inv_def)
next
  case (ready i n b batch)
  note p = is_batch_ready_parts [OF ready(4)]
  have l: "same_limits (run_batcher s) b" by (subst p(1)) (simp add: same_limits_def)
  have "mset (taken s @ batch) = in_progress ((block_tasks s)[i := Finalizing n batch])
      + mset (finalized s) + mset (dropped s)"
    using inv ready by (intro batcher_inv_task) (simp_all add: batcher_inv_def)
  then show ?thesis
    using inv ready(1) p(2) same_limits_trans [OF _ l, of b0] by (simp add: batcher_inv_def)
next
  case (finalize i n batch w b)
  note k = finalize_keeps [OF finalize(4)]
  have "mset (taken s) = in_progress ((block_tasks s)[i := Checking n])
      + mset (finalized s @ batch) + mset (dropped s)"
    using inv finalize by (intro batcher_inv_task) (simp_all add: batcher_inv_def)
  then show ?thesis
    using inv finalize(1) k same_limits_trans [OF _ k(2), of b0] by (simp add: batcher_inv_def)
next
  case (finalize_failed i n batch w b r)
  note k = finalize_keeps [OF finalize_failed(4)]
  have "mset (taken s) = in_progress ((block_tasks s)[i := Over])
      + mset (finalized s) + mset (dropped s @ batch)"
    using inv finalize_failed by (intro batcher_inv_task) (simp_all add: batcher_inv_def)
  then show ?thesis
    using inv finalize_failed(1) k same_limits_trans [OF _ k(2), of b0] by (simp add: batcher_inv_def)
qed (use inv in \<open>simp\<close>)

abbreviation batcher_reaches where
  "batcher_reaches keccak256 B from_str M E s s' \<equiv> (batcher_step keccak256 B from_str M E)\<^sup>*\<^sup>* s s'"

lemma batcher_reaches_inv:
  "batcher_reaches keccak256 B from_str M E s s' \<Longrightarrow> batcher_inv keccak256 B from_str b0 s \<Longrightarrow>
   batcher_inv keccak256 B from_str b0 s'"
  by (induction rule: rtranclp_induct) (auto intro: batcher_inv_step)

subsection \<open>A queue that is blocked\<close>

text \<open>Nothing but the queue's tail has changed, and no batch with an entry is being finalized.\<close>

definition blocked_since :: "('w, 'c) batcher_run \<Rightarrow> ('w, 'c) batcher_run \<Rightarrow> bool" where
  "blocked_since s s' \<longleftrightarrow> same_limits (run_batcher s) (run_batcher s')
     \<and> (\<exists>more. batch_queue (run_batcher s') = batch_queue (run_batcher s) @ more)
     \<and> taken s' = taken s \<and> finalized s' = finalized s \<and> dropped s' = dropped s
     \<and> (\<forall>t\<in>set (block_tasks s'). task_batch t = [])"

lemma blocked_task:
  "(\<forall>t\<in>set ts. task_batch t = []) \<Longrightarrow> task_batch u = [] \<Longrightarrow> \<forall>t\<in>set (ts[i := u]). task_batch t = []"
  using set_update_subset_insert [of ts i u] by blast

lemma blocked_step:
  assumes inv: "blocked_since s t" and step: "batcher_step keccak256 B from_str M E t u"
    and q: "batch_queue (run_batcher s) = (d, c, sink) # rest"
    and large: "max_batch_size (run_batcher s) < length (rust_entry_to_vec d)"
  shows "blocked_since s u"
proof -
  have idle: "\<forall>t\<in>set (block_tasks t). task_batch t = []" using inv by (simp add: blocked_since_def)
  obtain more where head: "batch_queue (run_batcher t) = (d, c, sink) # rest @ more"
    and large': "max_batch_size (run_batcher t) < length (rust_entry_to_vec d)"
    using inv q large by (auto simp: blocked_since_def same_limits_def)
  show ?thesis
    using step
  proof cases
    case (message msg sink b r)
    show ?thesis
      by (cases rule: handle_message_cases [OF message(2)])
        (use inv message(1) in \<open>auto simp: blocked_since_def same_limits_def\<close>)
  next
    case (block n)
    then show ?thesis using inv by (simp add: blocked_since_def)
  next
    case (not_ready i n b)
    have "b = run_batcher t" using not_ready(4) by (auto simp: is_batch_ready_def Let_def split: if_splits)
    then show ?thesis using inv not_ready(1) blocked_task [OF idle, of Over i] by (simp add: blocked_since_def)
  next
    case (ready i n b batch)
    have "batch = [] \<and> b = run_batcher t" using too_large_head [OF head large' ready(4)] .
    then show ?thesis
      using inv ready(1) blocked_task [OF idle, of "Finalizing n []" i] by (simp add: blocked_since_def)
  next
    case (finalize i n batch w b)
    note k = finalize_keeps [OF finalize(4)]
    have "batch = []" using idle finalize(2,3) by (metis nth_mem task_batch.simps(1))
    then show ?thesis
      using inv finalize(1) k same_limits_trans [OF _ k(2)] blocked_task [OF idle, of "Checking n" i]
      by (simp add: blocked_since_def)
  next
    case (finalize_failed i n batch w b r)
    note k = finalize_keeps [OF finalize_failed(4)]
    have "batch = []" using idle finalize_failed(2,3) by (metis nth_mem task_batch.simps(1))
    then show ?thesis
      using inv finalize_failed(1) k same_limits_trans [OF _ k(2)] blocked_task [OF idle, of Over i]
      by (simp add: blocked_since_def)
  qed (use inv in \<open>simp\<close>)
qed

lemma blocked_for_ever:
  assumes "batcher_reaches keccak256 B from_str M E s s'"
    and "batch_queue (run_batcher s) = (d, c, sink) # rest"
    and "max_batch_size (run_batcher s) < length (rust_entry_to_vec d)"
    and "\<forall>t\<in>set (block_tasks s). task_batch t = []"
  shows "blocked_since s s'"
  using assms(1)
proof (induction rule: rtranclp_induct)
  case base
  then show ?case using assms(4) by (simp add: blocked_since_def same_limits_def)
next
  case (step t u)
  then show ?case using blocked_step [OF _ _ assms(2,3)] by blast
qed

subsection \<open>Properties\<close>

text \<open>A run for the witnesses: two messages, a block, and the batch of both.\<close>

definition small_config :: "nat \<Rightarrow> BatcherConfigFromYaml" where
  "small_config limit = \<lparr>block_interval = 3, batch_size_interval = 2, config_max_proof_size = 4,
     config_max_batch_size = limit, config_pre_verification_is_enabled = True\<rparr>"

abbreviation small_step where
  "small_step \<equiv> batcher_step sum_hash example_batcher_verifiers (\<lambda>t. Some small_entry) leaf_lib collecting_env"

definition small_queue :: "nat list \<Rightarrow> nat batch_entry list" where
  "small_queue sinks = map (\<lambda>i. (small_entry, commitment_of sum_hash small_entry, i)) sinks"

definition small_run :: "nat \<Rightarrow> nat list \<Rightarrow> ((nat \<times> ws_message) list, nat) batcher_run" where
  "small_run limit sinks = (batcher_start (small_config limit) 7 [])
     \<lparr>run_batcher := (Batcher_new (small_config limit) 7)\<lparr>batch_queue := small_queue sinks\<rparr>,
      queued := small_queue sinks\<rparr>"

lemma small_entry_verifies: "zk_verify example_batcher_verifiers small_entry = Ret True"
proof -
  have "batcher_VerifyGroth16ProofBN254 echo_gnark (list_ref_of [7]) (list_ref_of [7]) (list_ref_of [])
      = Ret True"
    using batcher_functions [of "[7]" "[7]" "[]" echo_gnark echo_gnark]
    by (simp add: Let_def verifyGroth16ProofBN254_def verifyGroth16Proof_def echo_gnark_def or_false_def)
  then show ?thesis
    by (simp add: zk_verify_def small_entry_def ps_defs verify_gnark_def example_batcher_verifiers_def)
qed

lemma small_message: "small_step (small_run limit sinks) (small_run limit (sinks @ [i]))"
proof -
  have m: "handle_message sum_hash example_batcher_verifiers (\<lambda>t. Some small_entry) [] i
      (run_batcher (small_run limit sinks))
    = Ret (run_batcher (small_run limit (sinks @ [i])), None)"
    by (simp add: handle_message_def small_run_def small_config_def Batcher_new_def add_to_batch_def
        small_queue_def small_entry_verifies) (simp add: small_entry_def)
  have "small_run limit (sinks @ [i]) = (small_run limit sinks)
      \<lparr>run_batcher := run_batcher (small_run limit (sinks @ [i])),
       queued := queued (small_run limit sinks) @ drop (length (batch_queue (run_batcher (small_run limit sinks))))
         (batch_queue (run_batcher (small_run limit (sinks @ [i]))))\<rparr>"
    by (simp add: small_run_def small_queue_def)
  then show ?thesis using batcher_step.message [OF m] by simp
qed

lemma small_start: "small_run limit [] = batcher_start (small_config limit) 7 []"
  by (simp add: small_run_def small_queue_def batcher_start_def Batcher_new_def)

lemma small_reaches:
  "batcher_reaches sum_hash example_batcher_verifiers (\<lambda>t. Some small_entry) leaf_lib collecting_env
     (batcher_start (small_config limit) 7 []) (small_run limit [0, 1])"
proof -
  have 1: "small_step (small_run limit []) (small_run limit [0])"
    and 2: "small_step (small_run limit [0]) (small_run limit [0, 1])"
    using small_message [of limit "[]" 0] small_message [of limit "[0]" 1] by simp_all
  have "small_step\<^sup>*\<^sup>* (small_run limit []) (small_run limit [0])" by (rule r_into_rtranclp) (rule 1)
  then have "small_step\<^sup>*\<^sup>* (small_run limit []) (small_run limit [0, 1])"
    by (rule rtranclp.rtrancl_into_rtrancl) (rule 2)
  then show ?thesis by (simp only: small_start)
qed

text \<open>With room for one entry in a batch, the first of the two is taken at the next block.\<close>

definition small_taken :: "((nat \<times> ws_message) list, nat) batcher_run" where
  "small_taken = (small_run 174 [0, 1])
     \<lparr>run_batcher := (run_batcher (small_run 174 [0, 1]))\<lparr>batch_queue := small_queue [1]\<rparr>,
      block_tasks := [Finalizing 9 (small_queue [0])], taken := small_queue [0]\<rparr>"

lemma small_taken_reached:
  "batcher_reaches sum_hash example_batcher_verifiers (\<lambda>t. Some small_entry) leaf_lib collecting_env
     (batcher_start (small_config 174) 7 []) small_taken"
proof -
  let ?s = "small_run 174 [0, 1]"
  let ?t = "?s\<lparr>block_tasks := [Checking 9]\<rparr>"
  have "small_step ?s (?s\<lparr>block_tasks := block_tasks ?s @ [Checking 9]\<rparr>)" by (rule batcher_step.block)
  then have 1: "small_step ?s ?t" by (simp add: small_run_def batcher_start_def)
  have "is_batch_ready 9 (run_batcher ?t)
      = ((run_batcher ?s)\<lparr>batch_queue := small_queue [1]\<rparr>, Some (small_queue [0]))"
    by (simp add: is_batch_ready_def Let_def small_run_def small_queue_def Batcher_new_def small_config_def
        length_rust_batch entries_size_def small_entry_size)
  from batcher_step.ready [OF _ _ this, of 0]
  have 2: "small_step ?t small_taken"
    by (simp add: small_taken_def small_run_def batcher_start_def)
  from 1 2 small_reaches [of 174] show ?thesis by (meson rtranclp.rtrancl_into_rtrancl)
qed

text \<open>C8: No proof is lost track of, on every interleaving of connections and blocks: the proofs
  that were queued are, in this order, those of the batches taken and those still in the queue;
  each of them is in exactly one place (in the queue, in a batch being finalized, in a finalized
  batch, or in a batch whose finalization failed), as often as it was queued; and every one of
  them came from a message, with its own commitment, within the size limit, and verified if
  pre-verification is on.\<close>

theorem batcher_keeps_every_proof:
  assumes "batcher_reaches keccak256 B from_str M E (batcher_start config block w) s"
  shows "queued s = taken s @ batch_queue (run_batcher s)
    \<and> mset (queued s) = mset (batch_queue (run_batcher s)) + in_progress (block_tasks s)
         + mset (finalized s) + mset (dropped s)
    \<and> list_all (admitted keccak256 B from_str (Batcher_new config block)) (queued s)"
proof -
  have "batcher_inv keccak256 B from_str (Batcher_new config block) s"
    using batcher_reaches_inv [OF assms batcher_inv_start] .
  then show ?thesis by (simp add: batcher_inv_def list_all_iff ac_simps)
qed

theorem batcher_keeps_every_proof_witness:
  "queued (small_run 500 [0, 1]) = taken (small_run 500 [0, 1]) @ batch_queue (run_batcher (small_run 500 [0, 1]))
   \<and> length (queued (small_run 500 [0, 1])) = 2"
  using batcher_keeps_every_proof [OF small_reaches [of 500]]
  by (simp add: small_run_def small_queue_def)

text \<open>C9: One proof can stop the batcher for good: nothing compares the text of an entry with the
  size of a batch when it is queued (the size limit is on the bytes of the proof, of which the
  text has up to four characters each, and verification keys and programs have no limit), and
  once an entry whose text alone is larger is at the head of the queue, then whatever happens
  afterwards no proof leaves the queue, no batch with a proof is ever taken or finalized, and
  later proofs pile up behind it.\<close>

theorem oversized_proof_blocks_batcher:
  assumes "batch_queue (run_batcher s) = (d, c, sink) # rest"
    and "max_batch_size (run_batcher s) < length (rust_entry_to_vec d)"
    and "concat (map task_batch (block_tasks s)) = []"
    and "batcher_reaches keccak256 B from_str M E s s'"
  shows "(\<exists>more. batch_queue (run_batcher s') = (d, c, sink) # rest @ more)
    \<and> taken s' = taken s \<and> finalized s' = finalized s
    \<and> concat (map task_batch (block_tasks s')) = []"
  using blocked_for_ever [OF assms(4,1,2)] assms(1,3)
  by (auto simp: blocked_since_def)

theorem oversized_proof_blocks_batcher_witness:
  "finalized (small_run 173 [0, 1]) = finalized (small_run 173 [0])"
proof -
  have "batch_queue (run_batcher (small_run 173 [0]))
      = (small_entry, commitment_of sum_hash small_entry, 0) # []"
    by (simp add: small_run_def small_queue_def)
  moreover have "max_batch_size (run_batcher (small_run 173 [0])) < length (rust_entry_to_vec small_entry)"
    by (simp add: small_run_def small_entry_size Batcher_new_def small_config_def)
  moreover have "concat (map task_batch (block_tasks (small_run 173 [0]))) = []"
    by (simp add: small_run_def batcher_start_def)
  moreover have "small_step\<^sup>*\<^sup>* (small_run 173 [0]) (small_run 173 [0, 1])"
    using small_message [of 173 "[0]" 1] by auto
  ultimately show ?thesis by (rule oversized_proof_blocks_batcher [THEN conjunct2, THEN conjunct2, THEN conjunct1])
qed

end
