(* ===== verification/Batcher_System.thy ===== *)
theory Batcher_System
  imports System Batcher_Run
begin

text \<open>
  The batcher with the components it works for: the operators, who fetch and judge the batches
  it uploads, and the contract, on which the clients prove that their proofs were in a verified
  batch (\<open>verifyBatchInclusion\<close>).
\<close>

subsection \<open>What the clients are sent\<close>

fun deliver :: "('w, 'c, 'tx, 'r) batcher_env \<Rightarrow> ('c \<times> BatchInclusionData) list \<Rightarrow> 'w \<Rightarrow> 'w" where
  "deliver E [] w = w"
| "deliver E ((sink, r) # rest) w = deliver E rest (fst (ws_send E sink (Binary r) w))"

lemma responses_delivered:
  assumes "send_batch_inclusion_data_responses E M tree i batch (w, b) = ((w', b'), Ret ())"
  shows "\<exists>rs. map Ret rs = map (\<lambda>(k, d, vdc, sink). BatchInclusionData_new M vdc k tree) (enumerate i batch)
    \<and> w' = deliver E (zip (map (\<lambda>(d, vdc, sink). sink) batch) rs) w"
  using assms
proof (induction batch arbitrary: i w b)
  case (Cons e batch)
  obtain d vdc sink where e: "e = (d, vdc, sink)" by (metis surj_pair)
  obtain r where r: "BatchInclusionData_new M vdc i tree = Ret r"
    and rest: "send_batch_inclusion_data_responses E M tree (Suc i) batch
      (fst (ws_send E sink (Binary r) w), b) = ((w', b'), Ret ())"
    using Cons.prems by (auto simp: e sbind_pure_go split: go.splits)
  from Cons.IH [OF rest] obtain rs where rs:
    "map Ret rs = map (\<lambda>(k, d, vdc, sink). BatchInclusionData_new M vdc k tree) (enumerate (Suc i) batch)"
    "w' = deliver E (zip (map (\<lambda>(d, vdc, sink). sink) batch) rs) (fst (ws_send E sink (Binary r) w))"
    by blast
  then show ?case using r by (intro exI [of _ "r # rs"]) (simp add: e)
qed (simp add: sret_def)

lemma finalized_delivers:
  assumes "finalize_batch keccak256 M E n batch False (w, b) = ((w', b'), Ret None)"
  obtains tree rs w1 w2 w3 r where
    "merkle_build M (hash_data keccak256) (hash_new_parent keccak256)
       (map (\<lambda>(_, vdc, _). vdc) batch) = Ret tree"
    "event_stream E w = (w1, None)"
    "put_object E S3_BUCKET_NAME (batch_file_name (merkle_root M tree))
       (rust_batch_to_vec (map fst batch)) w1 = (w2, None)"
    "create_new_task E (merkle_root M tree) (batch_data_pointer (merkle_root M tree)) w2 = (w3, r)"
    "map Ret rs = map (\<lambda>(k, d, vdc, sink). BatchInclusionData_new M vdc k tree) (enumerate 0 batch)"
    "w' = deliver E (zip (map (\<lambda>(d, vdc, sink). sink) batch) rs) w3"
proof -
  obtain tree where tree: "merkle_build M (hash_data keccak256) (hash_new_parent keccak256)
       (map (\<lambda>(_, vdc, _). vdc) batch) = Ret tree"
    using assms by (auto simp: finalize_batch_def Let_def go_simps)
  obtain w1 x where w1: "event_stream E w = (w1, x)" by fastforce
  let ?root = "merkle_root M tree"
  obtain w2 y where w2: "put_object E S3_BUCKET_NAME (batch_file_name ?root)
       (rust_batch_to_vec (map fst batch)) w1 = (w2, y)" by fastforce
  obtain w3 r where w3: "create_new_task E ?root (batch_data_pointer ?root) w2 = (w3, r)" by fastforce
  have x: "x = None" and y: "y = None"
    and send: "send_batch_inclusion_data_responses E M tree 0 batch
      (w3, b\<lparr>last_uploaded_batch_block := n\<rparr>) = ((w', b'), Ret ())"
    using assms
    by (auto simp: finalize_batch_def Let_def tree sbind_def pure_go_def world_call_def w1 submit_batch_def
        w2 w3 sret_def set_last_uploaded_def split: option.splits prod.splits go.splits)
  from responses_delivered [OF send] that tree w1 w2 w3 show thesis unfolding x y by blast
qed

lemma BatchInclusionData_new_Ret [go_simps]:
  "BatchInclusionData_new M vdc i tree = Ret x \<longleftrightarrow>
     (\<exists>path. get_proof_by_pos M tree i = Some path
        \<and> x = \<lparr>verification_data_commitment = vdc, batch_merkle_root = merkle_root M tree,
             batch_inclusion_proof = path, verification_data_batch_index = i\<rparr>)"
  by (auto simp: BatchInclusionData_new_def go_simps)

lemma response_at:
  assumes "map Ret rs = map (\<lambda>(k, d, vdc, sink). BatchInclusionData_new M vdc k tree) (enumerate 0 batch)"
  shows "length rs = length batch"
    and "k < length batch \<Longrightarrow> batch ! k = (d, vdc, sink) \<Longrightarrow> BatchInclusionData_new M vdc k tree = Ret (rs ! k)"
proof -
  show l: "length rs = length batch" using arg_cong [OF assms, of length] by simp
  assume k: "k < length batch" "batch ! k = (d, vdc, sink)"
  have "map Ret rs ! k = map (\<lambda>(k, d, vdc, sink). BatchInclusionData_new M vdc k tree) (enumerate 0 batch) ! k"
    by (simp only: assms)
  then show "BatchInclusionData_new M vdc k tree = Ret (rs ! k)"
    using k l by (simp add: nth_enumerate_eq)
qed

text \<open>What the two Merkle libraries promise together: a proof the batcher's library gives for a
  position passes the contract's check with the tree's root and the hash of the leaf there.\<close>

definition merkle_proofs_check :: "'t merkle_lib \<Rightarrow> (bytes \<Rightarrow> bytes32) \<Rightarrow>
    (bytes \<Rightarrow> bytes32 \<Rightarrow> bytes32 \<Rightarrow> nat \<Rightarrow> bool result) \<Rightarrow> bool" where
  "merkle_proofs_check M keccak256 verifyInclusionKeccak \<longleftrightarrow>
     (\<forall>leaves tree i path. merkle_build M (hash_data keccak256) (hash_new_parent keccak256) leaves = Ret tree
        \<longrightarrow> i < length leaves \<longrightarrow> get_proof_by_pos M tree i = Some path
        \<longrightarrow> verifyInclusionKeccak (concat path) (merkle_root M tree) (hash_data keccak256 (leaves ! i)) i = Inr True)"

text \<open>What a client can do with the data it was sent: ask the contract.\<close>

definition proves_inclusion :: "(bytes \<Rightarrow> bytes32) \<Rightarrow> (bytes \<Rightarrow> bytes32 \<Rightarrow> bytes32 \<Rightarrow> nat \<Rightarrow> bool result) \<Rightarrow>
    storage \<Rightarrow> BatchInclusionData \<Rightarrow> bool" where
  "proves_inclusion keccak256 verifyInclusionKeccak st x \<longleftrightarrow>
     (let c = verification_data_commitment x in
      verifyBatchInclusion keccak256 verifyInclusionKeccak (proof_commitment c) (pub_input_commitment c)
        (proving_system_aux_data_commitment c) (generator_addr c) (batch_merkle_root x)
        (concat (batch_inclusion_proof x)) (verification_data_batch_index x) st = Inr True)"

text \<open>The leaf the contract hashes is the leaf of the batcher's tree.\<close>

lemma included_on_chain:
  assumes "taskCreatedBlock (st (batch_merkle_root x)) \<noteq> 0" "responded (st (batch_merkle_root x))"
    and "verifyInclusionKeccak (concat (batch_inclusion_proof x)) (batch_merkle_root x)
      (hash_data keccak256 (verification_data_commitment x)) (verification_data_batch_index x) = Inr True"
  shows "proves_inclusion keccak256 verifyInclusionKeccak st x"
  using assms by (simp add: proves_inclusion_def verifyBatchInclusion_def hash_data_def Let_def)

definition told_of :: "BatchInclusionData \<Rightarrow> VerificationDataCommitment \<times> bytes32 \<times> nat" where
  "told_of x = (verification_data_commitment x, batch_merkle_root x, verification_data_batch_index x)"

subsection \<open>From the queue to the operators\<close>

text \<open>The entries of a batch that is being finalized are among those that were queued.\<close>

lemma in_progress_admitted:
  assumes run: "batcher_reaches keccak256 B from_str M E (batcher_start config block w) s"
    and task: "Finalizing n batch \<in> set (block_tasks s)" and e: "e \<in> set batch"
  shows "admitted keccak256 B from_str (Batcher_new config block) e"
proof -
  have inv: "batcher_inv keccak256 B from_str (Batcher_new config block) s"
    using batcher_reaches_inv [OF run batcher_inv_start] .
  have "e \<in> set (concat (map task_batch (block_tasks s)))" using task e by force
  then have "e \<in># in_progress (block_tasks s)" by (simp add: in_progress_def)
  then have "e \<in># mset (taken s)" using inv by (simp add: batcher_inv_def)
  then show ?thesis using inv by (simp add: batcher_inv_def)
qed

text \<open>Every operator reads a batch the batcher wrote with the entries it had.\<close>

lemma written_entries_read:
  assumes growth: "\<And>k. k < growcap k" and known: "\<And>e. e \<in> set ds \<Longrightarrow> proving_system e \<in> set known_systems"
    and verdict: "\<And>e e'. e \<in> set ds \<Longrightarrow> rust_entry_read e e' \<Longrightarrow> verify V e' = Ret True"
  shows "\<exists>read. Unmarshal_batch growcap (rust_batch_to_vec ds) = Inr read
    \<and> (\<forall>e'\<in>set read. verify V e' = Ret True)"
proof -
  obtain read where read: "Unmarshal_batch growcap (rust_batch_to_vec ds) = Inr read"
      "list_all2 rust_entry_read ds read"
    using rust_batch_read_back [of growcap ds, OF growth] known by blast
  have "\<exists>e\<in>set ds. rust_entry_read e e'" if "e' \<in> set read" for e'
    using list_all2_nthD2 [OF read(2)] that list_all2_lengthD [OF read(2)]
    by (metis in_set_conv_nth)
  with verdict read(1) show ?thesis by blast
qed

subsection \<open>Properties\<close>


lemma small_entry_readable: "operators_can_read trim_lib small_entry"
  by (simp add: operators_can_read_def short_parts_def small_entry_def opt_bytes_def ps_defs)

lemma small_entry_known: "proving_system small_entry \<in> set known_systems"
  by (simp add: small_entry_def known_systems_def)

lemma small_batch_step:
  "\<exists>t. op_step Suc matching_verifiers example_bls example_operator (operator_start example_sdk example_operator)
     (Some (NewBatchEvent (file_server (rust_batch_to_vec [small_entry])) [9] ''u'')) t"
proof -
  obtain read where "Unmarshal_batch Suc (rust_batch_to_vec [small_entry]) = Inr read"
      "list_all2 rust_entry_read [small_entry] read"
    using rust_batch_read_back [of Suc "[small_entry]"] small_entry_known by auto
  then obtain e where e: "Unmarshal_batch Suc (rust_batch_to_vec [small_entry]) = Inr [e]"
      "rust_entry_read small_entry e"
    by (auto simp: list_all2_Cons1)
  have v: "verify matching_verifiers e = Ret True"
    by (rule entry_verdict [OF small_entry_known trim_lib_trailing e(2) example_libraries
          small_entry_readable small_entry_verifies])
  have got: "operator_getBatch Suc example_operator (file_server (rust_batch_to_vec [small_entry])) ''u'' = Inr [e]"
    using e by (subst fetch_file) (simp_all add: example_operator_def)
  have start: "op_status (operator_start example_sdk example_operator) = OpRunning"
    "op_sub (operator_start example_sdk example_operator) = Some 5"
    by (simp_all add: operator_start_def example_subscribes)
  from batch_signed [OF start got one_entry_run [OF v]] show ?thesis by auto
qed



text \<open>A Merkle check for the witness, for leaves that are hashed to one byte.\<close>

definition leaf_check :: "bytes \<Rightarrow> bytes32 \<Rightarrow> bytes32 \<Rightarrow> nat \<Rightarrow> bool result" where
  "leaf_check p root leaf i = Inr (p = root \<and> i < length root \<and> leaf = [root ! i])"

lemma leaf_lib_checked: "merkle_proofs_check leaf_lib sum_hash leaf_check"
proof -
  have h: "hash_data sum_hash x = [hd (hash_data sum_hash x)]" for x
    by (simp add: hash_data_def sum_hash_def)
  have flat: "concat (map (hash_data sum_hash) leaves) = map (\<lambda>x. hd (hash_data sum_hash x)) leaves" for leaves
    by (induction leaves) (simp_all add: hash_data_def sum_hash_def)
  show ?thesis
    using h by (auto simp: merkle_proofs_check_def leaf_lib_def leaf_check_def flat split: if_splits)
qed

definition answered_storage :: storage where
  "answered_storage = (\<lambda>_. \<lparr>taskCreatedBlock = 1, responded = True\<rparr>)"


end
