(* ===== verification/Binding_Sessions.thy ===== *)
theory Binding_Sessions
  imports Service_Manager_Binding Erc20_Mock
begin

text \<open>
  The session types of the two generated bindings (\<open>contracts/bindings\<close>), which keep the options of
  their calls, and the raw wrappers, which hand a call to go-ethereum by the name of its method. The
  result slice of a raw \<open>Call\<close> starts empty, as in every call of the generated files.
\<close>

subsection \<open>The types\<close>

text \<open>The files generate each struct once per contract, with the contract's own binding in it.\<close>

record ('c, 'co) session =
  session_Contract :: 'c
  session_CallOpts :: 'co
  session_TransactOpts :: tx_opts

record ('c, 'co) reader_session =
  reader_Contract :: 'c
  reader_CallOpts :: 'co

record 'c writer_session =
  writer_Contract :: 'c
  writer_TransactOpts :: tx_opts

record 'c raw =
  raw_Contract :: 'c

type_synonym ('co, 'log, 'w) ServiceManager_Session = "(('co, 'log, 'w) ServiceManager_binding, 'co) session"
type_synonym ('co, 'log, 'w) ServiceManager_CallerSession = "(('co, 'log, 'w) bound_contract, 'co) reader_session"
type_synonym ('co, 'log, 'w) ServiceManager_TransactorSession = "(('co, 'log, 'w) bound_contract) writer_session"
type_synonym ('co, 'log, 'w) ServiceManager_Raw = "(('co, 'log, 'w) ServiceManager_binding) raw"
type_synonym ('co, 'log, 'w) ServiceManager_CallerRaw = "(('co, 'log, 'w) bound_contract) raw"
type_synonym ('co, 'log, 'w) ServiceManager_TransactorRaw = "(('co, 'log, 'w) bound_contract) raw"

type_synonym ('co, 'log, 'w) ERC20Mock_Session = "(('co, 'log, 'w) ERC20Mock_binding, 'co) session"
type_synonym ('co, 'log, 'w) ERC20Mock_CallerSession = "(('co, 'log, 'w) bound_contract, 'co) reader_session"
type_synonym ('co, 'log, 'w) ERC20Mock_TransactorSession = "(('co, 'log, 'w) bound_contract) writer_session"
type_synonym ('co, 'log, 'w) ERC20Mock_Raw = "(('co, 'log, 'w) ERC20Mock_binding) raw"
type_synonym ('co, 'log, 'w) ERC20Mock_CallerRaw = "(('co, 'log, 'w) bound_contract) raw"
type_synonym ('co, 'log, 'w) ERC20Mock_TransactorRaw = "(('co, 'log, 'w) bound_contract) raw"

subsection \<open>The service manager\<close>

text \<open>The calls of a session: the method of the contract with the options of the session.\<close>

definition ServiceManager_Session_AvsDirectory ::
  "('co, 'log, 'w) ServiceManager_Session \<Rightarrow> 'w \<Rightarrow> evm_address result go" where
  "ServiceManager_Session_AvsDirectory s =
     ServiceManager_AvsDirectory (sm_Caller (session_Contract s)) (session_CallOpts s)"

definition ServiceManager_Session_BlsApkRegistry ::
  "('co, 'log, 'w) ServiceManager_Session \<Rightarrow> 'w \<Rightarrow> evm_address result go" where
  "ServiceManager_Session_BlsApkRegistry s =
     ServiceManager_BlsApkRegistry (sm_Caller (session_Contract s)) (session_CallOpts s)"

definition ServiceManager_Session_Delegation ::
  "('co, 'log, 'w) ServiceManager_Session \<Rightarrow> 'w \<Rightarrow> evm_address result go" where
  "ServiceManager_Session_Delegation s =
     ServiceManager_Delegation (sm_Caller (session_Contract s)) (session_CallOpts s)"

definition ServiceManager_Session_GetRestakeableStrategies ::
  "('co, 'log, 'w) ServiceManager_Session \<Rightarrow> 'w \<Rightarrow> evm_address list result go" where
  "ServiceManager_Session_GetRestakeableStrategies s =
     ServiceManager_GetRestakeableStrategies (sm_Caller (session_Contract s)) (session_CallOpts s)"

definition ServiceManager_Session_Owner ::
  "('co, 'log, 'w) ServiceManager_Session \<Rightarrow> 'w \<Rightarrow> evm_address result go" where
  "ServiceManager_Session_Owner s =
     ServiceManager_Owner (sm_Caller (session_Contract s)) (session_CallOpts s)"

definition ServiceManager_Session_Ping ::
  "('co, 'log, 'w) ServiceManager_Session \<Rightarrow> 'w \<Rightarrow> int result go" where
  "ServiceManager_Session_Ping s =
     ServiceManager_Ping (sm_Caller (session_Contract s)) (session_CallOpts s)"

definition ServiceManager_Session_RegistryCoordinator ::
  "('co, 'log, 'w) ServiceManager_Session \<Rightarrow> 'w \<Rightarrow> evm_address result go" where
  "ServiceManager_Session_RegistryCoordinator s =
     ServiceManager_RegistryCoordinator (sm_Caller (session_Contract s)) (session_CallOpts s)"

definition ServiceManager_Session_RewardsInitiator ::
  "('co, 'log, 'w) ServiceManager_Session \<Rightarrow> 'w \<Rightarrow> evm_address result go" where
  "ServiceManager_Session_RewardsInitiator s =
     ServiceManager_RewardsInitiator (sm_Caller (session_Contract s)) (session_CallOpts s)"

definition ServiceManager_Session_StakeRegistry ::
  "('co, 'log, 'w) ServiceManager_Session \<Rightarrow> 'w \<Rightarrow> evm_address result go" where
  "ServiceManager_Session_StakeRegistry s =
     ServiceManager_StakeRegistry (sm_Caller (session_Contract s)) (session_CallOpts s)"

definition ServiceManager_Session_StaleStakesForbidden ::
  "('co, 'log, 'w) ServiceManager_Session \<Rightarrow> 'w \<Rightarrow> bool result go" where
  "ServiceManager_Session_StaleStakesForbidden s =
     ServiceManager_StaleStakesForbidden (sm_Caller (session_Contract s)) (session_CallOpts s)"

definition ServiceManager_Session_GetOperatorRestakedStrategies ::
  "('co, 'log, 'w) ServiceManager_Session \<Rightarrow> evm_address \<Rightarrow> 'w \<Rightarrow>
    evm_address list result go" where
  "ServiceManager_Session_GetOperatorRestakedStrategies s operator =
     ServiceManager_GetOperatorRestakedStrategies (sm_Caller (session_Contract s)) (session_CallOpts s) operator"

definition ServiceManager_Session_BatchesState ::
  "('co, 'log, 'w) ServiceManager_Session \<Rightarrow> bytes32 \<Rightarrow> 'w \<Rightarrow>
    BatchState result go" where
  "ServiceManager_Session_BatchesState s arg0 =
     ServiceManager_BatchesState (sm_Caller (session_Contract s)) (session_CallOpts s) arg0"

definition ServiceManager_Session_CheckSignatures ::
  "('co, 'log, 'w) ServiceManager_Session \<Rightarrow> bytes32 \<Rightarrow> u32 \<Rightarrow>
    NonSignerStakesAndSignature \<Rightarrow> 'w \<Rightarrow>
    (IBLSSignatureCheckerQuorumStakeTotals \<times> bytes32) result go" where
  "ServiceManager_Session_CheckSignatures s msgHash referenceBlockNumber params =
     ServiceManager_CheckSignatures (sm_Caller (session_Contract s)) (session_CallOpts s) msgHash referenceBlockNumber params"

definition ServiceManager_Session_TrySignatureAndApkVerification ::
  "('co, 'log, 'w) ServiceManager_Session \<Rightarrow> bytes32 \<Rightarrow>
    BN254G1Point \<Rightarrow> BN254G2Point \<Rightarrow> BN254G1Point \<Rightarrow> 'w \<Rightarrow>
    (bool \<times> bool) result go" where
  "ServiceManager_Session_TrySignatureAndApkVerification s msgHash apk apkG2 sigma =
     ServiceManager_TrySignatureAndApkVerification (sm_Caller (session_Contract s)) (session_CallOpts s) msgHash apk apkG2 sigma"

definition ServiceManager_Session_CreateAVSRewardsSubmission ::
  "('co, 'log, 'w) ServiceManager_Session \<Rightarrow>
    IRewardsCoordinatorRewardsSubmission list \<Rightarrow> 'w \<Rightarrow> 'w \<times> eth_tx result" where
  "ServiceManager_Session_CreateAVSRewardsSubmission s rewardsSubmissions =
     ServiceManager_CreateAVSRewardsSubmission (sm_Transactor (session_Contract s)) (session_TransactOpts s) rewardsSubmissions"

definition ServiceManager_Session_CreateNewTask ::
  "('co, 'log, 'w) ServiceManager_Session \<Rightarrow> bytes32 \<Rightarrow> string \<Rightarrow>
    'w \<Rightarrow> 'w \<times> eth_tx result" where
  "ServiceManager_Session_CreateNewTask s batchMerkleRoot batchDataPointer =
     ServiceManager_CreateNewTask (sm_Transactor (session_Contract s)) (session_TransactOpts s) batchMerkleRoot batchDataPointer"

definition ServiceManager_Session_DeregisterOperatorFromAVS ::
  "('co, 'log, 'w) ServiceManager_Session \<Rightarrow> evm_address \<Rightarrow> 'w \<Rightarrow>
    'w \<times> eth_tx result" where
  "ServiceManager_Session_DeregisterOperatorFromAVS s operator =
     ServiceManager_DeregisterOperatorFromAVS (sm_Transactor (session_Contract s)) (session_TransactOpts s) operator"

definition ServiceManager_Session_Initialize ::
  "('co, 'log, 'w) ServiceManager_Session \<Rightarrow> evm_address \<Rightarrow> 'w \<Rightarrow>
    'w \<times> eth_tx result" where
  "ServiceManager_Session_Initialize s initialOwner =
     ServiceManager_Initialize (sm_Transactor (session_Contract s)) (session_TransactOpts s) initialOwner"

definition ServiceManager_Session_RegisterOperatorToAVS ::
  "('co, 'log, 'w) ServiceManager_Session \<Rightarrow> evm_address \<Rightarrow>
    ISignatureUtilsSignatureWithSaltAndExpiry \<Rightarrow> 'w \<Rightarrow> 'w \<times> eth_tx result" where
  "ServiceManager_Session_RegisterOperatorToAVS s operator operatorSignature =
     ServiceManager_RegisterOperatorToAVS (sm_Transactor (session_Contract s)) (session_TransactOpts s) operator operatorSignature"

definition ServiceManager_Session_RenounceOwnership ::
  "('co, 'log, 'w) ServiceManager_Session \<Rightarrow> 'w \<Rightarrow> 'w \<times> eth_tx result" where
  "ServiceManager_Session_RenounceOwnership s =
     ServiceManager_RenounceOwnership (sm_Transactor (session_Contract s)) (session_TransactOpts s)"

definition ServiceManager_Session_RespondToTask ::
  "('co, 'log, 'w) ServiceManager_Session \<Rightarrow> bytes32 \<Rightarrow>
    NonSignerStakesAndSignature \<Rightarrow> 'w \<Rightarrow> 'w \<times> eth_tx result" where
  "ServiceManager_Session_RespondToTask s batchMerkleRoot nonSignerStakesAndSignature =
     ServiceManager_RespondToTask (sm_Transactor (session_Contract s)) (session_TransactOpts s) batchMerkleRoot nonSignerStakesAndSignature"

definition ServiceManager_Session_SetRewardsInitiator ::
  "('co, 'log, 'w) ServiceManager_Session \<Rightarrow> evm_address \<Rightarrow> 'w \<Rightarrow>
    'w \<times> eth_tx result" where
  "ServiceManager_Session_SetRewardsInitiator s newRewardsInitiator =
     ServiceManager_SetRewardsInitiator (sm_Transactor (session_Contract s)) (session_TransactOpts s) newRewardsInitiator"

definition ServiceManager_Session_SetStaleStakesForbidden ::
  "('co, 'log, 'w) ServiceManager_Session \<Rightarrow> bool \<Rightarrow> 'w \<Rightarrow>
    'w \<times> eth_tx result" where
  "ServiceManager_Session_SetStaleStakesForbidden s value =
     ServiceManager_SetStaleStakesForbidden (sm_Transactor (session_Contract s)) (session_TransactOpts s) value"

definition ServiceManager_Session_TransferOwnership ::
  "('co, 'log, 'w) ServiceManager_Session \<Rightarrow> evm_address \<Rightarrow> 'w \<Rightarrow>
    'w \<times> eth_tx result" where
  "ServiceManager_Session_TransferOwnership s newOwner =
     ServiceManager_TransferOwnership (sm_Transactor (session_Contract s)) (session_TransactOpts s) newOwner"

definition ServiceManager_Session_UpdateAVSMetadataURI ::
  "('co, 'log, 'w) ServiceManager_Session \<Rightarrow> string \<Rightarrow> 'w \<Rightarrow>
    'w \<times> eth_tx result" where
  "ServiceManager_Session_UpdateAVSMetadataURI s metadataURI =
     ServiceManager_UpdateAVSMetadataURI (sm_Transactor (session_Contract s)) (session_TransactOpts s) metadataURI"

text \<open>Those of a session with a reader or a writer alone.\<close>

definition ServiceManager_CallerSession_AvsDirectory ::
  "('co, 'log, 'w) ServiceManager_CallerSession \<Rightarrow> 'w \<Rightarrow> evm_address result go" where
  "ServiceManager_CallerSession_AvsDirectory s =
     ServiceManager_AvsDirectory (reader_Contract s) (reader_CallOpts s)"

definition ServiceManager_CallerSession_BlsApkRegistry ::
  "('co, 'log, 'w) ServiceManager_CallerSession \<Rightarrow> 'w \<Rightarrow> evm_address result go" where
  "ServiceManager_CallerSession_BlsApkRegistry s =
     ServiceManager_BlsApkRegistry (reader_Contract s) (reader_CallOpts s)"

definition ServiceManager_CallerSession_Delegation ::
  "('co, 'log, 'w) ServiceManager_CallerSession \<Rightarrow> 'w \<Rightarrow> evm_address result go" where
  "ServiceManager_CallerSession_Delegation s =
     ServiceManager_Delegation (reader_Contract s) (reader_CallOpts s)"

definition ServiceManager_CallerSession_GetRestakeableStrategies ::
  "('co, 'log, 'w) ServiceManager_CallerSession \<Rightarrow> 'w \<Rightarrow>
    evm_address list result go" where
  "ServiceManager_CallerSession_GetRestakeableStrategies s =
     ServiceManager_GetRestakeableStrategies (reader_Contract s) (reader_CallOpts s)"

definition ServiceManager_CallerSession_Owner ::
  "('co, 'log, 'w) ServiceManager_CallerSession \<Rightarrow> 'w \<Rightarrow> evm_address result go" where
  "ServiceManager_CallerSession_Owner s =
     ServiceManager_Owner (reader_Contract s) (reader_CallOpts s)"

definition ServiceManager_CallerSession_Ping ::
  "('co, 'log, 'w) ServiceManager_CallerSession \<Rightarrow> 'w \<Rightarrow> int result go" where
  "ServiceManager_CallerSession_Ping s =
     ServiceManager_Ping (reader_Contract s) (reader_CallOpts s)"

definition ServiceManager_CallerSession_RegistryCoordinator ::
  "('co, 'log, 'w) ServiceManager_CallerSession \<Rightarrow> 'w \<Rightarrow> evm_address result go" where
  "ServiceManager_CallerSession_RegistryCoordinator s =
     ServiceManager_RegistryCoordinator (reader_Contract s) (reader_CallOpts s)"

definition ServiceManager_CallerSession_RewardsInitiator ::
  "('co, 'log, 'w) ServiceManager_CallerSession \<Rightarrow> 'w \<Rightarrow> evm_address result go" where
  "ServiceManager_CallerSession_RewardsInitiator s =
     ServiceManager_RewardsInitiator (reader_Contract s) (reader_CallOpts s)"

definition ServiceManager_CallerSession_StakeRegistry ::
  "('co, 'log, 'w) ServiceManager_CallerSession \<Rightarrow> 'w \<Rightarrow> evm_address result go" where
  "ServiceManager_CallerSession_StakeRegistry s =
     ServiceManager_StakeRegistry (reader_Contract s) (reader_CallOpts s)"

definition ServiceManager_CallerSession_StaleStakesForbidden ::
  "('co, 'log, 'w) ServiceManager_CallerSession \<Rightarrow> 'w \<Rightarrow> bool result go" where
  "ServiceManager_CallerSession_StaleStakesForbidden s =
     ServiceManager_StaleStakesForbidden (reader_Contract s) (reader_CallOpts s)"

definition ServiceManager_CallerSession_GetOperatorRestakedStrategies ::
  "('co, 'log, 'w) ServiceManager_CallerSession \<Rightarrow> evm_address \<Rightarrow>
    'w \<Rightarrow> evm_address list result go" where
  "ServiceManager_CallerSession_GetOperatorRestakedStrategies s operator =
     ServiceManager_GetOperatorRestakedStrategies (reader_Contract s) (reader_CallOpts s) operator"

definition ServiceManager_CallerSession_BatchesState ::
  "('co, 'log, 'w) ServiceManager_CallerSession \<Rightarrow> bytes32 \<Rightarrow> 'w \<Rightarrow>
    BatchState result go" where
  "ServiceManager_CallerSession_BatchesState s arg0 =
     ServiceManager_BatchesState (reader_Contract s) (reader_CallOpts s) arg0"

definition ServiceManager_CallerSession_CheckSignatures ::
  "('co, 'log, 'w) ServiceManager_CallerSession \<Rightarrow> bytes32 \<Rightarrow> u32 \<Rightarrow>
    NonSignerStakesAndSignature \<Rightarrow> 'w \<Rightarrow>
    (IBLSSignatureCheckerQuorumStakeTotals \<times> bytes32) result go" where
  "ServiceManager_CallerSession_CheckSignatures s msgHash referenceBlockNumber params =
     ServiceManager_CheckSignatures (reader_Contract s) (reader_CallOpts s) msgHash referenceBlockNumber params"

definition ServiceManager_CallerSession_TrySignatureAndApkVerification ::
  "('co, 'log, 'w) ServiceManager_CallerSession \<Rightarrow> bytes32 \<Rightarrow>
    BN254G1Point \<Rightarrow> BN254G2Point \<Rightarrow> BN254G1Point \<Rightarrow> 'w \<Rightarrow>
    (bool \<times> bool) result go" where
  "ServiceManager_CallerSession_TrySignatureAndApkVerification s msgHash apk apkG2 sigma =
     ServiceManager_TrySignatureAndApkVerification (reader_Contract s) (reader_CallOpts s) msgHash apk apkG2 sigma"

definition ServiceManager_TransactorSession_CreateAVSRewardsSubmission ::
  "('co, 'log, 'w) ServiceManager_TransactorSession \<Rightarrow>
    IRewardsCoordinatorRewardsSubmission list \<Rightarrow> 'w \<Rightarrow> 'w \<times> eth_tx result" where
  "ServiceManager_TransactorSession_CreateAVSRewardsSubmission s rewardsSubmissions =
     ServiceManager_CreateAVSRewardsSubmission (writer_Contract s) (writer_TransactOpts s) rewardsSubmissions"

definition ServiceManager_TransactorSession_CreateNewTask ::
  "('co, 'log, 'w) ServiceManager_TransactorSession \<Rightarrow> bytes32 \<Rightarrow>
    string \<Rightarrow> 'w \<Rightarrow> 'w \<times> eth_tx result" where
  "ServiceManager_TransactorSession_CreateNewTask s batchMerkleRoot batchDataPointer =
     ServiceManager_CreateNewTask (writer_Contract s) (writer_TransactOpts s) batchMerkleRoot batchDataPointer"

definition ServiceManager_TransactorSession_DeregisterOperatorFromAVS ::
  "('co, 'log, 'w) ServiceManager_TransactorSession \<Rightarrow> evm_address \<Rightarrow>
    'w \<Rightarrow> 'w \<times> eth_tx result" where
  "ServiceManager_TransactorSession_DeregisterOperatorFromAVS s operator =
     ServiceManager_DeregisterOperatorFromAVS (writer_Contract s) (writer_TransactOpts s) operator"

definition ServiceManager_TransactorSession_Initialize ::
  "('co, 'log, 'w) ServiceManager_TransactorSession \<Rightarrow> evm_address \<Rightarrow>
    'w \<Rightarrow> 'w \<times> eth_tx result" where
  "ServiceManager_TransactorSession_Initialize s initialOwner =
     ServiceManager_Initialize (writer_Contract s) (writer_TransactOpts s) initialOwner"

definition ServiceManager_TransactorSession_RegisterOperatorToAVS ::
  "('co, 'log, 'w) ServiceManager_TransactorSession \<Rightarrow> evm_address \<Rightarrow>
    ISignatureUtilsSignatureWithSaltAndExpiry \<Rightarrow> 'w \<Rightarrow> 'w \<times> eth_tx result" where
  "ServiceManager_TransactorSession_RegisterOperatorToAVS s operator operatorSignature =
     ServiceManager_RegisterOperatorToAVS (writer_Contract s) (writer_TransactOpts s) operator operatorSignature"

definition ServiceManager_TransactorSession_RenounceOwnership ::
  "('co, 'log, 'w) ServiceManager_TransactorSession \<Rightarrow> 'w \<Rightarrow>
    'w \<times> eth_tx result" where
  "ServiceManager_TransactorSession_RenounceOwnership s =
     ServiceManager_RenounceOwnership (writer_Contract s) (writer_TransactOpts s)"

definition ServiceManager_TransactorSession_RespondToTask ::
  "('co, 'log, 'w) ServiceManager_TransactorSession \<Rightarrow> bytes32 \<Rightarrow>
    NonSignerStakesAndSignature \<Rightarrow> 'w \<Rightarrow> 'w \<times> eth_tx result" where
  "ServiceManager_TransactorSession_RespondToTask s batchMerkleRoot nonSignerStakesAndSignature =
     ServiceManager_RespondToTask (writer_Contract s) (writer_TransactOpts s) batchMerkleRoot nonSignerStakesAndSignature"

definition ServiceManager_TransactorSession_SetRewardsInitiator ::
  "('co, 'log, 'w) ServiceManager_TransactorSession \<Rightarrow> evm_address \<Rightarrow>
    'w \<Rightarrow> 'w \<times> eth_tx result" where
  "ServiceManager_TransactorSession_SetRewardsInitiator s newRewardsInitiator =
     ServiceManager_SetRewardsInitiator (writer_Contract s) (writer_TransactOpts s) newRewardsInitiator"

definition ServiceManager_TransactorSession_SetStaleStakesForbidden ::
  "('co, 'log, 'w) ServiceManager_TransactorSession \<Rightarrow> bool \<Rightarrow> 'w \<Rightarrow>
    'w \<times> eth_tx result" where
  "ServiceManager_TransactorSession_SetStaleStakesForbidden s value =
     ServiceManager_SetStaleStakesForbidden (writer_Contract s) (writer_TransactOpts s) value"

definition ServiceManager_TransactorSession_TransferOwnership ::
  "('co, 'log, 'w) ServiceManager_TransactorSession \<Rightarrow> evm_address \<Rightarrow>
    'w \<Rightarrow> 'w \<times> eth_tx result" where
  "ServiceManager_TransactorSession_TransferOwnership s newOwner =
     ServiceManager_TransferOwnership (writer_Contract s) (writer_TransactOpts s) newOwner"

definition ServiceManager_TransactorSession_UpdateAVSMetadataURI ::
  "('co, 'log, 'w) ServiceManager_TransactorSession \<Rightarrow> string \<Rightarrow>
    'w \<Rightarrow> 'w \<times> eth_tx result" where
  "ServiceManager_TransactorSession_UpdateAVSMetadataURI s metadataURI =
     ServiceManager_UpdateAVSMetadataURI (writer_Contract s) (writer_TransactOpts s) metadataURI"

text \<open>The raw wrappers, around a whole binding, its reader or its writer.\<close>

definition ServiceManager_Raw_Call ::
  "('co, 'log, 'w) ServiceManager_Raw \<Rightarrow> 'co \<Rightarrow> string \<Rightarrow>
    go_value list \<Rightarrow> 'w \<Rightarrow> go_value list result" where
  "ServiceManager_Raw_Call s opts method params =
     bound_Call (sm_Caller (raw_Contract s)) opts method params"

definition ServiceManager_Raw_Transfer ::
  "('co, 'log, 'w) ServiceManager_Raw \<Rightarrow> tx_opts \<Rightarrow> 'w \<Rightarrow>
    'w \<times> eth_tx result" where
  "ServiceManager_Raw_Transfer s opts = bound_Transfer (sm_Transactor (raw_Contract s)) opts"

definition ServiceManager_Raw_Transact ::
  "('co, 'log, 'w) ServiceManager_Raw \<Rightarrow> tx_opts \<Rightarrow> string \<Rightarrow>
    go_value list \<Rightarrow> 'w \<Rightarrow> 'w \<times> eth_tx result" where
  "ServiceManager_Raw_Transact s opts method params =
     bound_Transact (sm_Transactor (raw_Contract s)) opts method params"

definition ServiceManager_CallerRaw_Call ::
  "('co, 'log, 'w) ServiceManager_CallerRaw \<Rightarrow> 'co \<Rightarrow> string \<Rightarrow>
    go_value list \<Rightarrow> 'w \<Rightarrow> go_value list result" where
  "ServiceManager_CallerRaw_Call s opts method params =
     bound_Call (raw_Contract s) opts method params"

definition ServiceManager_TransactorRaw_Transfer ::
  "('co, 'log, 'w) ServiceManager_TransactorRaw \<Rightarrow> tx_opts \<Rightarrow> 'w \<Rightarrow>
    'w \<times> eth_tx result" where
  "ServiceManager_TransactorRaw_Transfer s opts = bound_Transfer (raw_Contract s) opts"

definition ServiceManager_TransactorRaw_Transact ::
  "('co, 'log, 'w) ServiceManager_TransactorRaw \<Rightarrow> tx_opts \<Rightarrow>
    string \<Rightarrow> go_value list \<Rightarrow> 'w \<Rightarrow> 'w \<times> eth_tx result" where
  "ServiceManager_TransactorRaw_Transact s opts method params =
     bound_Transact (raw_Contract s) opts method params"

subsection \<open>The mock token\<close>

text \<open>The calls of a session: the method of the contract with the options of the session.\<close>

definition ERC20Mock_Session_Allowance ::
  "('co, 'log, 'w) ERC20Mock_Session \<Rightarrow> evm_address \<Rightarrow>
    evm_address \<Rightarrow> 'w \<Rightarrow> int result go" where
  "ERC20Mock_Session_Allowance s owner spender =
     ERC20Mock_Allowance (erc_Caller (session_Contract s)) (session_CallOpts s) owner spender"

definition ERC20Mock_Session_BalanceOf ::
  "('co, 'log, 'w) ERC20Mock_Session \<Rightarrow> evm_address \<Rightarrow> 'w \<Rightarrow>
    int result go" where
  "ERC20Mock_Session_BalanceOf s account =
     ERC20Mock_BalanceOf (erc_Caller (session_Contract s)) (session_CallOpts s) account"

definition ERC20Mock_Session_TotalSupply ::
  "('co, 'log, 'w) ERC20Mock_Session \<Rightarrow> 'w \<Rightarrow> int result go" where
  "ERC20Mock_Session_TotalSupply s =
     ERC20Mock_TotalSupply (erc_Caller (session_Contract s)) (session_CallOpts s)"

definition ERC20Mock_Session_Approve ::
  "('co, 'log, 'w) ERC20Mock_Session \<Rightarrow> evm_address \<Rightarrow> int \<Rightarrow>
    'w \<Rightarrow> 'w \<times> eth_tx result" where
  "ERC20Mock_Session_Approve s arg0 arg1 =
     ERC20Mock_Approve (erc_Transactor (session_Contract s)) (session_TransactOpts s) arg0 arg1"

definition ERC20Mock_Session_Mint ::
  "('co, 'log, 'w) ERC20Mock_Session \<Rightarrow> evm_address \<Rightarrow> int \<Rightarrow>
    'w \<Rightarrow> 'w \<times> eth_tx result" where
  "ERC20Mock_Session_Mint s account amount =
     ERC20Mock_Mint (erc_Transactor (session_Contract s)) (session_TransactOpts s) account amount"

definition ERC20Mock_Session_Transfer ::
  "('co, 'log, 'w) ERC20Mock_Session \<Rightarrow> evm_address \<Rightarrow> int \<Rightarrow>
    'w \<Rightarrow> 'w \<times> eth_tx result" where
  "ERC20Mock_Session_Transfer s to_addr amount =
     ERC20Mock_Transfer (erc_Transactor (session_Contract s)) (session_TransactOpts s) to_addr amount"

definition ERC20Mock_Session_TransferFrom ::
  "('co, 'log, 'w) ERC20Mock_Session \<Rightarrow> evm_address \<Rightarrow>
    evm_address \<Rightarrow> int \<Rightarrow> 'w \<Rightarrow> 'w \<times> eth_tx result" where
  "ERC20Mock_Session_TransferFrom s from_addr to_addr amount =
     ERC20Mock_TransferFrom (erc_Transactor (session_Contract s)) (session_TransactOpts s) from_addr to_addr amount"

text \<open>Those of a session with a reader or a writer alone.\<close>

definition ERC20Mock_CallerSession_Allowance ::
  "('co, 'log, 'w) ERC20Mock_CallerSession \<Rightarrow> evm_address \<Rightarrow>
    evm_address \<Rightarrow> 'w \<Rightarrow> int result go" where
  "ERC20Mock_CallerSession_Allowance s owner spender =
     ERC20Mock_Allowance (reader_Contract s) (reader_CallOpts s) owner spender"

definition ERC20Mock_CallerSession_BalanceOf ::
  "('co, 'log, 'w) ERC20Mock_CallerSession \<Rightarrow> evm_address \<Rightarrow> 'w \<Rightarrow>
    int result go" where
  "ERC20Mock_CallerSession_BalanceOf s account =
     ERC20Mock_BalanceOf (reader_Contract s) (reader_CallOpts s) account"

definition ERC20Mock_CallerSession_TotalSupply ::
  "('co, 'log, 'w) ERC20Mock_CallerSession \<Rightarrow> 'w \<Rightarrow> int result go" where
  "ERC20Mock_CallerSession_TotalSupply s =
     ERC20Mock_TotalSupply (reader_Contract s) (reader_CallOpts s)"

definition ERC20Mock_TransactorSession_Approve ::
  "('co, 'log, 'w) ERC20Mock_TransactorSession \<Rightarrow> evm_address \<Rightarrow>
    int \<Rightarrow> 'w \<Rightarrow> 'w \<times> eth_tx result" where
  "ERC20Mock_TransactorSession_Approve s arg0 arg1 =
     ERC20Mock_Approve (writer_Contract s) (writer_TransactOpts s) arg0 arg1"

definition ERC20Mock_TransactorSession_Mint ::
  "('co, 'log, 'w) ERC20Mock_TransactorSession \<Rightarrow> evm_address \<Rightarrow>
    int \<Rightarrow> 'w \<Rightarrow> 'w \<times> eth_tx result" where
  "ERC20Mock_TransactorSession_Mint s account amount =
     ERC20Mock_Mint (writer_Contract s) (writer_TransactOpts s) account amount"

definition ERC20Mock_TransactorSession_Transfer ::
  "('co, 'log, 'w) ERC20Mock_TransactorSession \<Rightarrow> evm_address \<Rightarrow>
    int \<Rightarrow> 'w \<Rightarrow> 'w \<times> eth_tx result" where
  "ERC20Mock_TransactorSession_Transfer s to_addr amount =
     ERC20Mock_Transfer (writer_Contract s) (writer_TransactOpts s) to_addr amount"

definition ERC20Mock_TransactorSession_TransferFrom ::
  "('co, 'log, 'w) ERC20Mock_TransactorSession \<Rightarrow> evm_address \<Rightarrow>
    evm_address \<Rightarrow> int \<Rightarrow> 'w \<Rightarrow> 'w \<times> eth_tx result" where
  "ERC20Mock_TransactorSession_TransferFrom s from_addr to_addr amount =
     ERC20Mock_TransferFrom (writer_Contract s) (writer_TransactOpts s) from_addr to_addr amount"

text \<open>The raw wrappers, around a whole binding, its reader or its writer.\<close>

definition ERC20Mock_Raw_Call ::
  "('co, 'log, 'w) ERC20Mock_Raw \<Rightarrow> 'co \<Rightarrow> string \<Rightarrow>
    go_value list \<Rightarrow> 'w \<Rightarrow> go_value list result" where
  "ERC20Mock_Raw_Call s opts method params =
     bound_Call (erc_Caller (raw_Contract s)) opts method params"

definition ERC20Mock_Raw_Transfer ::
  "('co, 'log, 'w) ERC20Mock_Raw \<Rightarrow> tx_opts \<Rightarrow> 'w \<Rightarrow>
    'w \<times> eth_tx result" where
  "ERC20Mock_Raw_Transfer s opts = bound_Transfer (erc_Transactor (raw_Contract s)) opts"

definition ERC20Mock_Raw_Transact ::
  "('co, 'log, 'w) ERC20Mock_Raw \<Rightarrow> tx_opts \<Rightarrow> string \<Rightarrow>
    go_value list \<Rightarrow> 'w \<Rightarrow> 'w \<times> eth_tx result" where
  "ERC20Mock_Raw_Transact s opts method params =
     bound_Transact (erc_Transactor (raw_Contract s)) opts method params"

definition ERC20Mock_CallerRaw_Call ::
  "('co, 'log, 'w) ERC20Mock_CallerRaw \<Rightarrow> 'co \<Rightarrow> string \<Rightarrow>
    go_value list \<Rightarrow> 'w \<Rightarrow> go_value list result" where
  "ERC20Mock_CallerRaw_Call s opts method params = bound_Call (raw_Contract s) opts method params"

definition ERC20Mock_TransactorRaw_Transfer ::
  "('co, 'log, 'w) ERC20Mock_TransactorRaw \<Rightarrow> tx_opts \<Rightarrow> 'w \<Rightarrow>
    'w \<times> eth_tx result" where
  "ERC20Mock_TransactorRaw_Transfer s opts = bound_Transfer (raw_Contract s) opts"

definition ERC20Mock_TransactorRaw_Transact ::
  "('co, 'log, 'w) ERC20Mock_TransactorRaw \<Rightarrow> tx_opts \<Rightarrow> string \<Rightarrow>
    go_value list \<Rightarrow> 'w \<Rightarrow> 'w \<times> eth_tx result" where
  "ERC20Mock_TransactorRaw_Transact s opts method params =
     bound_Transact (raw_Contract s) opts method params"

subsection \<open>A session reaches the contract\<close>

text \<open>
  A session that sends its transactions hands the node one per call that it reports, and the contract
  executes it as the function of that name on the same arguments.
\<close>

lemma session_creates:
  assumes "submits (sm_Transactor (session_Contract s)) pool" "\<not> NoSend (session_TransactOpts s)"
    and "ServiceManager_Session_CreateNewTask s root pointer w = (w', Inr tx)"
  shows "\<exists>t. pool w' = pool w @ [t]
    \<and> (\<forall>check n st. service_manager_call check n t st = createNewTask n root pointer st)"
  using submits_pool [OF assms(1) assms(3) [unfolded ServiceManager_Session_CreateNewTask_def
      ServiceManager_CreateNewTask_def]] assms(2) create_transaction by auto

lemma session_responds:
  assumes "submits (sm_Transactor (session_Contract s)) pool" "\<not> NoSend (session_TransactOpts s)"
    and "signature_fits sig" and "ServiceManager_Session_RespondToTask s root sig w = (w', Inr tx)"
  shows "\<exists>t. pool w' = pool w @ [t]
    \<and> (\<forall>check n st. service_manager_call check n t st = respondToTask check root sig st)"
  using submits_pool [OF assms(1) assms(4) [unfolded ServiceManager_Session_RespondToTask_def
      ServiceManager_RespondToTask_def]] assms(2) respond_transaction [OF assms(3)] by auto

text \<open>One that does not send leaves the pool alone, and so does one whose calls fail.\<close>

lemma session_without_sending:
  assumes "submits (sm_Transactor (session_Contract s)) pool"
    and "ServiceManager_Session_RespondToTask s root sig w = (w', r)"
    and "NoSend (session_TransactOpts s) \<or> (\<exists>err. r = Inl err)"
  shows "pool w' = pool w"
  using submits_pool [OF assms(1) assms(2) [unfolded ServiceManager_Session_RespondToTask_def
      ServiceManager_RespondToTask_def]] assms(3) by (auto split: sum.splits)

end
