(* ===== verification/Spec2Isabelle.thy ===== *)
theory Spec2Isabelle
  imports System Agg_Refinement Delivery Protocol Service_Manager_Events Erc20_Mock Cli
    Batcher_System Binding_Sessions
begin

text \<open>
  Aligned Layer: a service that has batches of zero-knowledge proofs verified off chain by
  staked operators and records the result on Ethereum. This library models its Go programs (and
  the contract and the Rust functions they meet), and proves what makes each of them correct and
  what they guarantee together.

  \<^bold>\<open>The program.\<close> A batch is a JSON text of verification entries, kept in a bucket under the hash
  that stands for it. A sender (the batcher for the entries its clients send it, or a task sender for
  one entry) uploads it and creates a task on the service manager contract; the contract emits
  \<open>NewBatch\<close>. Every operator sees the event, downloads the batch, verifies the entries in
  parallel, signs the root when all verify, and sends the signature to the aggregator by RPC. The aggregator keeps two maps between roots and task indices, filled from the same events;
  it hands signatures to EigenLayer's BLS aggregation service under the task's index and, when the
  service reports a quorum, sends the aggregated signature to the contract, which checks it
  against the stakes and marks the batch as responded.

  \<^bold>\<open>Theories, and the code under src/.\<close>

  \<^item> \<open>Go_Base\<close>: the prelude. Results (\<open>(T, error)\<close> as a sum), panics and process exits (\<open>'a go\<close>),
    byte slices with their backing array and bounds, numbers and hexadecimal as text, the simp
    collections \<open>go_simps\<close> and \<open>slice_simps\<close>, and the locales \<open>bounded_retry\<close> (a loop that tries
    at most \<open>n\<close> times) and \<open>codec\<close>/\<open>exact_codec\<close> (a writer and its reader), which the components
    below interpret on their own loops and formats. \<open>Go_Script\<close>: programs over a world, and loops
    that run until a round fails.
  \<^item> \<open>Core_Types\<close> (core/types), \<open>Proving_System\<close> (common/proving_systems.go), \<open>Verification_Data\<close>
    (operator/pkg/verification\_data.go): the shared data.
  \<^item> \<open>Base64\<close>, \<open>Json\<close>, \<open>Batch_Json\<close>: the text of a batch, as encoding/json and encoding/base64 of
    the Go library read and write it and as serde of Rust writes it. Round trips for both writers.
  \<^item> \<open>Gnark\<close>, \<open>Halo2\<close>, \<open>Operator_Verify\<close>: verification of one entry (operator/pkg/operator.go,
    operator/halo2ipa, operator/halo2kzg, operator/sp1, operator/risc\_zero, operator/merkle\_tree,
    batcher/aligned-batcher/gnark/verifier.go, and the Rust entry points behind cgo).
  \<^item> \<open>Operator_Batch\<close>: fetching a batch (operator/pkg/s3.go) and judging it
    (\<open>ProcessNewBatchLog\<close>), as a step relation over one goroutine per entry, the closer of the
    channel and the receiving loop. \<open>Rpc_Client\<close>: operator/pkg/rpc\_client.go. \<open>Operator\<close>:
    construction, registration and the main loop (operator/pkg/operator.go, register.go).
    \<open>Operator_Commands\<close>: operator/cmd/actions.
  \<^item> \<open>Chain_IO\<close>: transactions and receipts (core/chainio/avs\_writer.go, core/utils). \<open>Config\<close>:
    core/config. \<open>Chain_Clients\<close>: the other clients of core/chainio, and metrics.
  \<^item> \<open>Agg_Tasks\<close>, \<open>Agg_Server\<close>, \<open>Agg_Response\<close>, \<open>Agg_Subscriber\<close>: the aggregator's handlers
    (aggregator/internal/pkg) as functions on its state, with the locale \<open>task_index\<close> between the
    caches and their clients. \<open>Aggregator_Main\<close>: its construction and main loop.
    \<open>Agg_Concurrent\<close>: the same handlers cut into the steps of goroutines that share the state
    under two mutexes. \<open>Agg_Refinement\<close>: every result of the functions is a run of the steps.
  \<^item> \<open>Service_Manager\<close>: contracts/src/core/AlignedLayerServiceManager.sol, its transactions as a
    step relation on storage and event log, and the locale \<open>batch_registry\<close>.
  \<^item> \<open>Proof_Scripts\<close>: the gnark programs of task\_sender/test\_examples. \<open>Task_Sender\<close>:
    task\_sender/cmd/main.go and task\_sender/pkg.
  \<^item> \<open>Contract_Binding\<close>: what the generated files under contracts/bindings share, the iterator over past
    events and the goroutine of a subscription as step relations. \<open>Service_Manager_Binding\<close> and
    \<open>Service_Manager_Events\<close>: the binding of the service manager, its methods up to what the contract
    executes, and its events up to the aggregator's caches. \<open>Erc20_Mock\<close>: the mock token, contract and
    binding. \<open>Binding_Sessions\<close>: the sessions and raw wrappers of both bindings.
  \<^item> \<open>Batcher_Verify\<close>, \<open>Batcher\<close>, \<open>Batcher_Run\<close>: the batcher (batcher/aligned-batcher, Rust): the
    pre-verification of proofs; commitments, the queue, taking, splitting and finalizing batches;
    connections and blocks interleaved as a step relation that accounts for every proof.
    \<open>Batcher_System\<close>: its batches at the operators, and its answers to clients at the contract.
  \<^item> \<open>Cli\<close>: flags, commands and main functions of the three programs.
  \<^item> \<open>Protocol\<close>: any number of operators, honest ones running \<open>Operator\<close>, around the contract.
  \<^item> \<open>Delivery\<close>: the operator's RPC client on a network that ends at the aggregator's method.
  \<^item> \<open>System\<close>: the aggregator on a chain that runs the contract, and the way of a batch from the
    sender's files (or from the generated proof) to the operators' signatures.

  \<^bold>\<open>How code became definitions.\<close> A Go struct is a record with its fields' names, prefixed where two
  structs share one; machine integers are words of their width; a function that may panic or end
  the process returns \<open>'a go\<close>; a Go map is a partial function, and reading a missing key gives the
  zero value where the code ignores the second result. Locks are a flag in the state: in the
  sequential definitions unlocking a free mutex is the runtime's fatal error, in the step relation
  locking waits. Logging has no effect and is left out.

  \<^bold>\<open>What the lemmas show.\<close> Operators: what is dispatched is signed and verified, a batch's verdict
  means what it says under every schedule and is always reached, what crashes an operator.
  Aggregator: the caches refine a duplicate-free list and stay inverse, indices are stable, every
  interleaving keeps the mutexes exclusive and no goroutine stuck, signatures and responses go to
  the right task, the handlers return. Contract: storage and log agree, each batch is verified
  once. Sender: what it uploads is read back as it was, its generated proofs are accepted. Formats
  and configuration: round trips, completeness of what loads. Together: no run of the aggregator
  makes the contract misbehave, an announced batch is judged by the sender's bytes, and a signature
  the service accepted is backed by verified proofs; and for the whole protocol, what the contract
  records as verified is backed by stake whose owners, if honest, verified it. Bindings: a response
  sent through them or a session is the contract's \<open>respondToTask\<close>, events are delivered in order
  and without gaps until a subscription ends, the aggregator's indices follow the contract's log. Batcher: every
  proof is in one place from its message to its answer, batches are front parts of the queue with
  files of bounded size, a pre-verified batch is signed by every operator that can read it, and the
  clients' inclusion data holds on chain; one oversized entry blocks the queue. Several
  theorems pin down behaviour that is surprising: ignored receipts, signatures refused by the
  service but answered with success, roots that nobody checks, sizes that differ between Go and
  Rust.

  \<^bold>\<open>Bounds.\<close> The loops that are bounded in the code are recursions on the code's own counters (5 tries
  of a response, 10 calls of the RPC client, 25 polls for a receipt, 50 lookups of a task, 100
  subscriptions), so no fuel is involved. The JSON reader recurses on the length of the text, which
  every call shortens, and refuses nesting beyond 10000 as encoding/json does. The endless loops of
  the sender (\<open>round_loop\<close>) take the number of rounds looked at, and their theorems hold for every
  number; the endless loops of operator and aggregator are step relations. The loop of a block in the
  batcher is a \<open>partial_function\<close> with an optional result, shown to be total when the Merkle library
  refuses an empty tree and shown to loop when it does not.

  \<^bold>\<open>Assumptions.\<close> Libraries are arguments: gnark, the verifiers behind cgo, the EigenLayer SDK and
  BLS aggregation service, the Ethereum client, net/rpc, net/http, S3, the YAML reader and the key
  store. Theorems that need something of them state it as a named hypothesis: \<open>runs_on_contract\<close>
  (the contract changes only by its own transactions), \<open>verifiers_answer\<close>, \<open>serves\<close> (a bucket that
  returns what was uploaded), \<open>aggregator_network\<close> (replies come from the method), \<open>sound_checks\<close> (the
  contract's signature check reports stake its signers own; that honest operators' signatures are not forged is the guard of
  the protocol's
  response step), \<open>submits\<close> and \<open>reads_logs\<close> (go-ethereum sends what it is given and unpacks what the
  contract emitted), \<open>selects_commands\<close> (the command-line library), \<open>reads_back\<close> and \<open>file_store\<close> (gnark and the files return what was
  written), \<open>complete_groth16\<close>, \<open>same_libraries\<close> and \<open>trailing_ignored\<close> (batcher and operators
  call the same verifiers, whose readers take what they need from the front),
  \<open>merkle_proofs_check\<close> (the batcher's Merkle proofs pass the contract's check); each has an instance. Mutual exclusion of \<open>sync.Mutex\<close>, the
  atomicity of a channel operation and of a mutex-protected step are the Go memory model's.

  \<^bold>\<open>Not modelled.\<close> Of the generated bindings the ABI and byte-code strings, which are data for
  go-ethereum; the actions of the programs reach the contract through the arguments \<open>eth_backend\<close>
  and \<open>sdk\<close>, of which \<open>binding_backend\<close> is the instance made of the binding. Usage texts of flags, log messages, the
  prometheus registry behind the counters, graceful shutdown by signals; of the batcher its command line,
  the web socket handshake and serde's reader, and its client but for the check of inclusion; the explorer, deployment scripts, tests, and the EigenLayer
  base contracts under the service manager (\<open>checkSignatures\<close> is an argument).
\<close>

end
